theory Spec2Isabelle
  imports Complex_Main
begin

section \<open>Python values and errors\<close>

text \<open>
  The sources are Python 2 with numpy. Floating-point numbers are idealised as
  \<^typ>\<open>real\<close>: every statement below is about exact arithmetic. Exceptions are
  values of \<open>py_error\<close>, and a function that can raise returns \<open>py_error + 'a\<close>.
\<close>

datatype py_error =
    RuntimeError
  | ZeroDivisionError
  | ValueError
  | NameError
  | UnboundLocalError
  | IndexError
  | FloatingPointError
  | NonFinite

text \<open>A Python number that is either an \<open>int\<close> or a \<open>float\<close>.\<close>

datatype py_num = PyInt int | PyFloat real

text \<open>\<open>int(x)\<close> on a float truncates toward zero.\<close>

definition py_int :: "real \<Rightarrow> int" where
  "py_int x = (if 0 \<le> x then \<lfloor>x\<rfloor> else \<lceil>x\<rceil>)"

text \<open>\<open>np.clip(x, lo, hi)\<close> is \<open>minimum(maximum(x, lo), hi)\<close>.\<close>

definition np_clip :: "'a::linorder \<Rightarrow> 'a \<Rightarrow> 'a \<Rightarrow> 'a" where
  "np_clip x lo hi = min (max x lo) hi"

text \<open>\<open>np.round\<close> rounds to the nearest integer, a tie going to the even one.\<close>

definition np_round :: "real \<Rightarrow> int" where
  "np_round x = (let f = \<lfloor>x\<rfloor>; d = x - of_int f
                 in if d < 1/2 then f else if 1/2 < d then f + 1
                    else if even f then f else f + 1)"

section \<open>optimize.py: the pixel budget of the Jacobian\<close>

text \<open>
  \<open>get_num_px_jtj(s, nparams, decimate=1, max_mem=1e9, min_redundant=20)\<close>.
  The state enters through \<open>s.residuals.size\<close> only. The quotient
  \<open>max_mem / 8 / nparams\<close> is a float division (it raises on \<open>nparams = 0\<close>),
  truncated by \<open>int\<close>; \<open>s.residuals.size/decimate\<close> divides two Python 2
  integers, which is floor division.
\<close>

definition get_num_px_jtj :: "int \<Rightarrow> int \<Rightarrow> int \<Rightarrow> real \<Rightarrow> int \<Rightarrow> py_error + int" where
  "get_num_px_jtj residuals_size nparams decimate max_mem min_redundant =
     (if nparams = 0 then Inl ZeroDivisionError
      else let px_mem = py_int (max_mem / 8 / of_int nparams);
               px_red = min_redundant * nparams
           in if decimate = 0 then Inl ZeroDivisionError
              else let px_dec = residuals_size div decimate
                   in if px_red > px_mem then Inl RuntimeError
                      else Inr (np_clip px_dec px_red px_mem))"

text \<open>
  The formula as the specification words it, read over the reals:
  \<open>clip(total_pixels/decimate, min_redundant\<cdot>n_params, max_mem/8/n_params)\<close>.
\<close>

definition spec_num_px :: "int \<Rightarrow> int \<Rightarrow> int \<Rightarrow> real \<Rightarrow> int \<Rightarrow> real" where
  "spec_num_px total_pixels n_params decimate max_mem min_redundant =
     np_clip (of_int total_pixels / of_int decimate)
             (of_int (min_redundant * n_params))
             (max_mem / 8 / of_int n_params)"

section \<open>psf2d.py: the width heuristic\<close>

text \<open>
  \<open>guess_psf_width(error, k=1., alpha=1., round=True)\<close>. Python raises on
  \<open>error = 0\<close> (float division) and on a negative base of the fractional power.
  A zero divisor \<open>k\<close> or \<open>sin(alpha)\<close> makes the numpy quotient infinite or
  undefined, which the real-valued model reports as \<open>NonFinite\<close>.
\<close>

definition guess_psf_width :: "real \<Rightarrow> real \<Rightarrow> real \<Rightarrow> bool \<Rightarrow> py_error + py_num" where
  "guess_psf_width error k alpha rnd =
     (if error = 0 then Inl ZeroDivisionError
      else if 8 / pi / error < 0 then Inl ValueError
      else let first_guess = (8 / pi / error) powr (1 / 3);
               n = \<lceil>first_guess / pi - 0.25\<rceil>;
               second_guess = (of_int n + 0.25) * pi
           in if k = 0 \<or> sin alpha = 0 then Inl NonFinite
              else let to_return = second_guess / k / sin alpha
                   in if rnd then Inr (PyInt (np_round to_return * 2 + 1))
                      else Inr (PyFloat (to_return * 2 + 1)))"

text \<open>
  The width as the specification words it, before rounding:
  \<open>first_guess = (8/(\<pi>\<cdot>error))^(1/3)\<close>, \<open>n = ceil(first_guess/\<pi> - 0.25)\<close>,
  \<open>second_guess = (n + 0.25)\<cdot>\<pi>\<close>, width \<open>= second_guess/(k\<cdot>sin(alpha))\<close>.
\<close>

definition spec_width :: "real \<Rightarrow> real \<Rightarrow> real \<Rightarrow> real" where
  "spec_width error k alpha =
     (let first_guess = (8 / (pi * error)) powr (1 / 3);
          n = \<lceil>first_guess / pi - 0.25\<rceil>;
          second_guess = (of_int n + 0.25) * pi
      in second_guess / (k * sin alpha))"
section \<open>objs.py: the edge kernels of a sphere\<close>

text \<open>
  Each kernel maps the signed distance \<open>dr\<close> to the surface, the radius \<open>a\<close> and
  a shape parameter \<open>alpha\<close> to an occupancy. The source applies them to numpy
  arrays element by element; the definitions below give the value at one
  element. A comparison multiplied into a float is \<open>1\<close> when it holds and
  \<open>0\<close> otherwise. Where numpy would divide by zero (\<open>alpha = 0\<close> in
  \<open>sphere_lerp\<close>, \<open>sphere_triangle_cdf\<close> and the Gaussian kernels) it
  produces \<open>inf\<close> or \<open>nan\<close>; no statement below is made at such an argument.
\<close>

definition py_bool :: "bool \<Rightarrow> real" where
  "py_bool b = (if b then 1 else 0)"

definition sphere_bool :: "real \<Rightarrow> real \<Rightarrow> real \<Rightarrow> real" where
  "sphere_bool dr a alpha = 1.0 * py_bool (dr < 0)"

definition sphere_lerp :: "real \<Rightarrow> real \<Rightarrow> real \<Rightarrow> real" where
  "sphere_lerp dr a alpha = 1 - np_clip ((dr + alpha) / (2 * alpha)) 0 1"

definition sphere_logistic :: "real \<Rightarrow> real \<Rightarrow> real \<Rightarrow> real" where
  "sphere_logistic dr a alpha = 1.0 / (1.0 + exp (alpha * dr))"

definition sphere_triangle_cdf :: "real \<Rightarrow> real \<Rightarrow> real \<Rightarrow> real" where
  "sphere_triangle_cdf dr a alpha =
     (let p0 = (dr + alpha)\<^sup>2 / (2 * alpha\<^sup>2) * py_bool (0 > dr) * py_bool (dr > - alpha);
          p1 = 1 * py_bool (dr > 0)
               - (alpha - dr)\<^sup>2 / (2 * alpha\<^sup>2) * py_bool (0 < dr) * py_bool (dr < alpha)
      in 1 - np_clip (p0 + p1) 0 1)"

text \<open>
  \<open>scipy.special.erf\<close>, the error function, by its Maclaurin series
  \<open>2/\<surd>\<pi> \<cdot> \<Sum>n. (-1)\<^sup>n x\<^bsup>2n+1\<^esup> / (n! (2n+1))\<close>.
\<close>

definition erf :: "real \<Rightarrow> real" where
  "erf x = 2 / sqrt pi * (\<Sum>n. (- 1) ^ n * x ^ (2 * n + 1) / (fact n * of_nat (2 * n + 1)))"

definition sphere_analytical_gaussian :: "real \<Rightarrow> real \<Rightarrow> real \<Rightarrow> real" where
  "sphere_analytical_gaussian dr a alpha =
     (let term1 = 0.5 * (erf ((dr + 2 * a) / (alpha * sqrt 2)) + erf (- dr / (alpha * sqrt 2)));
          term2 = sqrt (0.5 / pi) * (alpha / (dr + a + 1 / 10 ^ 10))
                  * (exp (- 0.5 * dr\<^sup>2 / alpha\<^sup>2) - exp (- 0.5 * (dr + 2 * a)\<^sup>2 / alpha\<^sup>2))
      in term1 - term2)"

text \<open>
  \<open>sphere_analytical_gaussian_trim\<close> fills its answer by four masked
  assignments, in this order: zero everywhere, the formula where
  \<open>|dr| \<le> cut\<close>, \<open>0\<close> where \<open>dr > cut\<close>, \<open>1\<close> where \<open>dr < -cut\<close>.
\<close>

definition gaussian_trim_elem :: "real \<Rightarrow> real \<Rightarrow> real \<Rightarrow> real \<Rightarrow> real" where
  "gaussian_trim_elem a alpha cutv dr =
     (let m = (\<bar>dr\<bar> \<le> cutv);
          t = - dr / (alpha * sqrt 2);
          q = 0.5 * (1 + erf t) - sqrt (0.5 / pi) * (alpha / (dr + a + 1 / 10 ^ 10)) * exp (- t * t);
          ans0 = 0 * dr;
          ans1 = (if m then q else ans0);
          ans2 = (if dr > cutv then 0 else ans1);
          ans3 = (if dr < - cutv then 1 else ans2)
      in ans3)"

definition sphere_analytical_gaussian_trim :: "real list \<Rightarrow> real \<Rightarrow> real \<Rightarrow> real \<Rightarrow> real list" where
  "sphere_analytical_gaussian_trim dr a alpha cutv = map (gaussian_trim_elem a alpha cutv) dr"

definition sphere_constrained_cubic :: "real \<Rightarrow> real \<Rightarrow> real \<Rightarrow> real" where
  "sphere_constrained_cubic dr a alpha =
     (let sqrt3 = sqrt 3;
          b_coeff = a * 0.5 / sqrt3 * (1 - 0.6 * sqrt3 * alpha) / (0.15 + a * a);
          rscl = np_clip dr (- 0.5 * sqrt3) (0.5 * sqrt3);
          a' = rscl + 0.5 * sqrt3;
          d = rscl - 0.5 * sqrt3
      in alpha * d * a' * rscl + b_coeff * d * a' - d / sqrt3)"

text \<open>The defaults of \<open>alpha\<close>, from \<open>alpha_defaults\<close> in \<open>set_draw_method\<close>.\<close>

definition alpha_defaults :: "string \<Rightarrow> real option" where
  "alpha_defaults method =
     (if method = ''bool'' then Some 0
      else if method = ''lerp'' then Some 0.4539
      else if method = ''logistic'' then Some 6.5
      else if method = ''triangle'' then Some 0.6618
      else if method = ''exact-gaussian'' then Some 0.27595
      else if method = ''exact-gaussian-trim'' then Some 0.27595
      else if method = ''exact-gaussian-fast'' then Some 0.27595
      else if method = ''constrained-cubic'' then Some 0.84990
      else None)"

subsection \<open>The fast Gaussian kernel and its fallback\<close>

text \<open>
  The body of \<open>sphere_analytical_gaussian_fast\<close> is a sequence of simple
  statements. For each one the model keeps the name it binds, if any, and the
  names it reads, in the order Python evaluates them. Python decides at compile
  time which names are local to a function: its parameters and every name the
  body assigns. Reading a local name that is not bound yet raises
  \<open>UnboundLocalError\<close>; a name that is not local is looked up among the
  globals of the module (and the builtins), and raises \<open>NameError\<close> when it is
  not there.
\<close>

datatype stmt = Assign string "string list" | Expr "string list" | Return "string list"

fun reads :: "stmt \<Rightarrow> string list" where
  "reads (Assign _ rs) = rs"
| "reads (Expr rs) = rs"
| "reads (Return rs) = rs"

fun assigned :: "stmt list \<Rightarrow> string list" where
  "assigned [] = []"
| "assigned (Assign x _ # ss) = x # assigned ss"
| "assigned (_ # ss) = assigned ss"

fun read_names :: "string list \<Rightarrow> string list \<Rightarrow> string list \<Rightarrow> string list \<Rightarrow> py_error option" where
  "read_names locals globals bound [] = None"
| "read_names locals globals bound (x # xs) =
     (if x \<in> set locals
      then (if x \<in> set bound then read_names locals globals bound xs else Some UnboundLocalError)
      else (if x \<in> set globals then read_names locals globals bound xs else Some NameError))"

text \<open>
  Running the statements: \<open>None\<close> when control reaches a \<open>return\<close> (or the end)
  with every name resolved, the exception otherwise.
\<close>

fun run_body :: "string list \<Rightarrow> string list \<Rightarrow> string list \<Rightarrow> stmt list \<Rightarrow> py_error option" where
  "run_body locals globals bound [] = None"
| "run_body locals globals bound (s # ss) =
     (case read_names locals globals bound (reads s) of
        Some e \<Rightarrow> Some e
      | None \<Rightarrow>
          (case s of
             Assign x _ \<Rightarrow> run_body locals globals (x # bound) ss
           | Expr _ \<Rightarrow> run_body locals globals bound ss
           | Return _ \<Rightarrow> None))"

text \<open>The names bound at module level in objs.py when the function is first called.\<close>

definition objs_globals :: "string list" where
  "objs_globals =
     [''np'', ''erf'', ''inline'', ''expm3'', ''Component'', ''Tile'', ''cdd'', ''amin'', ''amax'',
      ''listify'', ''delistify'', ''MAX_VOLUME_ITERATIONS'', ''norm'', ''inner'', ''sphere_bool'',
      ''sphere_lerp'', ''sphere_logistic'', ''sphere_triangle_cdf'', ''sphere_analytical_gaussian'',
      ''sphere_analytical_gaussian_trim'', ''sphere_analytical_gaussian_fast'',
      ''sphere_constrained_cubic'']"

definition fast_params :: "string list" where
  "fast_params = [''dr'', ''a'', ''alpha'', ''cut'']"

text \<open>
  The statements of the body after the two string literals: \<open>shape = r.shape\<close>,
  \<open>r = r.flatten()\<close>, \<open>N = self.N\<close>, \<open>ans = r*0\<close>, \<open>pi = np.pi\<close>, the call of
  \<open>inline\<close>, and \<open>return ans.reshape(shape)\<close>.
\<close>

definition fast_body :: "stmt list" where
  "fast_body =
     [Assign ''functions'' [],
      Assign ''code'' [],
      Assign ''shape'' [''r''],
      Assign ''r'' [''r''],
      Assign ''N'' [''self''],
      Assign ''ans'' [''r''],
      Assign ''pi'' [''np''],
      Expr [''inline'', ''code'', ''functions''],
      Return [''ans'', ''shape'']]"

text \<open>
  The function as \<open>def\<close> defines it. What the inlined C code would compute is
  the parameter \<open>c_kernel\<close>: \<open>scipy.weave\<close> and the compiled code are outside the
  sources.
\<close>

definition sphere_analytical_gaussian_fast_def ::
    "(real list \<Rightarrow> real \<Rightarrow> real \<Rightarrow> real \<Rightarrow> real list) \<Rightarrow>
     real list \<Rightarrow> real \<Rightarrow> real \<Rightarrow> real \<Rightarrow> py_error + real list" where
  "sphere_analytical_gaussian_fast_def c_kernel dr a alpha cutv =
     (case run_body (fast_params @ assigned fast_body) objs_globals fast_params fast_body of
        Some e \<Rightarrow> Inl e
      | None \<Rightarrow> Inr (c_kernel dr a alpha cutv))"

text \<open>\<open>np.linspace(0, 10, 10)\<close>, the argument of the self-test.\<close>

definition linspace_0_10_10 :: "real list" where
  "linspace_0_10_10 = map (\<lambda>i. of_nat i * (10 / 9)) [0..<10]"

text \<open>
  The module-level \<open>try\<close>/\<open>except Exception\<close>: the name
  \<open>sphere_analytical_gaussian_fast\<close> after the module is loaded. The self-test
  passes the defaults \<open>alpha = 0.2765\<close> and \<open>cut = 1.20\<close>. Every error of
  \<open>py_error\<close> is an \<open>Exception\<close>.
\<close>

definition sphere_analytical_gaussian_fast ::
    "(real list \<Rightarrow> real \<Rightarrow> real \<Rightarrow> real \<Rightarrow> real list) \<Rightarrow>
     real list \<Rightarrow> real \<Rightarrow> real \<Rightarrow> real \<Rightarrow> py_error + real list" where
  "sphere_analytical_gaussian_fast c_kernel =
     (case sphere_analytical_gaussian_fast_def c_kernel linspace_0_10_10 5.0 0.2765 1.20 of
        Inl e \<Rightarrow> (\<lambda>dr a alpha cutv. Inr (sphere_analytical_gaussian_trim dr a alpha cutv))
      | Inr _ \<Rightarrow> sphere_analytical_gaussian_fast_def c_kernel)"

text \<open>
  The two Gaussian entries of the dictionary \<open>sphere_functions\<close> that
  \<open>set_draw_method\<close> builds from the module-level names.
\<close>

definition sphere_functions ::
    "(real list \<Rightarrow> real \<Rightarrow> real \<Rightarrow> real \<Rightarrow> real list) \<Rightarrow> string \<Rightarrow>
     (real list \<Rightarrow> real \<Rightarrow> real \<Rightarrow> real \<Rightarrow> py_error + real list) option" where
  "sphere_functions c_kernel method =
     (if method = ''exact-gaussian-trim''
      then Some (\<lambda>dr a alpha cutv. Inr (sphere_analytical_gaussian_trim dr a alpha cutv))
      else if method = ''exact-gaussian-fast'' then Some (sphere_analytical_gaussian_fast c_kernel)
      else None)"

section \<open>optimize.py: LMParticles clips what it applies\<close>

text \<open>
  The part of an \<open>LMParticles\<close> object that \<open>update_function\<close> reads: the
  parameter names, the masks computed by \<open>__init__\<close> and the three bounds.
\<close>

record lm_particles =
  param_names :: "string list"
  is_rad :: "bool list"
  is_pos :: "bool list list"
  MINRAD :: real
  MAXRAD :: real
  MINDIST :: real

text \<open>
  The masks of \<open>__init__\<close>. \<open>rad_nms\<close> and \<open>pos_nms\<close> are what the state returns
  for \<open>param_radii()\<close> and \<open>param_positions()\<close>. The mask of axis \<open>a\<close> tests
  every name with \<open>(x in pos_nms) & (x[-1] == 'zyx'[a])\<close>; both operands of
  \<open>&\<close> are evaluated, so an empty name raises \<open>IndexError\<close>.
\<close>

definition pos_mask :: "string list \<Rightarrow> string list \<Rightarrow> nat \<Rightarrow> py_error + bool list" where
  "pos_mask pos_nms names a =
     (if [] \<in> set names then Inl IndexError
      else Inr (map (\<lambda>x. x \<in> set pos_nms \<and> last x = ''zyx'' ! a) names))"

definition lm_particles_init :: "string list \<Rightarrow> string list \<Rightarrow> string list \<Rightarrow> py_error + lm_particles" where
  "lm_particles_init rad_nms pos_nms names =
     (case pos_mask pos_nms names 0 of Inl e \<Rightarrow> Inl e | Inr m0 \<Rightarrow>
      case pos_mask pos_nms names 1 of Inl e \<Rightarrow> Inl e | Inr m1 \<Rightarrow>
      case pos_mask pos_nms names 2 of Inl e \<Rightarrow> Inl e | Inr m2 \<Rightarrow>
        Inr \<lparr>param_names = names,
             is_rad = map (\<lambda>x. x \<in> set rad_nms) names,
             is_pos = [m0, m1, m2],
             MINRAD = 1 / 10 ^ 3, MAXRAD = 2 * 10 ^ 2, MINDIST = 1 / 10 ^ 3\<rparr>)"

text \<open>
  \<open>values[mask] = np.clip(values[mask], lo, hi)\<close>: a boolean mask of another
  length than the array raises \<open>IndexError\<close>.
\<close>

definition mask_clip :: "bool list \<Rightarrow> real \<Rightarrow> real \<Rightarrow> real list \<Rightarrow> py_error + real list" where
  "mask_clip msk lo hi values =
     (if length msk \<noteq> length values then Inl IndexError
      else Inr (map2 (\<lambda>m v. if m then np_clip v lo hi else v) msk values))"

text \<open>The loop \<open>for a in xrange(3)\<close> over the axes, \<open>pd\<close> being \<open>state.pad\<close>.\<close>

fun clip_axes :: "lm_particles \<Rightarrow> int list \<Rightarrow> int list \<Rightarrow> nat list \<Rightarrow> real list \<Rightarrow> py_error + real list" where
  "clip_axes lm pd ishape [] values = Inr values"
| "clip_axes lm pd ishape (a # as) values =
     (if length (is_pos lm) \<le> a \<or> length pd \<le> a \<or> length ishape \<le> a then Inl IndexError
      else case mask_clip (is_pos lm ! a) (MINDIST lm - of_int (pd ! a))
                  (of_int (ishape ! a) + of_int (pd ! a) - MINDIST lm) values of
             Inl e \<Rightarrow> Inl e
           | Inr values' \<Rightarrow> clip_axes lm pd ishape as values')"

definition clip_values :: "lm_particles \<Rightarrow> int list \<Rightarrow> int list \<Rightarrow> real list \<Rightarrow> py_error + real list" where
  "clip_values lm pd ishape values =
     (case mask_clip (is_rad lm) (MINRAD lm) (MAXRAD lm) values of
        Inl e \<Rightarrow> Inl e
      | Inr values' \<Rightarrow> clip_axes lm pd ishape [0, 1, 2] values')"

text \<open>
  What \<open>update_function\<close> uses of the state, which is outside the sources:
  its \<open>update\<close>, its \<open>pad\<close>, \<open>ishape.shape\<close>, whether the residuals hold a
  \<open>nan\<close>, and its \<open>error\<close>.
\<close>

record 'st state_iface =
  st_update :: "'st \<Rightarrow> string list \<Rightarrow> real list \<Rightarrow> py_error + 'st"
  st_pad :: "'st \<Rightarrow> int list"
  st_ishape :: "'st \<Rightarrow> int list"
  st_residuals_nan :: "'st \<Rightarrow> bool"
  st_error :: "'st \<Rightarrow> real"

text \<open>
  \<open>LMParticles.update_function\<close>. It returns the new state, the values it
  passed to \<open>state.update\<close> (the array \<open>values\<close>, clipped in place) and the
  error of the state.
\<close>

definition LMParticles_update_function ::
    "'st state_iface \<Rightarrow> lm_particles \<Rightarrow> 'st \<Rightarrow> real list \<Rightarrow> py_error + ('st \<times> real list \<times> real)" where
  "LMParticles_update_function S lm st values =
     (case clip_values lm (st_pad S st) (st_ishape S st) values of
        Inl e \<Rightarrow> Inl e
      | Inr applied \<Rightarrow>
          (case st_update S st (param_names lm) applied of
             Inl e \<Rightarrow> Inl e
           | Inr st' \<Rightarrow>
               if st_residuals_nan S st' then Inl FloatingPointError
               else Inr (st', applied, st_error S st')))"

text \<open>
  An instance: one particle \<open>sph-0\<close> with its radius, in an image of shape
  \<open>(10, 10, 10)\<close> padded by \<open>2\<close>; the state just stores the values it is given.
\<close>

definition ex_names :: "string list" where
  "ex_names = [''sph-0-x'', ''sph-0-y'', ''sph-0-z'', ''sph-0-a'']"

definition ex_rad_nms :: "string list" where
  "ex_rad_nms = [''sph-0-a'']"

definition ex_pos_nms :: "string list" where
  "ex_pos_nms = [''sph-0-x'', ''sph-0-y'', ''sph-0-z'']"

definition ex_lm :: lm_particles where
  "ex_lm = \<lparr>param_names = ex_names,
            is_rad = [False, False, False, True],
            is_pos = [[False, False, True, False], [False, True, False, False],
                      [True, False, False, False]],
            MINRAD = 1 / 10 ^ 3, MAXRAD = 2 * 10 ^ 2, MINDIST = 1 / 10 ^ 3\<rparr>"

definition ex_iface :: "real list state_iface" where
  "ex_iface = \<lparr>st_update = (\<lambda>st names values. Inr values),
               st_pad = (\<lambda>st. [2, 2, 2]),
               st_ishape = (\<lambda>st. [10, 10, 10]),
               st_residuals_nan = (\<lambda>st. False),
               st_error = (\<lambda>st. 0)\<rparr>"

definition ex_values :: "real list" where
  "ex_values = [100, - 50, 5, 1000]"

definition ex_applied :: "real list" where
  "ex_applied = [11999 / 1000, - 1999 / 1000, 5, 200]"

section \<open>optimize.py: the Levenberg-Marquardt engine\<close>

text \<open>
  The attributes of an \<open>LMEngine\<close> that the run methods read and write (a
  leading underscore of the source is dropped). Everything numerical that the
  engine only hands on (the model behind \<open>update_function\<close>, the Jacobian
  \<open>J\<close>, \<open>JTJ\<close> and \<open>_last_residuals\<close>) is the component \<open>world\<close>.
\<close>

record 'w engine =
  param_vals :: "real list"
  last_vals :: "real list"
  error :: real
  last_error :: real
  damping :: "real list"
  increase_damp_factor :: real
  decrease_damp_factor :: real
  use_accel :: bool
  max_accel_correction :: real
  paramtol :: real
  errtol :: real
  fractol :: real
  costol :: "real option"
  max_iter :: int
  run_length :: int
  update_J_frequency :: int
  broyden_update :: bool
  eig_update :: bool
  eig_update_frequency :: int
  broyden_update_frequency :: int
  num_iter :: int
  inner_run_counter :: int
  J_update_counter :: int
  fresh_JTJ :: bool
  max_inner_loop :: nat
  has_run :: bool
  world :: 'w

text \<open>
  What a subclass and numpy supply. \<open>update_function\<close>, \<open>calc_J\<close> and
  \<open>calc_residuals\<close> are the abstract methods of \<open>LMEngine\<close>; the others
  stand for the linear algebra of the methods named after them:
  \<open>h_calc_J\<close> for \<open>update_J\<close> (it can raise on a \<open>nan\<close>),
  \<open>h_calc_lm_step\<close> for \<open>_calc_lm_step(_calc_damped_jtj(...), grad)\<close> with the
  \<open>nan\<close> test of \<open>find_LM_updates\<close>, taking the damping vector, the gradient and
  the sub-block, \<open>h_update_eig_J\<close> for \<open>update_eig_J\<close> up to its last statement,
  \<open>h_calc_accel_correction\<close> for \<open>calc_accel_correction\<close> after its first
  statement (it calls \<open>update_function\<close> on temporaries and so changes the world),
  and \<open>h_set_last_residuals\<close> for the assignment to \<open>self._last_residuals\<close>.

  \<open>update_function\<close> receives a numpy array and may write to it: the
  \<open>update_function\<close> of \<open>LMParticles\<close> clips its argument in place. So the hook
  returns the new world, the array as the call leaves it, and the error. A caller
  that passes \<open>self.param_vals\<close> itself finds the array so left in
  \<open>self.param_vals\<close>; a caller that passes a temporary
  (\<open>self.param_vals + delta\<close>, \<open>self.param_vals.copy()\<close>) never sees it again.
\<close>

record 'w hooks =
  h_update_function :: "'w \<Rightarrow> real list \<Rightarrow> py_error + ('w \<times> real list \<times> real)"
  h_calc_residuals :: "'w \<Rightarrow> real list"
  h_set_last_residuals :: "'w \<Rightarrow> real list \<Rightarrow> 'w"
  h_calc_J :: "'w \<Rightarrow> py_error + 'w"
  h_update_Broyden_J :: "'w \<Rightarrow> real list \<Rightarrow> real list \<Rightarrow> 'w"
  h_update_eig_J :: "'w \<Rightarrow> real list \<Rightarrow> py_error + 'w"
  h_calc_grad :: "'w \<Rightarrow> real list"
  h_calc_lm_step :: "'w \<Rightarrow> real list \<Rightarrow> real list \<Rightarrow> bool list option \<Rightarrow> py_error + real list"
  h_calc_accel_correction :: "'w \<Rightarrow> real list \<Rightarrow> real list \<Rightarrow> real list \<Rightarrow> py_error + ('w \<times> real list)"
  h_calc_model_cosine :: "'w \<Rightarrow> py_error + real"

text \<open>
  An \<open>update_function\<close> that never writes to the array it is given, as
  that of \<open>LMFunction\<close>, which only hands the array to the model function.
\<close>

definition keeps_argument :: "'w hooks \<Rightarrow> bool" where
  "keeps_argument h =
     (\<forall>w p w' p' er. h_update_function h w p = Inr (w', p', er) \<longrightarrow> p' = p)"

text \<open>
  An arithmetic operation on two one-dimensional arrays: element by element
  when the lengths agree, broadcasting an array of length one, \<open>ValueError\<close>
  otherwise. The in-place form cannot grow its left operand.
\<close>

definition np_combine :: "(real \<Rightarrow> real \<Rightarrow> real) \<Rightarrow> real list \<Rightarrow> real list \<Rightarrow> py_error + real list" where
  "np_combine f xs ys =
     (if length xs = length ys then Inr (map2 f xs ys)
      else if length ys = 1 then Inr (map (\<lambda>x. f x (ys ! 0)) xs)
      else if length xs = 1 then Inr (map (\<lambda>y. f (xs ! 0) y) ys)
      else Inl ValueError)"

definition np_inplace :: "(real \<Rightarrow> real \<Rightarrow> real) \<Rightarrow> real list \<Rightarrow> real list \<Rightarrow> py_error + real list" where
  "np_inplace f xs ys =
     (if length xs = length ys then Inr (map2 f xs ys)
      else if length ys = 1 then Inr (map (\<lambda>x. f x (ys ! 0)) xs)
      else Inl ValueError)"

text \<open>
  \<open>find_best_step\<close>: \<open>np.nanargmin\<close> is the first index of the least value;
  an empty list counts as all \<open>nan\<close> and raises.
\<close>

fun argmin_from :: "real \<Rightarrow> nat \<Rightarrow> nat \<Rightarrow> real list \<Rightarrow> nat" where
  "argmin_from b bi i [] = bi"
| "argmin_from b bi i (x # xs) =
     (if x < b then argmin_from x i (Suc i) xs else argmin_from b bi (Suc i) xs)"

definition find_best_step :: "real list \<Rightarrow> py_error + nat" where
  "find_best_step err_vals =
     (case err_vals of [] \<Rightarrow> Inl ValueError | x # xs \<Rightarrow> Inr (argmin_from x 0 1 xs))"

definition increase_damping :: "'w engine \<Rightarrow> 'w engine" where
  "increase_damping e = e\<lparr>damping := map (\<lambda>d. d * increase_damp_factor e) (damping e)\<rparr>"

definition decrease_damping :: "bool \<Rightarrow> 'w engine \<Rightarrow> 'w engine" where
  "decrease_damping undo_decrease e =
     (if undo_decrease
      then e\<lparr>damping := map (\<lambda>d. d * decrease_damp_factor e) (damping e)\<rparr>
      else e\<lparr>damping := map (\<lambda>d. d / decrease_damp_factor e) (damping e)\<rparr>)"

definition update_param_vals :: "'w engine \<Rightarrow> real list \<Rightarrow> bool \<Rightarrow> py_error + 'w engine" where
  "update_param_vals e new_vals incremental =
     (let e1 = e\<lparr>last_vals := param_vals e\<rparr>
      in if incremental
         then (case np_inplace (+) (param_vals e1) new_vals of
                 Inl x \<Rightarrow> Inl x
               | Inr p \<Rightarrow> Inr (e1\<lparr>param_vals := p, fresh_JTJ := False\<rparr>))
         else Inr (e1\<lparr>param_vals := new_vals, fresh_JTJ := False\<rparr>))"

subsection \<open>Termination\<close>

text \<open>
  \<open>get_termination_stats\<close>. The fractional error \<open>delta_err / self.error\<close> is
  a division of numpy floats: by zero it is \<open>-inf\<close> for a negative numerator
  and \<open>+inf\<close> or \<open>nan\<close> otherwise, so the model keeps numerator and
  denominator and \<open>frac_err_lt\<close> gives the result of \<open>frac_err < fractol\<close>.
\<close>

record term_stats =
  ts_delta_vals :: "real list"
  ts_delta_err :: real
  ts_error :: real
  ts_model_cosine :: "real option"

definition frac_err_lt :: "term_stats \<Rightarrow> real \<Rightarrow> bool" where
  "frac_err_lt ts tol =
     (if ts_error ts = 0 then ts_delta_err ts < 0 else ts_delta_err ts / ts_error ts < tol)"

definition get_termination_stats :: "'w hooks \<Rightarrow> 'w engine \<Rightarrow> bool \<Rightarrow> py_error + term_stats" where
  "get_termination_stats h e get_cos =
     (case np_combine (-) (last_vals e) (param_vals e) of
        Inl x \<Rightarrow> Inl x
      | Inr delta_vals \<Rightarrow>
          (let delta_err = last_error e - error e;
               ts = \<lparr>ts_delta_vals = delta_vals, ts_delta_err = delta_err,
                     ts_error = error e, ts_model_cosine = None\<rparr>
           in if get_cos
              then (case h_calc_model_cosine h (world e) of
                      Inl x \<Rightarrow> Inl x
                    | Inr c \<Rightarrow> Inr (ts\<lparr>ts_model_cosine := Some c\<rparr>))
              else Inr ts))"

text \<open>
  \<open>check_completion\<close>. With \<open>costol\<close> set, the last test reads the name
  \<open>curcos\<close>, which is bound nowhere in the function or the module.
\<close>

definition check_completion :: "'w hooks \<Rightarrow> 'w engine \<Rightarrow> py_error + bool" where
  "check_completion h e =
     (case get_termination_stats h e (costol e \<noteq> None) of
        Inl x \<Rightarrow> Inl x
      | Inr term_dict \<Rightarrow>
          (let t0 = False;
               t1 = (t0 \<or> list_all (\<lambda>d. \<bar>d\<bar> < paramtol e) (ts_delta_vals term_dict));
               t2 = (t1 \<or> ts_delta_err term_dict < errtol e);
               t3 = (t2 \<or> frac_err_lt term_dict (fractol e))
           in case costol e of
                None \<Rightarrow> Inr t3
              | Some c \<Rightarrow> Inl NameError))"

definition check_terminate :: "'w hooks \<Rightarrow> 'w engine \<Rightarrow> py_error + bool" where
  "check_terminate h e =
     (if \<not> has_run e then Inr False
      else (case check_completion h e of
              Inl x \<Rightarrow> Inl x
            | Inr t \<Rightarrow> Inr (t \<or> num_iter e \<ge> max_iter e)))"

text \<open>The termination rule as the specification words it.\<close>

definition spec_terminate :: "'w engine \<Rightarrow> real option \<Rightarrow> bool" where
  "spec_terminate e model_cosine =
     (has_run e \<and>
      (list_all (\<lambda>d. \<bar>d\<bar> < paramtol e) (map2 (-) (last_vals e) (param_vals e))
       \<or> last_error e - error e < errtol e
       \<or> (last_error e - error e) / error e < fractol e
       \<or> (case (costol e, model_cosine) of (Some c, Some m) \<Rightarrow> c < m | _ \<Rightarrow> False)
       \<or> num_iter e \<ge> max_iter e))"

subsection \<open>Refreshing the Jacobian\<close>

definition check_update_J :: "'w engine \<Rightarrow> 'w engine \<times> bool" where
  "check_update_J e =
     (let e1 = e\<lparr>J_update_counter := J_update_counter e + 1\<rparr>;
          update = (J_update_counter e1 \<ge> update_J_frequency e1)
      in (e1, update \<and> \<not> fresh_JTJ e1))"

definition update_J :: "'w hooks \<Rightarrow> 'w engine \<Rightarrow> py_error + 'w engine" where
  "update_J h e =
     (case h_calc_J h (world e) of
        Inl x \<Rightarrow> Inl x
      | Inr w \<Rightarrow> Inr (e\<lparr>world := w, fresh_JTJ := True, J_update_counter := 0\<rparr>))"

text \<open>The operands of \<open>&\<close> are all evaluated, so a zero frequency raises in \<open>%\<close>.\<close>

definition check_Broyden_J :: "'w engine \<Rightarrow> py_error + bool" where
  "check_Broyden_J e =
     (if broyden_update_frequency e = 0 then Inl ZeroDivisionError
      else Inr (broyden_update e \<and> \<not> fresh_JTJ e
                \<and> inner_run_counter e mod broyden_update_frequency e = 0))"

definition update_Broyden_J :: "'w hooks \<Rightarrow> 'w engine \<Rightarrow> 'w engine" where
  "update_Broyden_J h e = e\<lparr>world := h_update_Broyden_J h (world e) (param_vals e) (last_vals e)\<rparr>"

definition check_update_eig_J :: "'w engine \<Rightarrow> py_error + bool" where
  "check_update_eig_J e =
     (if eig_update_frequency e = 0 then Inl ZeroDivisionError
      else Inr (eig_update e \<and> \<not> fresh_JTJ e
                \<and> inner_run_counter e mod eig_update_frequency e = 0))"

text \<open>
  \<open>update_eig_J\<close> ends by putting the parameters back with
  \<open>self.update_function(self.param_vals)\<close>, on the array itself.
\<close>

definition update_eig_J :: "'w hooks \<Rightarrow> 'w engine \<Rightarrow> py_error + 'w engine" where
  "update_eig_J h e =
     (case h_update_eig_J h (world e) (param_vals e) of
        Inl x \<Rightarrow> Inl x
      | Inr w \<Rightarrow>
          (case h_update_function h w (param_vals e) of
             Inl x \<Rightarrow> Inl x
           | Inr (w', p, _) \<Rightarrow> Inr (e\<lparr>world := w', param_vals := p\<rparr>)))"

text \<open>The first statement of \<open>_run1\<close> and of \<open>_run2\<close>.\<close>

definition refresh_J :: "'w hooks \<Rightarrow> 'w engine \<Rightarrow> py_error + 'w engine" where
  "refresh_J h e =
     (case check_update_J e of
        (e1, True) \<Rightarrow> update_J h e1
      | (e1, False) \<Rightarrow>
          (case check_Broyden_J e1 of
             Inl x \<Rightarrow> Inl x
           | Inr b \<Rightarrow>
               (let e2 = (if b then update_Broyden_J h e1 else e1)
                in case check_update_eig_J e2 of
                     Inl x \<Rightarrow> Inl x
                   | Inr g \<Rightarrow> if g then update_eig_J h e2 else Inr e2)))"

subsection \<open>The step\<close>

text \<open>
  \<open>calc_accel_correction\<close> starts with
  \<open>self.update_function(self.param_vals)\<close>, on the array itself.
\<close>

definition calc_accel_correction ::
    "'w hooks \<Rightarrow> 'w engine \<Rightarrow> real list \<Rightarrow> py_error + ('w engine \<times> real list)" where
  "calc_accel_correction h e delta0 =
     (case h_update_function h (world e) (param_vals e) of
        Inl x \<Rightarrow> Inl x
      | Inr (w, p, _) \<Rightarrow>
          (case h_calc_accel_correction h w p (damping e) delta0 of
             Inl x \<Rightarrow> Inl x
           | Inr (w', corr) \<Rightarrow> Inr (e\<lparr>world := w', param_vals := p\<rparr>, corr)))"

text \<open>
  \<open>find_LM_updates\<close>. The quotient of the two norms is \<open>inf\<close> or \<open>nan\<close> for a
  zero step, and then not below \<open>max_accel_correction\<close>. When the
  acceleration is too large and the damping is to be corrected, the source
  passes the local name \<open>JTJ\<close>, which is bound only when a sub-block is given.
\<close>

definition find_LM_updates ::
    "'w hooks \<Rightarrow> 'w engine \<Rightarrow> real list \<Rightarrow> bool \<Rightarrow> bool list option \<Rightarrow> py_error + ('w engine \<times> real list)" where
  "find_LM_updates h e grad do_correct_damping subblock =
     (if (case subblock of None \<Rightarrow> False
          | Some blk \<Rightarrow> count_list blk True = 0 \<or> length blk = 0)
      then Inl ValueError
      else case h_calc_lm_step h (world e) (damping e) grad subblock of
        Inl x \<Rightarrow> Inl x
      | Inr delta \<Rightarrow>
          if use_accel e
          then (case calc_accel_correction h e delta of
                  Inl x \<Rightarrow> Inl x
                | Inr (e1, accel_correction) \<Rightarrow>
                    (let nrm_d0 = sqrt (sum_list (map (\<lambda>x. x\<^sup>2) delta));
                         nrm_corr = sqrt (sum_list (map (\<lambda>x. x\<^sup>2) accel_correction))
                     in if nrm_d0 \<noteq> 0 \<and> nrm_corr / nrm_d0 < max_accel_correction e1
                        then (case np_inplace (+) delta accel_correction of
                                Inl x \<Rightarrow> Inl x
                              | Inr delta' \<Rightarrow> Inr (e1, delta'))
                        else if do_correct_damping
                        then (let e2 = increase_damping e1
                              in case subblock of
                                   None \<Rightarrow> Inl UnboundLocalError
                                 | Some blk \<Rightarrow>
                                     (case h_calc_lm_step h (world e2) (damping e2) grad subblock of
                                        Inl x \<Rightarrow> Inl x
                                      | Inr delta' \<Rightarrow> Inr (e2, delta')))
                        else Inr (e1, delta)))
          else Inr (e, delta))"

text \<open>The last block of \<open>_run1\<close>, taken after a good step.\<close>

definition run1_accept :: "'w engine \<Rightarrow> real list \<Rightarrow> real \<Rightarrow> py_error + 'w engine" where
  "run1_accept e delta_vals er1 =
     (case update_param_vals (e\<lparr>last_error := error e, error := er1\<rparr>) delta_vals True of
        Inl x \<Rightarrow> Inl x
      | Inr e' \<Rightarrow> Inr (decrease_damping False e'))"

text \<open>
  The loop \<open>for _try in xrange(self._max_inner_loop)\<close> of \<open>_run1\<close>, by the number
  of tries left. It ends with the step it found, or with \<open>None\<close> when the tries
  are used up (the \<open>else\<close> branch of the loop).
\<close>

fun run1_tries :: "'w hooks \<Rightarrow> real list \<Rightarrow> nat \<Rightarrow> 'w engine \<Rightarrow> py_error + ('w engine \<times> (real list \<times> real) option)" where
  "run1_tries h grad 0 e = Inr (e, None)"
| "run1_tries h grad (Suc n) e =
     (case find_LM_updates h (increase_damping e) grad True None of
        Inl x \<Rightarrow> Inl x
      | Inr (e1, delta_vals) \<Rightarrow>
          (case np_combine (+) (param_vals e1) delta_vals of
             Inl x \<Rightarrow> Inl x
           | Inr p \<Rightarrow>
               (case h_update_function h (world e1) p of
                  Inl x \<Rightarrow> Inl x
                | Inr (w, _, er1) \<Rightarrow>
                    (case find_best_step [error e1, er1] of
                       Inl x \<Rightarrow> Inl x
                     | Inr best \<Rightarrow>
                         if best = 1 then Inr (e1\<lparr>world := w\<rparr>, Some (delta_vals, er1))
                         else run1_tries h grad n (e1\<lparr>world := w\<rparr>)))))"

definition run1 :: "'w hooks \<Rightarrow> 'w engine \<Rightarrow> py_error + 'w engine" where
  "run1 h e =
     (case refresh_J h e of
        Inl x \<Rightarrow> Inl x
      | Inr e1 \<Rightarrow>
     (case find_LM_updates h e1 (h_calc_grad h (world e1)) True None of
        Inl x \<Rightarrow> Inl x
      | Inr (e2, delta_vals) \<Rightarrow>
     (case np_combine (+) (param_vals e2) delta_vals of
        Inl x \<Rightarrow> Inl x
      | Inr p \<Rightarrow>
     (case h_update_function h (world e2) p of
        Inl x \<Rightarrow> Inl x
      | Inr (w3, _, er1) \<Rightarrow>
     (let e3 = e2\<lparr>world := w3\<rparr>
      in case find_best_step [error e3, er1] of
        Inl x \<Rightarrow> Inl x
      | Inr best \<Rightarrow>
          if best = 1 then run1_accept e3 delta_vals er1
          else
            (case h_update_function h (world e3) (param_vals e3) of
               Inl x \<Rightarrow> Inl x
             | Inr (w4, p4, er0) \<Rightarrow>
                 if \<bar>er0 - error e3\<bar> > 1 / 10 ^ 7 then Inl RuntimeError
                 else
                   (let e4 = e3\<lparr>world := w4, param_vals := p4\<rparr>;
                        grad = h_calc_grad h (world e4)
                    in case run1_tries h grad (max_inner_loop e4) e4 of
                         Inl x \<Rightarrow> Inl x
                       | Inr (e5, Some (delta_vals', er1')) \<Rightarrow> run1_accept e5 delta_vals' er1'
                       | Inr (e5, None) \<Rightarrow>
                           (case h_update_function h (world e5) (param_vals e5) of
                              Inl x \<Rightarrow> Inl x
                            | Inr (w6, p6, er0') \<Rightarrow>
                                if \<bar>er0' - error e5\<bar> > 1 / 10 ^ 7 then Inl RuntimeError
                                else Inr (e5\<lparr>world := w6, param_vals := p6\<rparr>)))))))))"

subsection \<open>\<open>do_internal_run\<close>\<close>

text \<open>
  The two \<open>if\<close> statements that open the body of the \<open>while\<close> loop of
  \<open>do_internal_run\<close>: the partial updates of \<open>J\<close>, skipped on the first pass.
\<close>

definition internal_partial_J :: "'w hooks \<Rightarrow> 'w engine \<Rightarrow> py_error + 'w engine" where
  "internal_partial_J h e =
     (case check_Broyden_J e of
        Inl x \<Rightarrow> Inl x
      | Inr b \<Rightarrow>
          (let e1 = (if b \<and> inner_run_counter e \<noteq> 0 then update_Broyden_J h e else e)
           in case check_update_eig_J e1 of
                Inl x \<Rightarrow> Inl x
              | Inr g \<Rightarrow> if g \<and> inner_run_counter e1 \<noteq> 0 then update_eig_J h e1 else Inr e1))"

text \<open>
  The branch of the loop body after a good step, and the branch after a bad
  one. \<open>last_residuals\<close> is the local variable \<open>_last_residuals\<close>; the
  results carry its new value and \<open>good_step\<close>.
\<close>

definition internal_good ::
    "'w hooks \<Rightarrow> bool \<Rightarrow> real list \<Rightarrow> 'w engine \<Rightarrow> real list \<Rightarrow> real \<Rightarrow> real
     \<Rightarrow> py_error + ('w engine \<times> real list \<times> bool)" where
  "internal_good h update_derr last_residuals e delta_vals er0 er1 =
     (case update_param_vals e delta_vals True of
        Inl x \<Rightarrow> Inl x
      | Inr e1 \<Rightarrow>
          (let e2 = e1\<lparr>world := h_set_last_residuals h (world e1) last_residuals\<rparr>;
               e3 = (if update_derr then e2\<lparr>last_error := er0\<rparr> else e2);
               e4 = e3\<lparr>error := er1\<rparr>
           in Inr (e4, h_calc_residuals h (world e4), True)))"

definition internal_bad ::
    "'w hooks \<Rightarrow> real list \<Rightarrow> 'w engine \<Rightarrow> real \<Rightarrow> py_error + ('w engine \<times> real list \<times> bool)" where
  "internal_bad h last_residuals e er0 =
     (case h_update_function h (world e) (param_vals e) of
        Inl x \<Rightarrow> Inl x
      | Inr (w, p, er0_0) \<Rightarrow>
          if \<bar>er0 - er0_0\<bar> > 1 / 10 ^ 6 then Inl RuntimeError
          else Inr (e\<lparr>world := w, param_vals := p\<rparr>, last_residuals, False))"

text \<open>
  One pass through the body of the \<open>while\<close> loop, without the final
  increment of the counter.
\<close>

definition internal_body ::
    "'w hooks \<Rightarrow> bool list option \<Rightarrow> bool \<Rightarrow> real list \<Rightarrow> 'w engine
     \<Rightarrow> py_error + ('w engine \<times> real list \<times> bool)" where
  "internal_body h subblock update_derr last_residuals e =
     (case internal_partial_J h e of
        Inl x \<Rightarrow> Inl x
      | Inr e2 \<Rightarrow>
     (let er0 = 1 * error e2
      in case find_LM_updates h e2 (h_calc_grad h (world e2)) False subblock of
        Inl x \<Rightarrow> Inl x
      | Inr (e3, delta_vals) \<Rightarrow>
     (case np_combine (+) (param_vals e3) delta_vals of
        Inl x \<Rightarrow> Inl x
      | Inr p \<Rightarrow>
     (case h_update_function h (world e3) p of
        Inl x \<Rightarrow> Inl x
      | Inr (w, _, er1) \<Rightarrow>
          if er1 < er0
          then internal_good h update_derr last_residuals (e3\<lparr>world := w\<rparr>) delta_vals er0 er1
          else internal_bad h last_residuals (e3\<lparr>world := w\<rparr>) er0))))"

text \<open>
  What the steps of the loop of \<open>do_internal_run\<close> can change: none of them
  touches \<open>run_length\<close> or the counter of the loop.
\<close>

lemma find_LM_updates_counters:
  assumes "find_LM_updates h e grad c sb = Inr (e', delta)"
  shows "run_length e' = run_length e \<and> inner_run_counter e' = inner_run_counter e"
  using assms
  by (auto simp: find_LM_updates_def calc_accel_correction_def increase_damping_def Let_def
           split: if_splits sum.splits option.splits prod.splits)

lemma update_param_vals_counters:
  assumes "update_param_vals e v inc = Inr e'"
  shows "run_length e' = run_length e \<and> inner_run_counter e' = inner_run_counter e"
  using assms
  by (auto simp: update_param_vals_def Let_def split: if_splits sum.splits)

lemma internal_partial_J_counters:
  assumes "internal_partial_J h e = Inr e'"
  shows "run_length e' = run_length e \<and> inner_run_counter e' = inner_run_counter e"
  using assms
  by (auto simp: internal_partial_J_def update_Broyden_J_def update_eig_J_def Let_def
           split: if_splits sum.splits prod.splits)

lemma internal_good_counters:
  assumes "internal_good h ud lr e delta er0 er1 = Inr (e', lr', g)"
  shows "run_length e' = run_length e \<and> inner_run_counter e' = inner_run_counter e"
  using assms update_param_vals_counters [of e delta True]
  by (auto simp: internal_good_def Let_def split: if_splits sum.splits)

lemma internal_bad_counters:
  assumes "internal_bad h lr e er0 = Inr (e', lr', g)"
  shows "run_length e' = run_length e \<and> inner_run_counter e' = inner_run_counter e"
  using assms
  by (auto simp: internal_bad_def split: if_splits sum.splits prod.splits)

lemma internal_body_counters:
  assumes "internal_body h sb ud lr e = Inr (e', lr', g)"
  shows "run_length e' = run_length e \<and> inner_run_counter e' = inner_run_counter e"
proof -
  from assms obtain e2 e3 delta_vals w er1 where
    e2: "internal_partial_J h e = Inr e2" and
    e3: "find_LM_updates h e2 (h_calc_grad h (world e2)) False sb = Inr (e3, delta_vals)" and
    fin: "(if er1 < error e2
           then internal_good h ud lr (e3\<lparr>world := w\<rparr>) delta_vals (error e2) er1
           else internal_bad h lr (e3\<lparr>world := w\<rparr>) (error e2)) = Inr (e', lr', g)"
    by (auto simp: internal_body_def Let_def split: sum.splits prod.splits)
  have "run_length e' = run_length e3 \<and> inner_run_counter e' = inner_run_counter e3"
  proof (cases "er1 < error e2")
    case True
    with fin have "internal_good h ud lr (e3\<lparr>world := w\<rparr>) delta_vals (error e2) er1 = Inr (e', lr', g)"
      by simp
    from internal_good_counters [OF this] show ?thesis
      by simp
  next
    case False
    with fin have "internal_bad h lr (e3\<lparr>world := w\<rparr>) (error e2) = Inr (e', lr', g)"
      by simp
    from internal_bad_counters [OF this] show ?thesis
      by simp
  qed
  then show ?thesis
    using internal_partial_J_counters [OF e2] find_LM_updates_counters [OF e3] by simp
qed


text \<open>
  The \<open>while\<close> loop. Its condition joins three tests with \<open>&\<close>, so
  \<open>check_terminate\<close> is called, and can raise, whatever the other two say.
\<close>

function internal_loop ::
    "'w hooks \<Rightarrow> bool list option \<Rightarrow> bool \<Rightarrow> real list \<Rightarrow> nat \<Rightarrow> bool \<Rightarrow> 'w engine
     \<Rightarrow> py_error + ('w engine \<times> nat)" where
  "internal_loop h subblock update_derr last_residuals n_good_steps good_step e =
     (case check_terminate h e of
        Inl x \<Rightarrow> Inl x
      | Inr t \<Rightarrow>
          if inner_run_counter e < run_length e \<and> good_step \<and> \<not> t
          then (case internal_body h subblock update_derr last_residuals e of
                  Inl x \<Rightarrow> Inl x
                | Inr (e', last_residuals', good_step') \<Rightarrow>
                    internal_loop h subblock update_derr last_residuals'
                      (if good_step' then n_good_steps + 1 else n_good_steps) good_step'
                      (e'\<lparr>inner_run_counter := inner_run_counter e' + 1\<rparr>))
          else Inr (e, n_good_steps))"
  by pat_completeness auto
termination
proof (relation "measure (\<lambda>(h, sb, ud, lr, n, g, e). nat (run_length e - inner_run_counter e))",
       goal_cases)
  case 1
  show ?case by simp
next
  case (2 h sb ud lr n g e t x e' y lr' g')
  then have "internal_body h sb ud lr e = Inr (e', lr', g')"
    by simp
  from internal_body_counters [OF this] 2 show ?case
    by simp
qed

definition do_internal_run ::
    "'w hooks \<Rightarrow> int \<Rightarrow> bool list option \<Rightarrow> bool \<Rightarrow> 'w engine \<Rightarrow> py_error + ('w engine \<times> nat)" where
  "do_internal_run h initial_count subblock update_derr e =
     (let e0 = e\<lparr>inner_run_counter := initial_count\<rparr>
      in internal_loop h subblock update_derr (h_calc_residuals h (world e0)) 0 True e0)"

subsection \<open>\<open>_run2\<close>\<close>

text \<open>
  The loop of \<open>_run2\<close> after two bad steps, by the number of tries left. When
  the tries are used up, the \<open>else\<close> branch stores what \<open>update_function\<close>
  returns at the old parameters as the new \<open>error\<close>. The result carries
  \<open>good_step\<close>.
\<close>

fun run2_tries :: "'w hooks \<Rightarrow> real list \<Rightarrow> nat \<Rightarrow> 'w engine \<Rightarrow> py_error + ('w engine \<times> bool)" where
  "run2_tries h grad 0 e =
     (case h_update_function h (world e) (param_vals e) of
        Inl x \<Rightarrow> Inl x
      | Inr (w, _, er) \<Rightarrow> Inr (e\<lparr>world := w, error := er\<rparr>, False))"
| "run2_tries h grad (Suc n) e =
     (case find_LM_updates h (increase_damping e) grad True None of
        Inl x \<Rightarrow> Inl x
      | Inr (e1, delta_vals) \<Rightarrow>
          (case np_combine (+) (param_vals e1) delta_vals of
             Inl x \<Rightarrow> Inl x
           | Inr p \<Rightarrow>
               (case h_update_function h (world e1) p of
                  Inl x \<Rightarrow> Inl x
                | Inr (w, _, er_new) \<Rightarrow>
                    (let e2 = e1\<lparr>world := w\<rparr>
                     in if er_new < error e2
                        then (case update_param_vals e2 delta_vals True of
                                Inl x \<Rightarrow> Inl x
                              | Inr e3 \<Rightarrow> Inr (e3\<lparr>error := er_new\<rparr>, True))
                        else run2_tries h grad n e2))))"

text \<open>
  The three branches on \<open>best_step\<close>. With no try at all (\<open>_max_inner_loop = 0\<close>)
  the first branch leaves \<open>good_step\<close> unbound, and the test after the branches
  raises.
\<close>

definition run2_choose ::
    "'w hooks \<Rightarrow> 'w engine \<Rightarrow> nat \<Rightarrow> real list \<Rightarrow> real list \<Rightarrow> real list \<Rightarrow> real \<Rightarrow> real
     \<Rightarrow> py_error + ('w engine \<times> bool)" where
  "run2_choose h e best_step p1 delta_params_1 delta_params_2 er1 er2 =
     (if best_step = 0
      then (case h_update_function h (world e) (param_vals e) of
              Inl x \<Rightarrow> Inl x
            | Inr (w, _, _) \<Rightarrow>
                (let e1 = e\<lparr>world := w\<rparr>;
                     grad = h_calc_grad h (world e1)
                 in case run2_tries h grad (max_inner_loop e1) e1 of
                      Inl x \<Rightarrow> Inl x
                    | Inr (e2, good_step) \<Rightarrow>
                        if max_inner_loop e1 = 0 then Inl UnboundLocalError
                        else Inr (e2, good_step)))
      else if best_step = 1
      then (case h_update_function h (world e) p1 of
              Inl x \<Rightarrow> Inl x
            | Inr (w, _, er1_1) \<Rightarrow>
                if \<bar>er1_1 - er1\<bar> > 1 / 10 ^ 6 then Inl RuntimeError
                else (case update_param_vals (e\<lparr>world := w\<rparr>) delta_params_1 True of
                        Inl x \<Rightarrow> Inl x
                      | Inr e1 \<Rightarrow> Inr (e1\<lparr>error := er1\<rparr>, True)))
      else (case update_param_vals (e\<lparr>error := er2\<rparr>) delta_params_2 True of
              Inl x \<Rightarrow> Inl x
            | Inr e1 \<Rightarrow> Inr (decrease_damping False e1, True)))"

definition run2 :: "'w hooks \<Rightarrow> 'w engine \<Rightarrow> py_error + 'w engine" where
  "run2 h e =
     (case refresh_J h e of
        Inl x \<Rightarrow> Inl x
      | Inr e1 \<Rightarrow>
     (let last_residuals' = h_calc_residuals h (world e1);
          last_error' = 1 * error e1;
          last_vals' = param_vals e1
      in case find_LM_updates h e1 (h_calc_grad h (world e1)) False None of
        Inl x \<Rightarrow> Inl x
      | Inr (e2, delta_params_1) \<Rightarrow>
     (let e3 = decrease_damping False e2
      in case find_LM_updates h e3 (h_calc_grad h (world e3)) False None of
        Inl x \<Rightarrow> Inl x
      | Inr (e4, delta_params_2) \<Rightarrow>
     (let e5 = decrease_damping True e4
      in case np_combine (+) (param_vals e5) delta_params_1 of
        Inl x \<Rightarrow> Inl x
      | Inr p1 \<Rightarrow>
     (case h_update_function h (world e5) p1 of
        Inl x \<Rightarrow> Inl x
      | Inr (w6, _, er1) \<Rightarrow>
     (case np_combine (+) (param_vals e5) delta_params_2 of
        Inl x \<Rightarrow> Inl x
      | Inr p2 \<Rightarrow>
     (case h_update_function h w6 p2 of
        Inl x \<Rightarrow> Inl x
      | Inr (w7, _, er2) \<Rightarrow>
     (let e7 = e5\<lparr>world := w7\<rparr>
      in case find_best_step [error e7, er1, er2] of
        Inl x \<Rightarrow> Inl x
      | Inr best_step \<Rightarrow>
     (case run2_choose h e7 best_step p1 delta_params_1 delta_params_2 er1 er2 of
        Inl x \<Rightarrow> Inl x
      | Inr (e8, good_step) \<Rightarrow>
          if good_step
          then (let e9 = e8\<lparr>world := h_set_last_residuals h (world e8) last_residuals',
                             last_error := last_error', last_vals := last_vals'\<rparr>
                in case do_internal_run h 1 None True e9 of
                     Inl x \<Rightarrow> Inl x
                   | Inr (e10, n) \<Rightarrow> Inr e10)
          else Inr e8)))))))))"

subsection \<open>Two instances\<close>

text \<open>
  The defaults of \<open>LMEngine.__init__\<close> for a parameter vector \<open>p\<close> whose error
  is \<open>er\<close>; \<open>_last_error\<close> is set by \<open>_set_err_paramvals\<close> to
  \<open>(1 + 2 fractol) \<cdot> error\<close>.
\<close>

definition default_engine :: "real list \<Rightarrow> real \<Rightarrow> 'w \<Rightarrow> 'w engine" where
  "default_engine p er w =
     \<lparr>param_vals = p, last_vals = p, error = er, last_error = (1 + 2 * (1 / 10 ^ 6)) * er,
      damping = map (\<lambda>_. 1) p, increase_damp_factor = 3, decrease_damp_factor = 8,
      use_accel = False, max_accel_correction = 1,
      paramtol = 1 / 10 ^ 6, errtol = 1 / 10 ^ 5, fractol = 1 / 10 ^ 6, costol = None,
      max_iter = 5, run_length = 5, update_J_frequency = 1, broyden_update = True,
      eig_update = False, eig_update_frequency = 3, broyden_update_frequency = 1,
      num_iter = 0, inner_run_counter = 0, J_update_counter = 1, fresh_JTJ = False,
      max_inner_loop = 15, has_run = False, world = w\<rparr>"

text \<open>
  A model whose error is the sum of the squares of its parameters; the world is
  the parameter vector last applied, and the step divides the gradient by
  \<open>1 + damping\<close>.
\<close>

definition quad_hooks :: "real list hooks" where
  "quad_hooks =
     \<lparr>h_update_function = (\<lambda>w p. Inr (p, p, sum_list (map (\<lambda>x. x * x) p))),
      h_calc_residuals = (\<lambda>w. map uminus w),
      h_set_last_residuals = (\<lambda>w r. w),
      h_calc_J = (\<lambda>w. Inr w),
      h_update_Broyden_J = (\<lambda>w p l. w),
      h_update_eig_J = (\<lambda>w p. Inr w),
      h_calc_grad = (\<lambda>w. map uminus w),
      h_calc_lm_step = (\<lambda>w d g sb. Inr (map2 (\<lambda>x y. x / (1 + y)) g d)),
      h_calc_accel_correction = (\<lambda>w p d delta. Inr (w, map (\<lambda>_. 0) delta)),
      h_calc_model_cosine = (\<lambda>w. Inr 1)\<rparr>"

text \<open>
  A model whose updates are not exact: the world counts the calls of
  \<open>update_function\<close>, and every call returns the new count as the error.
\<close>

definition drift_hooks :: "nat hooks" where
  "drift_hooks =
     \<lparr>h_update_function = (\<lambda>w p. Inr (Suc w, p, real (Suc w))),
      h_calc_residuals = (\<lambda>w. []),
      h_set_last_residuals = (\<lambda>w r. w),
      h_calc_J = (\<lambda>w. Inr w),
      h_update_Broyden_J = (\<lambda>w p l. w),
      h_update_eig_J = (\<lambda>w p. Inr w),
      h_calc_grad = (\<lambda>w. [0]),
      h_calc_lm_step = (\<lambda>w d g sb. Inr [1]),
      h_calc_accel_correction = (\<lambda>w p d delta. Inr (w, map (\<lambda>_. 0) delta)),
      h_calc_model_cosine = (\<lambda>w. Inr 1)\<rparr>"

text \<open>
  A model whose updates are exact seventeen times and not after: the world
  counts the calls of \<open>update_function\<close>, and the error returned is \<open>0\<close> for
  the first seventeen calls and \<open>1\<close> from then on.
\<close>

definition late_hooks :: "nat hooks" where
  "late_hooks =
     \<lparr>h_update_function = (\<lambda>w p. Inr (Suc w, p, if w < 17 then 0 else 1)),
      h_calc_residuals = (\<lambda>w. []),
      h_set_last_residuals = (\<lambda>w r. w),
      h_calc_J = (\<lambda>w. Inr w),
      h_update_Broyden_J = (\<lambda>w p l. w),
      h_update_eig_J = (\<lambda>w p. Inr w),
      h_calc_grad = (\<lambda>w. [0]),
      h_calc_lm_step = (\<lambda>w d g sb. Inr [1]),
      h_calc_accel_correction = (\<lambda>w p d delta. Inr (w, map (\<lambda>_. 0) delta)),
      h_calc_model_cosine = (\<lambda>w. Inr 1)\<rparr>"


text \<open>
  A model that clips like \<open>LMParticles.update_function\<close>: the array it is
  given is clipped to \<open>[0, 1]\<close> in place, the world is the clipped vector, and
  the error is the squared distance of the clipped vector from \<open>3\<close>. The step
  is always \<open>2\<close>.
\<close>

definition clip_hooks :: "real list hooks" where
  "clip_hooks =
     \<lparr>h_update_function =
        (\<lambda>w p. let q = map (\<lambda>x. np_clip x 0 1) p
               in Inr (q, q, sum_list (map (\<lambda>x. (x - 3) * (x - 3)) q))),
      h_calc_residuals = (\<lambda>w. map (\<lambda>x. 3 - x) w),
      h_set_last_residuals = (\<lambda>w r. w),
      h_calc_J = (\<lambda>w. Inr w),
      h_update_Broyden_J = (\<lambda>w p l. w),
      h_update_eig_J = (\<lambda>w p. Inr w),
      h_calc_grad = (\<lambda>w. map (\<lambda>x. 3 - x) w),
      h_calc_lm_step = (\<lambda>w d g sb. Inr [2]),
      h_calc_accel_correction = (\<lambda>w p d delta. Inr (w, map (\<lambda>_. 0) delta)),
      h_calc_model_cosine = (\<lambda>w. Inr 1)\<rparr>"

section \<open>psf2d.py: \<open>PSF2D.execute\<close>\<close>

text \<open>
  A z-slice of the field is a two-dimensional real array of the transverse
  shape of the working tile; \<open>'img\<close> is the type of such arrays, with their
  element-wise sum and the array of zeros, and \<open>'k\<close> the type of the complex
  arrays of the same shape. The transforms come from pyfftw or numpy; with the
  element-wise product and the real part they are the parameters of the model.
  Each of them can raise (on an array of another shape than the plan's).
\<close>

record ('img, 'k) fft_hooks =
  fft2 :: "'img \<Rightarrow> py_error + 'k"
  ifft2 :: "'k \<Rightarrow> py_error + 'k"
  kmul :: "'k \<Rightarrow> 'k \<Rightarrow> py_error + 'k"
  real_part :: "'k \<Rightarrow> 'img"

text \<open>
  What \<open>execute\<close> reads of the object: \<open>self.shape[0]\<close> and the slices of
  \<open>self._kpsf\<close>.
\<close>

record 'k psf2d =
  shape0 :: nat
  kpsf :: "'k list"

text \<open>
  \<open>_conv_2d(field1, field2, k1=False, k2=True)\<close> as \<open>execute\<close> calls it: only
  the first argument is transformed.
\<close>

definition conv_2d :: "('img, 'k) fft_hooks \<Rightarrow> 'img \<Rightarrow> 'k \<Rightarrow> py_error + 'img" where
  "conv_2d H field1 field2 =
     (case fft2 H field1 of
        Inl x \<Rightarrow> Inl x
      | Inr f1k \<Rightarrow>
          (case kmul H f1k field2 of
             Inl x \<Rightarrow> Inl x
           | Inr fk \<Rightarrow>
               (case ifft2 H fk of
                  Inl x \<Rightarrow> Inl x
                | Inr r \<Rightarrow> Inr (real_part H r))))"

text \<open>
  The first loop, \<open>for a in xrange(field.shape[0])\<close>, from index \<open>a\<close> on: the
  slices of \<open>for_ans\<close> it fills. Reading \<open>self._kpsf[a]\<close> past the end raises.
\<close>

fun conv_loop :: "('img, 'k) fft_hooks \<Rightarrow> 'k list \<Rightarrow> nat \<Rightarrow> 'img list \<Rightarrow> py_error + 'img list" where
  "conv_loop H ks a [] = Inr []"
| "conv_loop H ks a (f # fs) =
     (if length ks \<le> a then Inl IndexError
      else case conv_2d H f (ks ! a) of
             Inl x \<Rightarrow> Inl x
           | Inr c \<Rightarrow>
               (case conv_loop H ks (Suc a) fs of
                  Inl x \<Rightarrow> Inl x
                | Inr cs \<Rightarrow> Inr (c # cs)))"

text \<open>
  The second loop, \<open>for a in xrange(self.shape[0])\<close>, with \<open>n\<close> passes left
  from index \<open>a\<close> on. Writing \<open>bigger_ans[a]\<close> past the end raises.
\<close>

fun fill_loop :: "'img \<Rightarrow> nat \<Rightarrow> nat \<Rightarrow> 'img list \<Rightarrow> py_error + 'img list" where
  "fill_loop ans 0 a bigger_ans = Inr bigger_ans"
| "fill_loop ans (Suc n) a bigger_ans =
     (if length bigger_ans \<le> a then Inl IndexError
      else fill_loop ans n (Suc a) (bigger_ans[a := ans]))"

definition execute ::
    "('img::comm_monoid_add, 'k) fft_hooks \<Rightarrow> 'k psf2d \<Rightarrow> 'img list \<Rightarrow> py_error + 'img list" where
  "execute H P field =
     (case conv_loop H (kpsf P) 0 field of
        Inl x \<Rightarrow> Inl x
      | Inr for_ans \<Rightarrow>
          (let ans = sum_list for_ans;
               bigger_ans = replicate (length field) 0
           in fill_loop ans (shape0 P) 0 bigger_ans))"

text \<open>
  Images of a single pixel: a real number is its own transform.
\<close>

definition pixel_hooks :: "(real, complex) fft_hooks" where
  "pixel_hooks =
     \<lparr>fft2 = (\<lambda>x. Inr (complex_of_real x)),
      ifft2 = (\<lambda>z. Inr z),
      kmul = (\<lambda>a b. Inr (a * b)),
      real_part = Re\<rparr>"

section \<open>objs.py: the field of a \<open>PlatonicSpheresCollection\<close>\<close>

text \<open>
  The attributes that \<open>update\<close> and \<open>_draw_particle\<close> change. A row of \<open>pos\<close> is
  the triple \<open>(z, y, x)\<close>. The dense array \<open>particles\<close> is a function from the
  voxels \<open>'v\<close> of the working tile to its entries.
\<close>

record 'v spheres =
  pos :: "(real \<times> real \<times> real) list"
  rad :: "real list"
  zscale :: real
  particles :: "'v \<Rightarrow> real"

text \<open>
  What \<open>_draw_particle\<close> adds for \<open>sign = 1\<close>: the array \<open>t\<close> on the voxels of
  the support tile and zero elsewhere. It is computed from \<open>zscale\<close>, the position
  and the radius alone, the drawing method, \<open>alpha\<close>, \<open>support_pad\<close>,
  \<open>exact_volume\<close> and the shape being fixed: the kernel (or
  \<open>exact_volume_sphere\<close>) on the coordinates of \<open>Tile(p - r, p + r, 0, shape)\<close>.
  The class \<open>Tile\<close> is outside the sources, and so this function is a parameter.
  It can raise (for instance on \<open>zscale = 0\<close>).
\<close>

type_synonym 'v stamp = "real \<Rightarrow> real \<times> real \<times> real \<Rightarrow> real \<Rightarrow> py_error + ('v \<Rightarrow> real)"

text \<open>
  \<open>_draw_particle(pos, rad, sign)\<close>: nothing for a radius of zero, else
  \<open>self.particles[tile.slicer] += t\<close> with \<open>t\<close> the drawn array times \<open>sign\<close>.
\<close>

definition draw_particle ::
    "'v stamp \<Rightarrow> 'v spheres \<Rightarrow> real \<times> real \<times> real \<Rightarrow> real \<Rightarrow> real \<Rightarrow> py_error + 'v spheres" where
  "draw_particle stamp s p r sign =
     (if r = 0 then Inr s
      else case stamp (zscale s) p r of
             Inl x \<Rightarrow> Inl x
           | Inr t \<Rightarrow> Inr (s\<lparr>particles := (\<lambda>v. particles s v + sign * t v)\<rparr>))"

text \<open>
  What a particle adds to the field when it is drawn with \<open>sign = 1\<close>, and its
  value at a voxel (zero when the drawing raises).
\<close>

definition contrib :: "'v stamp \<Rightarrow> real \<Rightarrow> real \<times> real \<times> real \<Rightarrow> real \<Rightarrow> py_error + ('v \<Rightarrow> real)" where
  "contrib stamp zs p r = (if r = 0 then Inr (\<lambda>v. 0) else stamp zs p r)"

definition contrib_at :: "'v stamp \<Rightarrow> real \<Rightarrow> real \<times> real \<times> real \<Rightarrow> real \<Rightarrow> 'v \<Rightarrow> real" where
  "contrib_at stamp zs p r v = (case contrib stamp zs p r of Inl x \<Rightarrow> 0 | Inr t \<Rightarrow> t v)"

text \<open>\<open>initialize\<close>: zeros, then every particle of \<open>zip(self.pos, self.rad)\<close> drawn.\<close>

fun draw_each :: "'v stamp \<Rightarrow> ((real \<times> real \<times> real) \<times> real) list \<Rightarrow> 'v spheres \<Rightarrow> py_error + 'v spheres" where
  "draw_each stamp [] s = Inr s"
| "draw_each stamp ((p0, r0) # prs) s =
     (case draw_particle stamp s p0 r0 1 of
        Inl x \<Rightarrow> Inl x
      | Inr s' \<Rightarrow> draw_each stamp prs s')"

definition initialize :: "'v stamp \<Rightarrow> 'v spheres \<Rightarrow> py_error + 'v spheres" where
  "initialize stamp s = draw_each stamp (zip (pos s) (rad s)) (s\<lparr>particles := (\<lambda>v. 0)\<rparr>)"

text \<open>
  A parameter name as \<open>_p2i\<close> returns it: \<open>('zscale', None)\<close> for a name without
  a dash, \<open>(g[2], int(g[1]))\<close> for a name of three parts. The parsing of the
  string is not modelled.
\<close>

datatype p2i = Global | Indexed string nat

fun typ_of :: "p2i \<Rightarrow> string" where
  "typ_of Global = ''zscale''"
| "typ_of (Indexed typ ind) = typ"

fun inds_of :: "p2i list \<Rightarrow> nat list" where
  "inds_of [] = []"
| "inds_of (Global # ps) = inds_of ps"
| "inds_of (Indexed typ ind # ps) = ind # inds_of ps"

text \<open>
  \<open>_update_type\<close>. The set of particles is kept as a list without
  duplicates; \<open>None\<close> is in the set of the source only together with
  \<open>zscale\<close>, when \<open>update\<close> does not use the set.
\<close>

definition update_type :: "p2i list \<Rightarrow> bool \<times> nat list" where
  "update_type params = (\<exists>p\<in>set params. typ_of p = ''zscale'', remdups (inds_of params))"

text \<open>One pass of the loop of \<open>set_values\<close>; a name of another type changes nothing.\<close>

definition set_value :: "p2i \<Rightarrow> real \<Rightarrow> 'v spheres \<Rightarrow> py_error + 'v spheres" where
  "set_value p v s =
     (case p of
        Global \<Rightarrow> Inr (s\<lparr>zscale := v\<rparr>)
      | Indexed typ ind \<Rightarrow>
          if typ = ''zscale'' then Inr (s\<lparr>zscale := v\<rparr>)
          else if typ = ''x''
          then (if length (pos s) \<le> ind then Inl IndexError
                else Inr (s\<lparr>pos := (pos s)[ind := (fst (pos s ! ind), fst (snd (pos s ! ind)), v)]\<rparr>))
          else if typ = ''y''
          then (if length (pos s) \<le> ind then Inl IndexError
                else Inr (s\<lparr>pos := (pos s)[ind := (fst (pos s ! ind), v, snd (snd (pos s ! ind)))]\<rparr>))
          else if typ = ''z''
          then (if length (pos s) \<le> ind then Inl IndexError
                else Inr (s\<lparr>pos := (pos s)[ind := (v, snd (pos s ! ind))]\<rparr>))
          else if typ = ''a''
          then (if length (rad s) \<le> ind then Inl IndexError
                else Inr (s\<lparr>rad := (rad s)[ind := v]\<rparr>))
          else Inr s)"

text \<open>\<open>set_values\<close> runs over \<open>zip(params, values)\<close>, which stops at the shorter list.\<close>

fun set_values :: "p2i list \<Rightarrow> real list \<Rightarrow> 'v spheres \<Rightarrow> py_error + 'v spheres" where
  "set_values (p # ps) (v # vs) s =
     (case set_value p v s of
        Inl x \<Rightarrow> Inl x
      | Inr s' \<Rightarrow> set_values ps vs s')"
| "set_values ps vs s = Inr s"

text \<open>
  The loops \<open>for n in particles: self._draw_particle(self.pos[n], self.rad[n], sign)\<close>
  of \<open>update\<close>.
\<close>

fun draw_all :: "'v stamp \<Rightarrow> real \<Rightarrow> nat list \<Rightarrow> 'v spheres \<Rightarrow> py_error + 'v spheres" where
  "draw_all stamp sign [] s = Inr s"
| "draw_all stamp sign (n # ns) s =
     (if length (pos s) \<le> n \<or> length (rad s) \<le> n then Inl IndexError
      else case draw_particle stamp s (pos s ! n) (rad s ! n) sign of
             Inl x \<Rightarrow> Inl x
           | Inr s' \<Rightarrow> draw_all stamp sign ns s')"

definition update :: "'v stamp \<Rightarrow> p2i list \<Rightarrow> real list \<Rightarrow> 'v spheres \<Rightarrow> py_error + 'v spheres" where
  "update stamp params values s =
     (case update_type params of
        (True, particles') \<Rightarrow>
          (case set_values params values s of
             Inl x \<Rightarrow> Inl x
           | Inr s1 \<Rightarrow> initialize stamp s1)
      | (False, particles') \<Rightarrow>
          (case draw_all stamp (- 1) particles' s of
             Inl x \<Rightarrow> Inl x
           | Inr s1 \<Rightarrow>
               (case set_values params values s1 of
                  Inl x \<Rightarrow> Inl x
                | Inr s2 \<Rightarrow> draw_all stamp 1 particles' s2)))"

text \<open>
  An instance on a line of voxels: a sphere of radius \<open>r\<close> about \<open>x\<close> covers the
  voxels within \<open>r\<close> of \<open>x\<close> (the \<open>bool\<close> kernel with an isotropic \<open>zscale\<close>).
\<close>

definition line_stamp :: "int stamp" where
  "line_stamp zs p r =
     (if zs = 0 then Inl ZeroDivisionError
      else Inr (\<lambda>v. if \<bar>real_of_int v - snd (snd p)\<bar> < r then 1 else 0))"

definition line_spheres :: "int spheres" where
  "line_spheres =
     \<lparr>pos = [(0, 0, 2), (0, 0, 5)], rad = [2, 1], zscale = 1,
      particles = (\<lambda>v. (if \<bar>real_of_int v - 2\<bar> < 2 then 1 else 0)
                       + (if \<bar>real_of_int v - 5\<bar> < 1 then 1 else 0))\<rparr>"

section \<open>Facts about rounding\<close>

lemma np_round_ge_floor: "\<lfloor>x\<rfloor> \<le> np_round x"
  by (simp add: np_round_def Let_def)

lemma np_round_le_floor: "np_round x \<le> \<lfloor>x\<rfloor> + 1"
  by (simp add: np_round_def Let_def)

lemma np_round_mono:
  assumes "x \<le> y"
  shows "np_round x \<le> np_round y"
proof (cases "\<lfloor>x\<rfloor> = \<lfloor>y\<rfloor>")
  case True
  with assms show ?thesis
    by (auto simp: np_round_def Let_def)
next
  case False
  have "\<lfloor>x\<rfloor> \<le> \<lfloor>y\<rfloor>"
    using assms by (rule floor_mono)
  with False have "\<lfloor>x\<rfloor> + 1 \<le> \<lfloor>y\<rfloor>"
    by simp
  then show ?thesis
    using np_round_le_floor [of x] np_round_ge_floor [of y] by linarith
qed

lemma np_round_nonneg: "0 \<le> x \<Longrightarrow> 0 \<le> np_round x"
  using np_round_ge_floor [of x] by (simp add: order_trans [of 0 "\<lfloor>x\<rfloor>"])

lemma np_round_nearest: "\<bar>of_int (np_round x) - x\<bar> \<le> 1 / 2"
proof -
  have "of_int \<lfloor>x\<rfloor> \<le> x" "x < of_int \<lfloor>x\<rfloor> + 1"
    by linarith+
  then show ?thesis
    by (auto simp: np_round_def Let_def)
qed

lemma np_round_tie:
  assumes "\<bar>of_int (np_round x) - x\<bar> = 1 / 2"
  shows "even (np_round x)"
proof -
  have f: "of_int \<lfloor>x\<rfloor> \<le> x" "x < of_int \<lfloor>x\<rfloor> + 1"
    by linarith+
  show ?thesis
  proof (cases "x - of_int \<lfloor>x\<rfloor> < 1 / 2")
    case True
    then have "np_round x = \<lfloor>x\<rfloor>"
      by (simp add: np_round_def Let_def)
    with assms f True show ?thesis
      by simp
  next
    case False
    show ?thesis
    proof (cases "1 / 2 < x - of_int \<lfloor>x\<rfloor>")
      case True
      then have "np_round x = \<lfloor>x\<rfloor> + 1"
        by (simp add: np_round_def Let_def)
      with assms f True show ?thesis
        by simp
    next
      case no: False
      with False show ?thesis
        by (simp add: np_round_def Let_def)
    qed
  qed
qed

lemma nearest_unique:
  fixes r m :: int and x :: real
  assumes "\<bar>of_int r - x\<bar> \<le> 1 / 2" and "of_int m - 1 / 2 < x" and "x < of_int m + 1 / 2"
  shows "r = m"
proof -
  have "of_int r < (of_int m + 1 :: real)" "(of_int m - 1 :: real) < of_int r"
    using assms by linarith+
  then have "r < m + 1" "m - 1 < r"
    by linarith+
  then show ?thesis
    by simp
qed



lemma int_gt_py_int_iff:
  assumes "0 \<le> x"
  shows "p > py_int x \<longleftrightarrow> of_int p > x"
  using assms by (simp add: py_int_def floor_less_iff)

section \<open>The pixel budget (C6)\<close>

text \<open>
  With a budget of \<open>1e9\<close> bytes and three parameters the upper bound of the
  clip is \<open>int(1e9 / 8 / 3) = 41666666\<close>, not the quotient \<open>41666666.67\<close>
  of the specification's formula: for a billion residual pixels the code returns
  the truncated bound.
\<close>

theorem get_num_px_jtj_spec_counterexample:
  "get_num_px_jtj 1000000000 3 1 1000000000 20 = Inr 41666666
   \<and> spec_num_px 1000000000 3 1 1000000000 20 \<noteq> 41666666"
  by (simp add: get_num_px_jtj_def spec_num_px_def py_int_def np_clip_def)

text \<open>
  C6, amended. For at least one parameter, a non-zero \<open>decimate\<close> and a
  non-negative memory budget, \<open>get_num_px_jtj\<close> raises its configuration
  error exactly when \<open>min_redundant \<cdot> n_params\<close> exceeds
  \<open>max_mem / 8 / n_params\<close>, and otherwise returns the floor quotient
  \<open>total_pixels / decimate\<close> clipped between \<open>min_redundant \<cdot> n_params\<close> and the
  truncated budget \<open>int(max_mem / 8 / n_params)\<close>.
\<close>

theorem get_num_px_jtj_clip:
  assumes "1 \<le> nparams" and "decimate \<noteq> 0" and "0 \<le> max_mem"
  shows "get_num_px_jtj total_pixels nparams decimate max_mem min_redundant =
           (if of_int (min_redundant * nparams) > max_mem / 8 / of_int nparams
            then Inl RuntimeError
            else Inr (np_clip (total_pixels div decimate) (min_redundant * nparams)
                        (py_int (max_mem / 8 / of_int nparams))))"
proof -
  have "0 \<le> max_mem / 8 / of_int nparams"
    using assms by simp
  then have "min_redundant * nparams > py_int (max_mem / 8 / of_int nparams)
      \<longleftrightarrow> of_int (min_redundant * nparams) > max_mem / 8 / of_int nparams"
    by (rule int_gt_py_int_iff)
  then show ?thesis
    using assms by (simp add: get_num_px_jtj_def Let_def)
qed

text \<open>The defaults \<open>decimate = 1\<close>, \<open>max_mem = 1e9\<close>, \<open>min_redundant = 20\<close>, and a budget that is too small.\<close>

theorem get_num_px_jtj_clip_witness:
  "get_num_px_jtj 1000 3 1 1000000000 20 = Inr 1000
   \<and> get_num_px_jtj 1000 3 1 100 20 = Inl RuntimeError"
  using get_num_px_jtj_clip [of 3 1 1000000000 1000 20]
        get_num_px_jtj_clip [of 3 1 100 1000 20]
  by (simp add: py_int_def np_clip_def)

section \<open>The width heuristic (C7)\<close>

lemma psf_second_guess_mono:
  assumes "0 < e1" "e1 \<le> e2"
  shows "(of_int \<lceil>(8 / (pi * e2)) powr (1 / 3) / pi - 0.25\<rceil> + 0.25) * pi
       \<le> (of_int \<lceil>(8 / (pi * e1)) powr (1 / 3) / pi - 0.25\<rceil> + 0.25) * pi"
proof -
  have "8 / (pi * e2) \<le> 8 / (pi * e1)"
    using assms by (simp add: frac_le)
  moreover have "0 \<le> 8 / (pi * e2)"
    using assms by simp
  ultimately have "(8 / (pi * e2)) powr (1 / 3) \<le> (8 / (pi * e1)) powr (1 / 3)"
    by (intro powr_mono2) simp_all
  then have "(8 / (pi * e2)) powr (1 / 3) / pi - 0.25 \<le> (8 / (pi * e1)) powr (1 / 3) / pi - 0.25"
    by (simp add: divide_right_mono)
  then have "\<lceil>(8 / (pi * e2)) powr (1 / 3) / pi - 0.25\<rceil> \<le> \<lceil>(8 / (pi * e1)) powr (1 / 3) / pi - 0.25\<rceil>"
    by (rule ceiling_mono)
  then show ?thesis
    by (simp add: mult_right_mono)
qed

lemma psf_second_guess_pos:
  assumes "0 < e"
  shows "0 < (of_int \<lceil>(8 / (pi * e)) powr (1 / 3) / pi - 0.25\<rceil> + 0.25) * pi"
proof -
  have "0 < (8 / (pi * e)) powr (1 / 3)"
    using assms by simp
  then have "0 < (8 / (pi * e)) powr (1 / 3) / pi"
    by simp
  then have "- 1 < (8 / (pi * e)) powr (1 / 3) / pi - 0.25"
    by simp
  then have "0 \<le> \<lceil>(8 / (pi * e)) powr (1 / 3) / pi - 0.25\<rceil>"
    by linarith
  then show ?thesis
    by (simp add: add_nonneg_pos)
qed

lemma spec_width_mono:
  assumes "0 < e1" "e1 \<le> e2" "0 < k" "0 < sin alpha"
  shows "spec_width e2 k alpha \<le> spec_width e1 k alpha"
proof -
  have "0 < k * sin alpha"
    using assms by simp
  then show ?thesis
    unfolding spec_width_def Let_def
    using psf_second_guess_mono [OF assms(1,2)] by (simp add: divide_right_mono)
qed

lemma spec_width_pos:
  assumes "0 < e" "0 < k" "0 < sin alpha"
  shows "0 < spec_width e k alpha"
  unfolding spec_width_def Let_def
  using psf_second_guess_pos [OF assms(1)] assms(2,3) by simp

lemma guess_psf_width_eq:
  assumes "0 < err" "0 < k" "0 < sin alpha"
  shows "guess_psf_width err k alpha True
         = Inr (PyInt (2 * np_round (spec_width err k alpha) + 1))"
proof -
  have "\<not> 8 / pi / err < 0"
    using assms by (simp add: not_less)
  then show ?thesis
    using assms by (simp add: guess_psf_width_def spec_width_def Let_def mult.commute)
qed

text \<open>
  C7. For \<open>err\<close> in \<open>(0, 1)\<close>, \<open>k > 0\<close> and \<open>alpha\<close> in \<open>(0, \<pi>/2)\<close>,
  \<open>guess_psf_width\<close> with rounding returns \<open>2 r + 1\<close>, where \<open>r\<close> is the
  integer nearest to the width \<open>second_guess / (k \<cdot> sin alpha)\<close> of the
  specification: it lies within \<open>1/2\<close> of the width and is even when it lies
  exactly \<open>1/2\<close> away. The value returned is odd and positive, and every
  smaller positive \<open>err\<close> gives a width at least as large.
\<close>

theorem guess_psf_width_rounded:
  assumes "0 < err" "err < 1" "0 < k" "0 < alpha" "alpha < pi / 2"
  shows "\<exists>r. guess_psf_width err k alpha True = Inr (PyInt (2 * r + 1))
       \<and> \<bar>of_int r - spec_width err k alpha\<bar> \<le> 1 / 2
       \<and> (\<bar>of_int r - spec_width err k alpha\<bar> = 1 / 2 \<longrightarrow> even r)
       \<and> odd (2 * r + 1) \<and> 0 < 2 * r + 1
       \<and> (\<forall>err'. 0 < err' \<and> err' \<le> err \<longrightarrow>
             (\<exists>r'. guess_psf_width err' k alpha True = Inr (PyInt (2 * r' + 1)) \<and> r \<le> r'))"
proof -
  have s: "0 < sin alpha"
    using assms by (simp add: sin_gt_zero2)
  define r where "r = np_round (spec_width err k alpha)"
  have 1: "guess_psf_width err k alpha True = Inr (PyInt (2 * r + 1))"
    unfolding r_def using assms(1,3) s by (rule guess_psf_width_eq)
  have 2: "\<bar>of_int r - spec_width err k alpha\<bar> \<le> 1 / 2"
    unfolding r_def by (rule np_round_nearest)
  have 3: "\<bar>of_int r - spec_width err k alpha\<bar> = 1 / 2 \<longrightarrow> even r"
    unfolding r_def using np_round_tie by blast
  have "0 \<le> r"
    unfolding r_def using spec_width_pos [OF assms(1,3) s] by (intro np_round_nonneg) simp
  then have 4: "odd (2 * r + 1) \<and> 0 < 2 * r + 1"
    by simp
  have 5: "\<exists>r'. guess_psf_width err' k alpha True = Inr (PyInt (2 * r' + 1)) \<and> r \<le> r'"
    if "0 < err' \<and> err' \<le> err" for err'
  proof -
    have "r \<le> np_round (spec_width err' k alpha)"
      unfolding r_def using that assms(3) s by (intro np_round_mono spec_width_mono) simp_all
    moreover have "guess_psf_width err' k alpha True
                   = Inr (PyInt (2 * np_round (spec_width err' k alpha) + 1))"
      using that assms(3) s by (intro guess_psf_width_eq) simp_all
    ultimately show ?thesis
      by blast
  qed
  from 1 2 3 4 5 show ?thesis
    by blast
qed

text \<open>Bounds on \<open>sin 1\<close> and \<open>\<pi>\<close> from the Maclaurin series of the sine.\<close>

lemma sin_cubic_bound:
  fixes x :: real
  shows "\<bar>sin x - (x - x ^ 3 / 6)\<bar> \<le> \<bar>x\<bar> ^ 5 / 120"
proof -
  have set: "{..<5::nat} = {0, 1, 2, 3, 4}"
    by auto
  have c: "sin_coeff 0 = 0" "sin_coeff (Suc 0) = 1" "sin_coeff 2 = 0" "sin_coeff 3 = - 1 / 6"
    "sin_coeff 4 = 0"
    by (simp_all add: sin_coeff_def fact_numeral)
  have s: "(\<Sum>m<5. sin_coeff m * x ^ m) = x - x ^ 3 / 6"
    unfolding set by (simp add: c)
  have f: "fact 5 = (120 :: real)"
    by (simp add: eval_nat_numeral)
  have "\<bar>sin x - (x - x ^ 3 / 6)\<bar> \<le> inverse 120 * \<bar>x\<bar> ^ 5"
    using Maclaurin_sin_bound [of x 5] unfolding s f .
  then show ?thesis
    by simp
qed

lemma sin_one_bounds: "33 / 40 \<le> sin (1::real)" "sin (1::real) \<le> 101 / 120"
proof -
  have "\<bar>sin (1::real) - 5 / 6\<bar> \<le> 1 / 120"
    using sin_cubic_bound [of 1] by simp
  then show "33 / 40 \<le> sin (1::real)" "sin (1::real) \<le> 101 / 120"
    by linarith+
qed

lemma sin_below_half: "sin (523 / 1000 :: real) < 1 / 2"
proof -
  have c3: "(523 / 1000 :: real) ^ 3 = 143055667 / 1000000000"
    by (simp add: power3_eq_cube)
  have "(523 / 1000 :: real) ^ 5 = (523 / 1000) ^ 3 * ((523 / 1000) * (523 / 1000))"
    by (simp add: eval_nat_numeral)
  then have c5: "(523 / 1000 :: real) ^ 5 = 39129873538843 / 1000000000000000"
    unfolding c3 by simp
  have "\<bar>sin (523 / 1000 :: real) - (523 / 1000 - 143055667 / 1000000000 / 6)\<bar>
        \<le> 39129873538843 / 1000000000000000 / 120"
    using sin_cubic_bound [of "523 / 1000"] unfolding c3 by (simp add: c5)
  then show ?thesis
    by linarith
qed

lemma sin_above_half: "1 / 2 < sin (53 / 100 :: real)"
proof -
  have c3: "(53 / 100 :: real) ^ 3 = 148877 / 1000000"
    by (simp add: power3_eq_cube)
  have "(53 / 100 :: real) ^ 5 = (53 / 100) ^ 3 * ((53 / 100) * (53 / 100))"
    by (simp add: eval_nat_numeral)
  then have c5: "(53 / 100 :: real) ^ 5 = 418195493 / 10000000000"
    unfolding c3 by simp
  have "\<bar>sin (53 / 100 :: real) - (53 / 100 - 148877 / 1000000 / 6)\<bar>
        \<le> 418195493 / 10000000000 / 120"
    using sin_cubic_bound [of "53 / 100"] unfolding c3 by (simp add: c5)
  then show ?thesis
    by linarith
qed

lemma pi_lower: "3138 / 1000 < pi"
proof (rule ccontr)
  assume "\<not> 3138 / 1000 < pi"
  then have le: "pi / 6 \<le> 523 / 1000"
    by simp
  have "sin (pi / 6) \<le> sin (523 / 1000 :: real)"
    using le pi_ge_two by (intro sin_monotone_2pi_le) simp_all
  then show False
    using sin_below_half by (simp add: sin_30)
qed

lemma pi_upper: "pi < 318 / 100"
proof (rule ccontr)
  assume "\<not> pi < 318 / 100"
  then have le: "53 / 100 \<le> pi / 6"
    by simp
  have "sin (53 / 100 :: real) \<le> sin (pi / 6)"
    using le pi_ge_two by (intro sin_monotone_2pi_le) simp_all
  then show False
    using sin_above_half by (simp add: sin_30)
qed

lemma cube_root_cube:
  fixes a :: real
  assumes "0 < a"
  shows "(a ^ 3) powr (1 / 3) = a"
proof -
  have "(a ^ 3) powr (1 / 3) = (a powr 3) powr (1 / 3)"
    using assms by (simp add: powr_numeral)
  also have "\<dots> = a powr 1"
    by (simp add: powr_powr)
  finally show ?thesis
    using assms by simp
qed

lemma pi_fourth_bounds: "pi ^ 4 < 103" "96 < pi ^ 4"
proof -
  have "(318 / 100 :: real) ^ 4 = (318 / 100) * (318 / 100) * ((318 / 100) * (318 / 100))"
    by (simp add: eval_nat_numeral)
  then have u: "(318 / 100 :: real) ^ 4 = 10226063376 / 100000000"
    by simp
  have "(3138 / 1000 :: real) ^ 4
        = (3138 / 1000) * (3138 / 1000) * ((3138 / 1000) * (3138 / 1000))"
    by (simp add: eval_nat_numeral)
  then have l: "(3138 / 1000 :: real) ^ 4 = 96964275537936 / 1000000000000"
    by simp
  have "pi ^ 4 < (318 / 100) ^ 4"
    using pi_upper by (intro power_strict_mono) simp_all
  then show "pi ^ 4 < 103"
    unfolding u by linarith
  have "(3138 / 1000) ^ 4 < pi ^ 4"
    using pi_lower by (intro power_strict_mono) simp_all
  then show "96 < pi ^ 4"
    unfolding l by linarith
qed

lemma first_guess_bounds:
  "17 / 4 * pi < (8000 / pi) powr (1 / 3)" "(8000 / pi) powr (1 / 3) \<le> 21 / 4 * pi"
proof -
  have c: "(17 / 4 :: real) ^ 3 = 4913 / 64" "(21 / 4 :: real) ^ 3 = 9261 / 64"
    by (simp_all add: power3_eq_cube)
  have "(17 / 4 * pi) ^ 3 * pi = (17 / 4) ^ 3 * pi ^ 4"
    by (simp add: power_mult_distrib eval_nat_numeral)
  also have "\<dots> < 8000"
    unfolding c using pi_fourth_bounds(1) by linarith
  finally have "(17 / 4 * pi) ^ 3 < 8000 / pi"
    by (simp add: pos_less_divide_eq)
  then have "((17 / 4 * pi) ^ 3) powr (1 / 3) < (8000 / pi) powr (1 / 3)"
    by (intro powr_less_mono2) simp_all
  moreover have "((17 / 4 * pi) ^ 3) powr (1 / 3) = 17 / 4 * pi"
    by (rule cube_root_cube) simp
  ultimately show "17 / 4 * pi < (8000 / pi) powr (1 / 3)"
    by simp
  have "8000 < (21 / 4) ^ 3 * pi ^ 4"
    unfolding c using pi_fourth_bounds(2) by linarith
  also have "\<dots> = (21 / 4 * pi) ^ 3 * pi"
    by (simp add: power_mult_distrib eval_nat_numeral)
  finally have "8000 / pi \<le> (21 / 4 * pi) ^ 3"
    by (simp add: pos_divide_le_eq)
  then have "(8000 / pi) powr (1 / 3) \<le> ((21 / 4 * pi) ^ 3) powr (1 / 3)"
    by (intro powr_mono2) simp_all
  moreover have "((21 / 4 * pi) ^ 3) powr (1 / 3) = 21 / 4 * pi"
    by (rule cube_root_cube) simp
  ultimately show "(8000 / pi) powr (1 / 3) \<le> 21 / 4 * pi"
    by simp
qed

lemma spec_width_example: "spec_width (1 / 1000) 1 1 = 21 / 4 * pi / sin 1"
proof -
  have "17 / 4 < (8000 / pi) powr (1 / 3) / pi"
    using first_guess_bounds(1) by (simp add: pos_less_divide_eq)
  then have "4 < (8000 / pi) powr (1 / 3) / pi - 1 / 4"
    by linarith
  moreover have "(8000 / pi) powr (1 / 3) / pi \<le> 21 / 4"
    using first_guess_bounds(2) by (simp add: pos_divide_le_eq)
  then have "(8000 / pi) powr (1 / 3) / pi - 1 / 4 \<le> 5"
    by linarith
  ultimately have "\<lceil>(8000 / pi) powr (1 / 3) / pi - 1 / 4\<rceil> = 5"
    by (simp add: ceiling_eq_iff)
  then show ?thesis
    by (simp add: spec_width_def Let_def)
qed

lemma spec_width_example_bounds:
  "39 / 2 < spec_width (1 / 1000) 1 1" "spec_width (1 / 1000) 1 1 < 41 / 2"
proof -
  have s: "0 < sin (1::real)"
    using sin_one_bounds(1) by simp
  have "39 / 2 * sin (1::real) < 21 / 4 * pi"
    using sin_one_bounds(2) pi_lower by linarith
  then show "39 / 2 < spec_width (1 / 1000) 1 1"
    unfolding spec_width_example using s by (simp add: pos_less_divide_eq)
  have "21 / 4 * pi < 41 / 2 * sin (1::real)"
    using sin_one_bounds(1) pi_upper by linarith
  then show "spec_width (1 / 1000) 1 1 < 41 / 2"
    unfolding spec_width_example using s by (simp add: pos_divide_less_eq)
qed

text \<open>
  The example of the specification: \<open>guess_psf_width(error=1e-3, k=1, alpha=1)\<close>
  is \<open>41\<close> (\<open>n = 5\<close>, and the width \<open>5.25 \<pi> / sin 1\<close> lies between \<open>19.5\<close>
  and \<open>20.5\<close>), and \<open>error = 1e-4\<close> gives at least as much.
\<close>

theorem guess_psf_width_rounded_witness:
  "guess_psf_width (1 / 1000) 1 1 True = Inr (PyInt 41)
   \<and> odd (41 :: int)
   \<and> (\<exists>r'. guess_psf_width (1 / 10000) 1 1 True = Inr (PyInt (2 * r' + 1)) \<and> 20 \<le> r')"
proof -
  have "(1 :: real) < pi / 2"
    using pi_lower by simp
  then obtain r where
    g: "guess_psf_width (1 / 1000) 1 1 True = Inr (PyInt (2 * r + 1))" and
    n: "\<bar>of_int r - spec_width (1 / 1000) 1 1\<bar> \<le> 1 / 2" and
    m: "\<forall>err'. 0 < err' \<and> err' \<le> 1 / 1000 \<longrightarrow>
          (\<exists>r'. guess_psf_width err' 1 1 True = Inr (PyInt (2 * r' + 1)) \<and> r \<le> r')"
    using guess_psf_width_rounded [of "1 / 1000" 1 1] by auto
  have r: "r = 20"
    using n spec_width_example_bounds by (intro nearest_unique [of r]) simp_all
  have "\<exists>r'. guess_psf_width (1 / 10000) 1 1 True = Inr (PyInt (2 * r' + 1)) \<and> r \<le> r'"
    using m [rule_format, of "1 / 10000"] by simp
  with g r show ?thesis
    by simp
qed

section \<open>The edge kernels at the surface (C3)\<close>

lemma erf_zero: "erf 0 = 0"
  by (simp add: erf_def)

lemma sqrt3_bounds: "17303 / 10000 < sqrt 3" "sqrt 3 < 17321 / 10000"
proof -
  show "17303 / 10000 < sqrt 3"
    by (rule real_less_rsqrt) (simp add: power2_eq_square)
  show "sqrt 3 < 17321 / 10000"
    by (rule real_less_lsqrt) (simp_all add: power2_eq_square)
qed

lemma cubic_at_surface:
  "sphere_constrained_cubic 0 a alpha =
     1 / 2 - 3 / 4 * (a * 0.5 / sqrt 3 * (1 - 0.6 * sqrt 3 * alpha) / (0.15 + a * a))"
proof -
  define b where "b = a * 0.5 / sqrt 3 * (1 - 0.6 * sqrt 3 * alpha) / (0.15 + a * a)"
  have clip: "np_clip 0 (- 0.5 * sqrt 3) (0.5 * sqrt 3) = 0"
    by (simp add: np_clip_def)
  have "sphere_constrained_cubic 0 a alpha
        = b * (0 - 0.5 * sqrt 3) * (0 + 0.5 * sqrt 3) - (0 - 0.5 * sqrt 3) / sqrt 3"
    unfolding sphere_constrained_cubic_def Let_def clip b_def by simp
  also have "\<dots> = - (b * (0.25 * (sqrt 3 * sqrt 3))) + 0.5"
    by (simp add: algebra_simps)
  also have "\<dots> = 1 / 2 - 3 / 4 * b"
    by simp
  finally show ?thesis
    by (simp add: b_def)
qed

lemma cubic_coeff_bounds:
  "0 < 0.5 / sqrt 3 * (1 - 0.6 * sqrt 3 * 0.84990)"
  "0.5 / sqrt 3 * (1 - 0.6 * sqrt 3 * 0.84990) < 34 / 1000"
proof -
  have eq: "0.5 / sqrt 3 * (1 - 0.6 * sqrt 3 * 0.84990) = 0.5 / sqrt 3 - 0.254970"
    by (simp add: field_simps)
  have lo: "0.5 / (17321 / 10000) < 0.5 / sqrt 3"
    using sqrt3_bounds by (intro divide_strict_left_mono) simp_all
  have hi: "0.5 / sqrt 3 < 0.5 / (17303 / 10000)"
    using sqrt3_bounds by (intro divide_strict_left_mono) simp_all
  show "0 < 0.5 / sqrt 3 * (1 - 0.6 * sqrt 3 * 0.84990)"
    unfolding eq using lo by simp
  show "0.5 / sqrt 3 * (1 - 0.6 * sqrt 3 * 0.84990) < 34 / 1000"
    unfolding eq using hi by simp
qed

lemma ratio_bound: "\<bar>a\<bar> / (0.15 + a * a) \<le> (4 / 3 :: real)"
proof -
  have "0 \<le> (\<bar>a\<bar> - 3 / 8)\<^sup>2"
    by simp
  then have "0 \<le> a * a - 3 / 4 * \<bar>a\<bar> + 9 / 64"
    by (simp add: power2_eq_square algebra_simps)
  then have "\<bar>a\<bar> \<le> 4 / 3 * (0.15 + a * a)"
    by simp
  moreover have "0 < 0.15 + a * a"
    by (simp add: add_pos_nonneg)
  ultimately show ?thesis
    by (simp add: pos_divide_le_eq)
qed

lemma cubic_surface_tolerance:
  "\<bar>sphere_constrained_cubic 0 a 0.84990 - 1 / 2\<bar> \<le> 35 / 1000"
proof -
  define c where "c = 0.5 / sqrt 3 * (1 - 0.6 * sqrt 3 * 0.84990)"
  define q where "q = \<bar>a\<bar> / (0.15 + a * a)"
  have c: "0 < c" "c < 34 / 1000"
    unfolding c_def using cubic_coeff_bounds by simp_all
  have q: "0 \<le> q" "q \<le> 4 / 3"
    unfolding q_def using ratio_bound [of a] by (simp_all add: add_nonneg_nonneg)
  have "sphere_constrained_cubic 0 a 0.84990 - 1 / 2 = - (3 / 4 * (c * (a / (0.15 + a * a))))"
    unfolding cubic_at_surface c_def by simp
  then have "\<bar>sphere_constrained_cubic 0 a 0.84990 - 1 / 2\<bar> = 3 / 4 * (c * q)"
    using c(1) by (simp add: q_def abs_mult abs_divide add_nonneg_nonneg)
  moreover have "c * q \<le> 34 / 1000 * (4 / 3)"
    using c q by (intro mult_mono) simp_all
  ultimately show ?thesis
    by linarith
qed


lemma triangle_below:
  assumes "0 < alpha" "- alpha < dr" "dr < 0"
  shows "sphere_triangle_cdf dr a alpha = 1 - (dr / alpha + 1)\<^sup>2 / 2"
proof -
  define u where "u = dr / alpha"
  have u: "- 1 < u" "u < 0"
    using assms by (simp_all add: u_def pos_less_divide_eq pos_divide_less_eq)
  have e: "(dr + alpha)\<^sup>2 / (2 * alpha\<^sup>2) = (u + 1)\<^sup>2 / 2"
    using assms(1) by (simp add: u_def power2_eq_square field_simps)
  have "0 \<le> (u + 1)\<^sup>2 / 2"
    by simp
  moreover have "(u + 1)\<^sup>2 \<le> 1"
    using u by (simp add: power2_eq_square mult_le_one)
  ultimately have c: "np_clip ((u + 1)\<^sup>2 / 2) 0 1 = (u + 1)\<^sup>2 / 2"
    by (simp add: np_clip_def)
  show ?thesis
    using assms c unfolding sphere_triangle_cdf_def Let_def e
    by (simp add: py_bool_def u_def)
qed

lemma triangle_above:
  assumes "0 < alpha" "0 < dr" "dr < alpha"
  shows "sphere_triangle_cdf dr a alpha = (1 - dr / alpha)\<^sup>2 / 2"
proof -
  define u where "u = dr / alpha"
  have u: "0 < u" "u < 1"
    using assms by (simp_all add: u_def)
  have e: "(alpha - dr)\<^sup>2 / (2 * alpha\<^sup>2) = (1 - u)\<^sup>2 / 2"
    using assms(1) by (simp add: u_def power2_eq_square field_simps)
  have "0 \<le> (1 - u)\<^sup>2 / 2"
    by simp
  moreover have "(1 - u)\<^sup>2 \<le> 1"
    using u by (simp add: power2_eq_square mult_le_one)
  ultimately have c: "np_clip (1 - (1 - u)\<^sup>2 / 2) 0 1 = 1 - (1 - u)\<^sup>2 / 2"
    by (simp add: np_clip_def)
  show ?thesis
    using assms c unfolding sphere_triangle_cdf_def Let_def e
    by (simp add: py_bool_def u_def)
qed

lemma triangle_near_surface:
  assumes "0 < alpha" "0 < \<bar>dr\<bar>" "\<bar>dr\<bar> < alpha"
  shows "\<bar>sphere_triangle_cdf dr a alpha - 1 / 2\<bar> \<le> \<bar>dr\<bar> / alpha"
proof -
  define u where "u = dr / alpha"
  have au: "\<bar>dr\<bar> / alpha = \<bar>u\<bar>"
    using assms(1) by (simp add: u_def)
  show ?thesis
  proof (cases "dr < 0")
    case True
    then have v: "sphere_triangle_cdf dr a alpha = 1 - (u + 1)\<^sup>2 / 2"
      unfolding u_def using assms by (intro triangle_below) simp_all
    have u: "- 1 < u" "u < 0"
      using assms True by (simp_all add: u_def pos_less_divide_eq pos_divide_less_eq)
    have "u * u \<le> - u"
    proof -
      have "u * (u + 1) \<le> 0"
        using u by (intro mult_nonpos_nonneg) simp_all
      then show ?thesis
        by (simp add: algebra_simps)
    qed
    moreover have "0 \<le> u * u"
      by simp
    moreover have "1 - (u + 1)\<^sup>2 / 2 - 1 / 2 = - u - u * u / 2"
      by (simp add: power2_eq_square field_simps)
    ultimately show ?thesis
      unfolding v au using u by linarith
  next
    case False
    with assms have p: "0 < dr"
      by simp
    then have v: "sphere_triangle_cdf dr a alpha = (1 - u)\<^sup>2 / 2"
      unfolding u_def using assms by (intro triangle_above) simp_all
    have u: "0 < u" "u < 1"
      using assms p by (simp_all add: u_def)
    have "u * u \<le> u"
    proof -
      have "u * (1 - u) \<ge> 0"
        using u by (intro mult_nonneg_nonneg) simp_all
      then show ?thesis
        by (simp add: algebra_simps)
    qed
    moreover have "0 \<le> u * u"
      by simp
    moreover have "(1 - u)\<^sup>2 / 2 - 1 / 2 = - u + u * u / 2"
      by (simp add: power2_eq_square field_simps)
    ultimately show ?thesis
      unfolding v au using u by linarith
  qed
qed

text \<open>
  At \<open>dr = 0\<close> the test \<open>dr < 0\<close> of the \<open>bool\<close> kernel fails, so the kernel
  is \<open>0\<close> there and not \<open>1\<close>; and for the radius \<open>0\<close> the \<open>exact-gaussian\<close>
  kernel is \<open>0\<close> at \<open>dr = 0\<close>, not near \<open>0.5\<close>.
\<close>

theorem kernels_at_surface_counterexample:
  "sphere_bool 0 1 0 = 0 \<and> sphere_bool 0 1 0 \<noteq> 1
   \<and> sphere_analytical_gaussian 0 0 0.27595 = 0"
  by (simp add: sphere_bool_def py_bool_def sphere_analytical_gaussian_def erf_zero)

text \<open>
  C3, amended. At \<open>dr = 0\<close> and the default \<open>alpha\<close>, for every radius \<open>a\<close>:
  \<open>lerp\<close> and \<open>logistic\<close> are exactly \<open>0.5\<close>; \<open>constrained-cubic\<close> is within
  \<open>0.035\<close> of \<open>0.5\<close>; \<open>bool\<close> is exactly \<open>0\<close>.
  The Gaussian kernels depend on the radius: \<open>exact-gaussian\<close> is
  \<open>erf(2a/(\<alpha>\<surd>2))/2 - \<surd>(0.5/\<pi>) \<cdot> \<alpha>/(a + 1e-10) \<cdot> (1 - exp(-0.5 (2a)\<^sup>2/\<alpha>\<^sup>2))\<close>,
  which is \<open>0\<close> at \<open>a = 0\<close>, and \<open>exact-gaussian-trim\<close> (cut \<open>1.6\<close>) is
  \<open>0.5 - \<surd>(0.5/\<pi>) \<cdot> \<alpha>/(a + 1e-10)\<close>. The \<open>triangle\<close> kernel is within
  \<open>|dr|/\<alpha>\<close> of \<open>0.5\<close> for \<open>0 < |dr| < \<alpha>\<close>; nothing is stated of it at
  \<open>dr = 0\<close> itself.
\<close>

theorem kernels_at_surface:
  "sphere_lerp 0 a 0.4539 = 1 / 2
   \<and> sphere_logistic 0 a 6.5 = 1 / 2
   \<and> \<bar>sphere_constrained_cubic 0 a 0.84990 - 1 / 2\<bar> \<le> 35 / 1000
   \<and> sphere_bool 0 a 0 = 0
   \<and> (0 < \<bar>dr\<bar> \<and> \<bar>dr\<bar> < 0.6618 \<longrightarrow>
        \<bar>sphere_triangle_cdf dr a 0.6618 - 1 / 2\<bar> \<le> \<bar>dr\<bar> / 0.6618)
   \<and> sphere_analytical_gaussian 0 a 0.27595 =
         erf (2 * a / (0.27595 * sqrt 2)) / 2
         - sqrt (0.5 / pi) * (0.27595 / (a + 1 / 10 ^ 10))
           * (1 - exp (- 0.5 * (2 * a)\<^sup>2 / 0.27595\<^sup>2))
   \<and> sphere_analytical_gaussian 0 0 0.27595 = 0
   \<and> gaussian_trim_elem a 0.27595 1.6 0 = 1 / 2 - sqrt (0.5 / pi) * (0.27595 / (a + 1 / 10 ^ 10))"
proof -
  have "sphere_lerp 0 a 0.4539 = 1 / 2"
    by (simp add: sphere_lerp_def np_clip_def)
  moreover have "sphere_logistic 0 a 6.5 = 1 / 2"
    by (simp add: sphere_logistic_def)
  moreover have "sphere_bool 0 a 0 = 0"
    by (simp add: sphere_bool_def py_bool_def)
  moreover have "0 < \<bar>dr\<bar> \<and> \<bar>dr\<bar> < 0.6618 \<longrightarrow>
        \<bar>sphere_triangle_cdf dr a 0.6618 - 1 / 2\<bar> \<le> \<bar>dr\<bar> / 0.6618"
    using triangle_near_surface [of "0.6618" dr a] by simp
  moreover have "sphere_analytical_gaussian 0 a 0.27595 =
         erf (2 * a / (0.27595 * sqrt 2)) / 2
         - sqrt (0.5 / pi) * (0.27595 / (a + 1 / 10 ^ 10))
           * (1 - exp (- 0.5 * (2 * a)\<^sup>2 / 0.27595\<^sup>2))"
    by (simp add: sphere_analytical_gaussian_def erf_zero Let_def)
  moreover have "sphere_analytical_gaussian 0 0 0.27595 = 0"
    by (simp add: sphere_analytical_gaussian_def erf_zero)
  moreover have "gaussian_trim_elem a 0.27595 1.6 0
                 = 1 / 2 - sqrt (0.5 / pi) * (0.27595 / (a + 1 / 10 ^ 10))"
    by (simp add: gaussian_trim_elem_def erf_zero Let_def)
  ultimately show ?thesis
    using cubic_surface_tolerance [of a] by blast
qed

text \<open>
  At the radius \<open>5\<close>, and one thousandth of a pixel outside the surface for the
  \<open>triangle\<close> kernel.
\<close>

theorem kernels_at_surface_witness:
  "sphere_lerp 0 5 0.4539 = 1 / 2
   \<and> sphere_logistic 0 5 6.5 = 1 / 2
   \<and> \<bar>sphere_constrained_cubic 0 5 0.84990 - 1 / 2\<bar> \<le> 35 / 1000
   \<and> sphere_bool 0 5 0 = 0
   \<and> \<bar>sphere_triangle_cdf (1 / 1000) 5 0.6618 - 1 / 2\<bar> \<le> 10 / 6618
   \<and> sphere_analytical_gaussian 0 0 0.27595 = 0"
  using kernels_at_surface [of 5 "1 / 1000"] by simp

section \<open>The fast Gaussian kernel is the trimmed one (C10)\<close>

lemma fast_body_raises:
  "run_body (fast_params @ assigned fast_body) objs_globals fast_params fast_body
   = Some UnboundLocalError"
  by (simp add: fast_params_def fast_body_def objs_globals_def)

lemma fast_def_raises:
  "sphere_analytical_gaussian_fast_def c_kernel dr a alpha cutv = Inl UnboundLocalError"
  by (simp add: sphere_analytical_gaussian_fast_def_def fast_body_raises)

text \<open>
  C10. The function that \<open>def\<close> creates raises on every input: its third
  statement reads the local name \<open>r\<close> before anything is bound to it. So the
  self-test at load time raises, the \<open>except\<close> clause rebinds
  \<open>sphere_analytical_gaussian_fast\<close> to \<open>sphere_analytical_gaussian_trim\<close>, and
  the drawing methods \<open>exact-gaussian-fast\<close> and \<open>exact-gaussian-trim\<close> are the
  same function, whatever the inlined C code would have computed.
\<close>

theorem gaussian_fast_is_trim:
  "sphere_analytical_gaussian_fast_def c_kernel dr a alpha cutv = Inl UnboundLocalError
   \<and> sphere_analytical_gaussian_fast c_kernel dr a alpha cutv
       = Inr (sphere_analytical_gaussian_trim dr a alpha cutv)
   \<and> sphere_functions c_kernel ''exact-gaussian-fast''
       = sphere_functions c_kernel ''exact-gaussian-trim''"
  by (simp add: fast_def_raises sphere_analytical_gaussian_fast_def sphere_functions_def)

section \<open>LMParticles clips its updates (C9)\<close>

lemma mask_clip_length:
  "mask_clip msk lo hi values = Inr values' \<Longrightarrow> length values' = length values \<and> length msk = length values"
  by (auto simp: mask_clip_def split: if_splits)

lemma mask_clip_nth:
  assumes "mask_clip msk lo hi values = Inr values'" and "i < length values"
  shows "values' ! i = (if msk ! i then np_clip (values ! i) lo hi else values ! i)"
  using assms by (auto simp: mask_clip_def split: if_splits)

lemma np_clip_range: "lo \<le> hi \<Longrightarrow> lo \<le> np_clip x lo hi \<and> np_clip x lo hi \<le> hi"
  by (auto simp: np_clip_def)

lemma zyx_distinct: "a < 3 \<Longrightarrow> b < 3 \<Longrightarrow> ''zyx'' ! a = ''zyx'' ! b \<Longrightarrow> a = b"
  by (auto simp: less_Suc_eq numeral_3_eq_3)

lemma lm_particles_init_fields:
  assumes "lm_particles_init rad_nms pos_nms names = Inr lm"
  shows "param_names lm = names"
    and "is_rad lm = map (\<lambda>x. x \<in> set rad_nms) names"
    and "is_pos lm = map (\<lambda>a. map (\<lambda>x. x \<in> set pos_nms \<and> last x = ''zyx'' ! a) names) [0, 1, 2]"
    and "MINRAD lm = 1 / 10 ^ 3" and "MAXRAD lm = 2 * 10 ^ 2" and "MINDIST lm = 1 / 10 ^ 3"
  using assms
  by (auto simp: lm_particles_init_def pos_mask_def split: if_splits sum.splits)

lemma clip_values_chain:
  assumes "clip_values lm pd ishape values = Inr applied"
  obtains v0 v1 v2 where
    "mask_clip (is_rad lm) (MINRAD lm) (MAXRAD lm) values = Inr v0"
    "mask_clip (is_pos lm ! 0) (MINDIST lm - of_int (pd ! 0))
        (of_int (ishape ! 0) + of_int (pd ! 0) - MINDIST lm) v0 = Inr v1"
    "mask_clip (is_pos lm ! 1) (MINDIST lm - of_int (pd ! 1))
        (of_int (ishape ! 1) + of_int (pd ! 1) - MINDIST lm) v1 = Inr v2"
    "mask_clip (is_pos lm ! 2) (MINDIST lm - of_int (pd ! 2))
        (of_int (ishape ! 2) + of_int (pd ! 2) - MINDIST lm) v2 = Inr applied"
  using assms
  by (auto simp: clip_values_def split: sum.splits if_splits)


lemma clip_values_length:
  assumes init: "lm_particles_init rad_nms pos_nms names = Inr lm"
    and clip: "clip_values lm pd ishape values = Inr applied"
  shows "length values = length names" and "length applied = length names"
proof -
  note f = lm_particles_init_fields [OF init]
  from clip obtain v0 v1 v2 where
    c0: "mask_clip (is_rad lm) (MINRAD lm) (MAXRAD lm) values = Inr v0" and
    c1: "mask_clip (is_pos lm ! 0) (MINDIST lm - of_int (pd ! 0))
        (of_int (ishape ! 0) + of_int (pd ! 0) - MINDIST lm) v0 = Inr v1" and
    c2: "mask_clip (is_pos lm ! 1) (MINDIST lm - of_int (pd ! 1))
        (of_int (ishape ! 1) + of_int (pd ! 1) - MINDIST lm) v1 = Inr v2" and
    c3: "mask_clip (is_pos lm ! 2) (MINDIST lm - of_int (pd ! 2))
        (of_int (ishape ! 2) + of_int (pd ! 2) - MINDIST lm) v2 = Inr applied"
    by (rule clip_values_chain)
  show "length values = length names"
    using mask_clip_length [OF c0] by (simp add: f)
  then show "length applied = length names"
    using mask_clip_length [OF c0] mask_clip_length [OF c1] mask_clip_length [OF c2]
      mask_clip_length [OF c3] by simp
qed

lemma clip_values_nth:
  assumes init: "lm_particles_init rad_nms pos_nms names = Inr lm"
    and clip: "clip_values lm pd ishape values = Inr applied"
    and i: "i < length names"
  defines "lo a \<equiv> 1 / 10 ^ 3 - real_of_int (pd ! a)"
    and "hi a \<equiv> real_of_int (ishape ! a) + real_of_int (pd ! a) - 1 / 10 ^ 3"
    and "on a \<equiv> names ! i \<in> set pos_nms \<and> last (names ! i) = ''zyx'' ! a"
  shows "names ! i \<in> set rad_nms \<Longrightarrow> \<not> on 0 \<Longrightarrow> \<not> on 1 \<Longrightarrow> \<not> on 2 \<Longrightarrow>
           applied ! i = np_clip (values ! i) (1 / 10 ^ 3) (2 * 10 ^ 2)"
    and "on 0 \<Longrightarrow> \<not> on 1 \<Longrightarrow> \<not> on 2 \<Longrightarrow> \<exists>x. applied ! i = np_clip x (lo 0) (hi 0)"
    and "on 1 \<Longrightarrow> \<not> on 2 \<Longrightarrow> \<exists>x. applied ! i = np_clip x (lo 1) (hi 1)"
    and "on 2 \<Longrightarrow> \<exists>x. applied ! i = np_clip x (lo 2) (hi 2)"
proof -
  note f = lm_particles_init_fields [OF init]
  from clip obtain v0 v1 v2 where
    c0: "mask_clip (is_rad lm) (MINRAD lm) (MAXRAD lm) values = Inr v0" and
    c1: "mask_clip (is_pos lm ! 0) (MINDIST lm - of_int (pd ! 0))
        (of_int (ishape ! 0) + of_int (pd ! 0) - MINDIST lm) v0 = Inr v1" and
    c2: "mask_clip (is_pos lm ! 1) (MINDIST lm - of_int (pd ! 1))
        (of_int (ishape ! 1) + of_int (pd ! 1) - MINDIST lm) v1 = Inr v2" and
    c3: "mask_clip (is_pos lm ! 2) (MINDIST lm - of_int (pd ! 2))
        (of_int (ishape ! 2) + of_int (pd ! 2) - MINDIST lm) v2 = Inr applied"
    by (rule clip_values_chain)
  have l0: "length v0 = length values" "length values = length names"
    using mask_clip_length [OF c0] by (simp_all add: f)
  have l1: "length v1 = length names"
    using mask_clip_length [OF c1] l0 by simp
  have l2: "length v2 = length names"
    using mask_clip_length [OF c2] l1 by simp
  have l3: "length applied = length names"
    using mask_clip_length [OF c3] l2 by simp
  have n0: "v0 ! i = (if names ! i \<in> set rad_nms then np_clip (values ! i) (1 / 10 ^ 3) (2 * 10 ^ 2) else values ! i)"
    using mask_clip_nth [OF c0, of i] i l0 by (simp add: f)
  have n1: "v1 ! i = (if on 0 then np_clip (v0 ! i) (lo 0) (hi 0) else v0 ! i)"
    using mask_clip_nth [OF c1, of i] i l0 by (simp add: f on_def lo_def hi_def)
  have n2: "v2 ! i = (if on 1 then np_clip (v1 ! i) (lo 1) (hi 1) else v1 ! i)"
    using mask_clip_nth [OF c2, of i] i l1 by (simp add: f on_def lo_def hi_def)
  have n3: "applied ! i = (if on 2 then np_clip (v2 ! i) (lo 2) (hi 2) else v2 ! i)"
    using mask_clip_nth [OF c3, of i] i l2 by (simp add: f on_def lo_def hi_def)
  show "names ! i \<in> set rad_nms \<Longrightarrow> \<not> on 0 \<Longrightarrow> \<not> on 1 \<Longrightarrow> \<not> on 2 \<Longrightarrow>
           applied ! i = np_clip (values ! i) (1 / 10 ^ 3) (2 * 10 ^ 2)"
    using n0 n1 n2 n3 by simp
  show "on 0 \<Longrightarrow> \<not> on 1 \<Longrightarrow> \<not> on 2 \<Longrightarrow> \<exists>x. applied ! i = np_clip x (lo 0) (hi 0)"
    using n1 n2 n3 by auto
  show "on 1 \<Longrightarrow> \<not> on 2 \<Longrightarrow> \<exists>x. applied ! i = np_clip x (lo 1) (hi 1)"
    using n2 n3 by auto
  show "on 2 \<Longrightarrow> \<exists>x. applied ! i = np_clip x (lo 2) (hi 2)"
    using n3 by auto
qed

text \<open>
  C9. Let the masks be those \<open>__init__\<close> computes from the state's radius and
  position names (no name being both), and let every padded axis hold at least
  one pixel. Whenever \<open>update_function\<close> returns, the values it passed to the
  state are the proposed ones clipped: every radius parameter is
  \<open>np.clip(value, 1e-3, 200)\<close>, hence in \<open>[1e-3, 200]\<close>, and every position
  coordinate of axis \<open>a\<close> lies between \<open>1e-3 - pad[a]\<close> and
  \<open>ishape[a] + pad[a] - 1e-3\<close>.
\<close>

theorem LMParticles_update_function_clips:
  assumes init: "lm_particles_init rad_nms pos_nms names = Inr lm"
    and disj: "set rad_nms \<inter> set pos_nms = {}"
    and upd: "LMParticles_update_function S lm st values = Inr (st', applied, err)"
    and ext: "\<forall>a<3. 0 < st_ishape S st ! a + 2 * st_pad S st ! a"
  shows "st_update S st names applied = Inr st' \<and> length applied = length names
     \<and> (\<forall>i<length names.
          (names ! i \<in> set rad_nms \<longrightarrow>
             applied ! i = np_clip (values ! i) (1 / 10 ^ 3) (2 * 10 ^ 2)
             \<and> 1 / 10 ^ 3 \<le> applied ! i \<and> applied ! i \<le> 200)
        \<and> (\<forall>a<3. names ! i \<in> set pos_nms \<and> last (names ! i) = ''zyx'' ! a \<longrightarrow>
               1 / 10 ^ 3 - real_of_int (st_pad S st ! a) \<le> applied ! i
               \<and> applied ! i \<le> real_of_int (st_ishape S st ! a) + real_of_int (st_pad S st ! a) - 1 / 10 ^ 3))"
proof -
  define pd where "pd = st_pad S st"
  define ishape where "ishape = st_ishape S st"
  from upd have clip: "clip_values lm pd ishape values = Inr applied"
    and app: "st_update S st (param_names lm) applied = Inr st'"
    unfolding LMParticles_update_function_def pd_def ishape_def
    by (auto split: sum.splits if_splits)
  note f = lm_particles_init_fields [OF init]
  have rng: "1 / 10 ^ 3 - real_of_int (pd ! a) \<le> real_of_int (ishape ! a) + real_of_int (pd ! a) - 1 / 10 ^ 3"
    if "a < 3" for a
  proof -
    have "1 \<le> ishape ! a + 2 * pd ! a"
      using ext [rule_format, OF that] by (simp add: pd_def ishape_def)
    then have "1 \<le> real_of_int (ishape ! a) + 2 * real_of_int (pd ! a)"
      by (metis of_int_1 of_int_add of_int_le_iff of_int_mult of_int_numeral)
    then show ?thesis by simp
  qed
  have main: "(names ! i \<in> set rad_nms \<longrightarrow>
             applied ! i = np_clip (values ! i) (1 / 10 ^ 3) (2 * 10 ^ 2)
             \<and> 1 / 10 ^ 3 \<le> applied ! i \<and> applied ! i \<le> 200)
        \<and> (\<forall>a<3. names ! i \<in> set pos_nms \<and> last (names ! i) = ''zyx'' ! a \<longrightarrow>
               1 / 10 ^ 3 - real_of_int (pd ! a) \<le> applied ! i
               \<and> applied ! i \<le> real_of_int (ishape ! a) + real_of_int (pd ! a) - 1 / 10 ^ 3)"
    if i: "i < length names" for i
  proof (intro conjI impI allI)
    assume r: "names ! i \<in> set rad_nms"
    then have "names ! i \<notin> set pos_nms"
      using disj by auto
    then show e: "applied ! i = np_clip (values ! i) (1 / 10 ^ 3) (2 * 10 ^ 2)"
      using clip_values_nth(1) [OF init clip i] r by simp
    show "1 / 10 ^ 3 \<le> applied ! i" "applied ! i \<le> 200"
      unfolding e using np_clip_range [of "1 / 10 ^ 3" "2 * 10 ^ 2" "values ! i"] by simp_all
  next
    fix a :: nat
    assume a: "a < 3" and p: "names ! i \<in> set pos_nms \<and> last (names ! i) = ''zyx'' ! a"
    have other: "\<not> (names ! i \<in> set pos_nms \<and> last (names ! i) = ''zyx'' ! b)" if "b < 3" "b \<noteq> a" for b
      using zyx_distinct [OF a that(1)] p that(2) by auto
    from a have "a = 0 \<or> a = 1 \<or> a = 2" by auto
    then have "\<exists>x. applied ! i = np_clip x (1 / 10 ^ 3 - real_of_int (pd ! a))
                  (real_of_int (ishape ! a) + real_of_int (pd ! a) - 1 / 10 ^ 3)"
    proof (elim disjE)
      assume "a = 0"
      then show ?thesis
        using clip_values_nth(2) [OF init clip i] p other [of 1] other [of 2] by simp
    next
      assume "a = 1"
      then show ?thesis
        using clip_values_nth(3) [OF init clip i] p other [of 2] by simp
    next
      assume "a = 2"
      then show ?thesis
        using clip_values_nth(4) [OF init clip i] p by simp
    qed
    then obtain x where x: "applied ! i = np_clip x (1 / 10 ^ 3 - real_of_int (pd ! a))
                  (real_of_int (ishape ! a) + real_of_int (pd ! a) - 1 / 10 ^ 3)" ..
    show "1 / 10 ^ 3 - real_of_int (pd ! a) \<le> applied ! i"
      unfolding x using np_clip_range [OF rng [OF a]] by simp
    show "applied ! i \<le> real_of_int (ishape ! a) + real_of_int (pd ! a) - 1 / 10 ^ 3"
      unfolding x using np_clip_range [OF rng [OF a]] by simp
  qed
  have "st_update S st names applied = Inr st'"
    using app by (simp add: f)
  moreover have "length applied = length names"
    by (rule clip_values_length(2) [OF init clip])
  moreover have "\<forall>i<length names.
          (names ! i \<in> set rad_nms \<longrightarrow>
             applied ! i = np_clip (values ! i) (1 / 10 ^ 3) (2 * 10 ^ 2)
             \<and> 1 / 10 ^ 3 \<le> applied ! i \<and> applied ! i \<le> 200)
        \<and> (\<forall>a<3. names ! i \<in> set pos_nms \<and> last (names ! i) = ''zyx'' ! a \<longrightarrow>
               1 / 10 ^ 3 - real_of_int (pd ! a) \<le> applied ! i
               \<and> applied ! i \<le> real_of_int (ishape ! a) + real_of_int (pd ! a) - 1 / 10 ^ 3)"
    using main by blast
  ultimately show ?thesis
    unfolding pd_def ishape_def by (iprover intro: conjI)
qed


text \<open>
  One particle in a \<open>10\<close>-pixel cube padded by \<open>2\<close>: the proposal
  \<open>(x, y, z, a) = (100, -50, 5, 1000)\<close> is applied as
  \<open>(11.999, -1.999, 5, 200)\<close>.
\<close>

theorem LMParticles_update_function_clips_witness:
  "lm_particles_init ex_rad_nms ex_pos_nms ex_names = Inr ex_lm
   \<and> set ex_rad_nms \<inter> set ex_pos_nms = {}
   \<and> LMParticles_update_function ex_iface ex_lm [] ex_values = Inr (ex_applied, ex_applied, 0)
   \<and> st_update ex_iface [] ex_names ex_applied = Inr ex_applied
   \<and> length ex_applied = length ex_names
   \<and> ex_applied ! 3 = np_clip (ex_values ! 3) (1 / 10 ^ 3) (2 * 10 ^ 2)
   \<and> 1 / 10 ^ 3 \<le> ex_applied ! 3 \<and> ex_applied ! 3 \<le> 200
   \<and> 1 / 10 ^ 3 - real_of_int (st_pad ex_iface [] ! 2) \<le> ex_applied ! 0
   \<and> ex_applied ! 0
       \<le> real_of_int (st_ishape ex_iface [] ! 2) + real_of_int (st_pad ex_iface [] ! 2) - 1 / 10 ^ 3"
proof -
  have init: "lm_particles_init ex_rad_nms ex_pos_nms ex_names = Inr ex_lm"
    by (simp add: lm_particles_init_def pos_mask_def ex_rad_nms_def ex_pos_nms_def ex_names_def ex_lm_def)
  have disj: "set ex_rad_nms \<inter> set ex_pos_nms = {}"
    by (simp add: ex_rad_nms_def ex_pos_nms_def)
  have upd: "LMParticles_update_function ex_iface ex_lm [] ex_values = Inr (ex_applied, ex_applied, 0)"
    by (simp add: LMParticles_update_function_def clip_values_def mask_clip_def np_clip_def
          ex_iface_def ex_lm_def ex_values_def ex_applied_def)
  have ext: "\<forall>a<3. 0 < st_ishape ex_iface [] ! a + 2 * st_pad ex_iface [] ! a"
    by (simp add: ex_iface_def less_Suc_eq numeral_3_eq_3)
  note concl = LMParticles_update_function_clips [OF init disj upd ext]
  have rad: "ex_names ! 3 \<in> set ex_rad_nms"
    by (simp add: ex_names_def ex_rad_nms_def)
  have pos: "ex_names ! 0 \<in> set ex_pos_nms \<and> last (ex_names ! 0) = ''zyx'' ! 2"
    by (simp add: ex_names_def ex_pos_nms_def)
  have i3: "3 < length ex_names" and i0: "0 < length ex_names"
    by (simp_all add: ex_names_def)
  have a2: "(2::nat) < 3"
    by simp
  from concl i3 rad have c3: "ex_applied ! 3 = np_clip (ex_values ! 3) (1 / 10 ^ 3) (2 * 10 ^ 2)
      \<and> 1 / 10 ^ 3 \<le> ex_applied ! 3 \<and> ex_applied ! 3 \<le> 200"
    by blast
  from concl i0 a2 pos have c0: "1 / 10 ^ 3 - real_of_int (st_pad ex_iface [] ! 2) \<le> ex_applied ! 0
      \<and> ex_applied ! 0
       \<le> real_of_int (st_ishape ex_iface [] ! 2) + real_of_int (st_pad ex_iface [] ! 2) - 1 / 10 ^ 3"
    by blast
  show ?thesis
    using init disj upd concl c3 c0 by (iprover intro: conjI)
qed

section \<open>Facts about the engine\<close>

lemma find_best_step_pair: "find_best_step [a, b] = Inr (if b < a then 1 else 0)"
  by (simp add: find_best_step_def)

lemma check_update_J_frame:
  "check_update_J e = (e', b) \<Longrightarrow> e' = e\<lparr>J_update_counter := J_update_counter e + 1\<rparr>"
  by (auto simp: check_update_J_def Let_def)

lemma keeps_argumentD:
  "keeps_argument h \<Longrightarrow> h_update_function h w p = Inr (w', p', er) \<Longrightarrow> p' = p"
  unfolding keeps_argument_def by blast

lemma update_eig_J_frame:
  assumes "update_eig_J h e = Inr e'"
  shows "error e' = error e \<and> damping e' = damping e
       \<and> increase_damp_factor e' = increase_damp_factor e
       \<and> decrease_damp_factor e' = decrease_damp_factor e
       \<and> use_accel e' = use_accel e \<and> max_inner_loop e' = max_inner_loop e
       \<and> (keeps_argument h \<longrightarrow> param_vals e' = param_vals e)"
  using assms
  by (auto simp: update_eig_J_def dest: keeps_argumentD split: sum.splits prod.splits)

lemma calc_accel_correction_frame:
  assumes "calc_accel_correction h e d0 = Inr (e', corr)"
  shows "error e' = error e \<and> damping e' = damping e
       \<and> increase_damp_factor e' = increase_damp_factor e
       \<and> decrease_damp_factor e' = decrease_damp_factor e
       \<and> use_accel e' = use_accel e \<and> max_inner_loop e' = max_inner_loop e
       \<and> (keeps_argument h \<longrightarrow> param_vals e' = param_vals e)"
  using assms
  by (auto simp: calc_accel_correction_def dest: keeps_argumentD split: sum.splits prod.splits)

lemma refresh_J_frame:
  assumes "refresh_J h e = Inr e'"
  shows "error e' = error e \<and> damping e' = damping e
       \<and> increase_damp_factor e' = increase_damp_factor e
       \<and> decrease_damp_factor e' = decrease_damp_factor e
       \<and> use_accel e' = use_accel e \<and> max_inner_loop e' = max_inner_loop e
       \<and> (keeps_argument h \<longrightarrow> param_vals e' = param_vals e)"
proof -
  obtain e1 b where c: "check_update_J e = (e1, b)"
    by (cases "check_update_J e")
  have e1: "e1 = e\<lparr>J_update_counter := J_update_counter e + 1\<rparr>"
    using check_update_J_frame [OF c] .
  show ?thesis
  proof (cases b)
    case True
    with assms c have "update_J h e1 = Inr e'"
      by (simp add: refresh_J_def)
    then show ?thesis
      by (auto simp: update_J_def e1 split: sum.splits)
  next
    case False
    with assms c obtain bb g where
      g: "(if g then update_eig_J h (if bb then update_Broyden_J h e1 else e1)
           else Inr (if bb then update_Broyden_J h e1 else e1)) = Inr e'"
      by (auto simp: refresh_J_def Let_def split: sum.splits)
    define e2 where "e2 = (if bb then update_Broyden_J h e1 else e1)"
    have e2: "error e2 = error e \<and> damping e2 = damping e
       \<and> increase_damp_factor e2 = increase_damp_factor e
       \<and> decrease_damp_factor e2 = decrease_damp_factor e
       \<and> use_accel e2 = use_accel e \<and> max_inner_loop e2 = max_inner_loop e
       \<and> param_vals e2 = param_vals e"
      by (simp add: e2_def update_Broyden_J_def e1)
    show ?thesis
    proof (cases g)
      case True
      with g have "update_eig_J h e2 = Inr e'"
        by (simp add: e2_def)
      from update_eig_J_frame [OF this] e2 show ?thesis
        by simp
    next
      case False
      with g have "e' = e2"
        by (simp add: e2_def)
      with e2 show ?thesis
        by simp
    qed
  qed
qed

lemma find_LM_updates_plain:
  assumes "\<not> use_accel e"
  shows "find_LM_updates h e grad c None =
           (case h_calc_lm_step h (world e) (damping e) grad None of
              Inl x \<Rightarrow> Inl x | Inr delta \<Rightarrow> Inr (e, delta))"
  using assms by (simp add: find_LM_updates_def split: sum.splits)

lemma find_LM_updates_frame:
  assumes "find_LM_updates h e grad c sb = Inr (e', delta)"
  shows "error e' = error e
       \<and> increase_damp_factor e' = increase_damp_factor e
       \<and> decrease_damp_factor e' = decrease_damp_factor e
       \<and> use_accel e' = use_accel e \<and> max_inner_loop e' = max_inner_loop e
       \<and> (keeps_argument h \<longrightarrow> param_vals e' = param_vals e)
       \<and> (\<not> use_accel e \<longrightarrow> e' = e)"
proof (cases "use_accel e")
  case False
  with assms show ?thesis
    by (auto simp: find_LM_updates_def split: if_splits sum.splits)
next
  case True
  with assms obtain d0 e1 corr where
    a: "calc_accel_correction h e d0 = Inr (e1, corr)" and
    b: "e' = e1 \<or> e' = increase_damping e1"
    unfolding find_LM_updates_def Let_def
    by (auto split: if_splits sum.splits option.splits prod.splits)
  from calc_accel_correction_frame [OF a] b True show ?thesis
    by (auto simp: increase_damping_def)
qed

lemma run1_tries_Suc:
  "run1_tries h grad (Suc n) e =
     (case find_LM_updates h (increase_damping e) grad True None of
        Inl x \<Rightarrow> Inl x
      | Inr (e1, delta_vals) \<Rightarrow>
          (case np_combine (+) (param_vals e1) delta_vals of
             Inl x \<Rightarrow> Inl x
           | Inr p \<Rightarrow>
               (case h_update_function h (world e1) p of
                  Inl x \<Rightarrow> Inl x
                | Inr (w, p', er1) \<Rightarrow>
                    if er1 < error e1 then Inr (e1\<lparr>world := w\<rparr>, Some (delta_vals, er1))
                    else run1_tries h grad n (e1\<lparr>world := w\<rparr>))))"
  by (simp add: find_best_step_pair split: sum.splits prod.splits)

lemma run1_tries_frame:
  "run1_tries h grad n e = Inr (e', r) \<Longrightarrow>
     error e' = error e
     \<and> (keeps_argument h \<longrightarrow> param_vals e' = param_vals e)
     \<and> (case r of None \<Rightarrow> True | Some (delta, er1) \<Rightarrow> er1 < error e)"
proof (induction n arbitrary: e)
  case 0
  then show ?case by simp
next
  case (Suc n)
  from Suc.prems obtain e1 delta_vals w er1 where
    f: "find_LM_updates h (increase_damping e) grad True None = Inr (e1, delta_vals)" and
    r: "(if er1 < error e1 then Inr (e1\<lparr>world := w\<rparr>, Some (delta_vals, er1))
         else run1_tries h grad n (e1\<lparr>world := w\<rparr>)) = Inr (e', r)"
    unfolding run1_tries_Suc by (auto split: sum.splits prod.splits)
  have e1: "error e1 = error e \<and> (keeps_argument h \<longrightarrow> param_vals e1 = param_vals e)"
    using find_LM_updates_frame [OF f] by (simp add: increase_damping_def)
  show ?case
  proof (cases "er1 < error e1")
    case True
    with r e1 show ?thesis by auto
  next
    case False
    with r have "run1_tries h grad n (e1\<lparr>world := w\<rparr>) = Inr (e', r)"
      by simp
    from Suc.IH [OF this] e1 show ?thesis
      by (auto split: option.splits)
  qed
qed

lemma run1_accept_result:
  assumes "run1_accept e delta er1 = Inr e'"
  shows "error e' = er1 \<and> last_error e' = error e \<and> last_vals e' = param_vals e
       \<and> np_inplace (+) (param_vals e) delta = Inr (param_vals e')
       \<and> damping e' = map (\<lambda>d. d / decrease_damp_factor e) (damping e)"
  using assms
  by (auto simp: run1_accept_def update_param_vals_def decrease_damping_def Let_def
           split: sum.splits)

lemma run1_unfold:
  "run1 h e =
     (case refresh_J h e of
        Inl x \<Rightarrow> Inl x
      | Inr e1 \<Rightarrow>
     (case find_LM_updates h e1 (h_calc_grad h (world e1)) True None of
        Inl x \<Rightarrow> Inl x
      | Inr (e2, delta_vals) \<Rightarrow>
     (case np_combine (+) (param_vals e2) delta_vals of
        Inl x \<Rightarrow> Inl x
      | Inr p \<Rightarrow>
     (case h_update_function h (world e2) p of
        Inl x \<Rightarrow> Inl x
      | Inr (w3, p3, er1) \<Rightarrow>
          if er1 < error e2 then run1_accept (e2\<lparr>world := w3\<rparr>) delta_vals er1
          else
            (case h_update_function h w3 (param_vals e2) of
               Inl x \<Rightarrow> Inl x
             | Inr (w4, p4, er0) \<Rightarrow>
                 if \<bar>er0 - error e2\<bar> > 1 / 10 ^ 7 then Inl RuntimeError
                 else
                   (case run1_tries h (h_calc_grad h w4) (max_inner_loop e2)
                           (e2\<lparr>world := w4, param_vals := p4\<rparr>) of
                      Inl x \<Rightarrow> Inl x
                    | Inr (e5, Some (delta_vals', er1')) \<Rightarrow> run1_accept e5 delta_vals' er1'
                    | Inr (e5, None) \<Rightarrow>
                        (case h_update_function h (world e5) (param_vals e5) of
                           Inl x \<Rightarrow> Inl x
                         | Inr (w6, p6, er0') \<Rightarrow>
                             if \<bar>er0' - error e5\<bar> > 1 / 10 ^ 7 then Inl RuntimeError
                             else Inr (e5\<lparr>world := w6, param_vals := p6\<rparr>))))))))"
  by (simp add: run1_def Let_def find_best_step_pair split: sum.splits prod.splits)

lemma run1_outcome:
  assumes "run1 h e = Inr e'"
  shows "error e' < error e
       \<or> (error e' = error e
          \<and> (\<exists>w p er0. h_update_function h w p = Inr (world e', param_vals e', er0)
                \<and> \<bar>er0 - error e\<bar> \<le> 1 / 10 ^ 7)
          \<and> (keeps_argument h \<longrightarrow> param_vals e' = param_vals e))"
proof -
  obtain e1 where r: "refresh_J h e = Inr e1"
    using assms by (cases "refresh_J h e") (simp_all add: run1_unfold)
  obtain e2 delta_vals where
    f: "find_LM_updates h e1 (h_calc_grad h (world e1)) True None = Inr (e2, delta_vals)"
    using assms r
    by (cases "find_LM_updates h e1 (h_calc_grad h (world e1)) True None")
       (auto simp: run1_unfold)
  obtain p where c: "np_combine (+) (param_vals e2) delta_vals = Inr p"
    using assms r f
    by (cases "np_combine (+) (param_vals e2) delta_vals") (simp_all add: run1_unfold)
  obtain w3 p3 er1 where u1: "h_update_function h (world e2) p = Inr (w3, p3, er1)"
    using assms r f c
    by (cases "h_update_function h (world e2) p") (auto simp: run1_unfold)
  have rest: "(if er1 < error e2 then run1_accept (e2\<lparr>world := w3\<rparr>) delta_vals er1
          else
            (case h_update_function h w3 (param_vals e2) of
               Inl x \<Rightarrow> Inl x
             | Inr (w4, p4, er0) \<Rightarrow>
                 if \<bar>er0 - error e2\<bar> > 1 / 10 ^ 7 then Inl RuntimeError
                 else
                   (case run1_tries h (h_calc_grad h w4) (max_inner_loop e2)
                           (e2\<lparr>world := w4, param_vals := p4\<rparr>) of
                      Inl x \<Rightarrow> Inl x
                    | Inr (e5, Some (delta_vals', er1')) \<Rightarrow> run1_accept e5 delta_vals' er1'
                    | Inr (e5, None) \<Rightarrow>
                        (case h_update_function h (world e5) (param_vals e5) of
                           Inl x \<Rightarrow> Inl x
                         | Inr (w6, p6, er0') \<Rightarrow>
                             if \<bar>er0' - error e5\<bar> > 1 / 10 ^ 7 then Inl RuntimeError
                             else Inr (e5\<lparr>world := w6, param_vals := p6\<rparr>))))) = Inr e'"
    using assms r f c u1 by (simp add: run1_unfold)
  have e2: "error e2 = error e" "keeps_argument h \<longrightarrow> param_vals e2 = param_vals e"
    using refresh_J_frame [OF r] find_LM_updates_frame [OF f] by simp_all
  show ?thesis
  proof (cases "er1 < error e2")
    case True
    with rest have "run1_accept (e2\<lparr>world := w3\<rparr>) delta_vals er1 = Inr e'"
      by simp
    from run1_accept_result [OF this] True e2 show ?thesis
      by simp
  next
    case False
    with rest have rest': "(case h_update_function h w3 (param_vals e2) of
               Inl x \<Rightarrow> Inl x
             | Inr (w4, p4, er0) \<Rightarrow>
                 if \<bar>er0 - error e2\<bar> > 1 / 10 ^ 7 then Inl RuntimeError
                 else
                   (case run1_tries h (h_calc_grad h w4) (max_inner_loop e2)
                           (e2\<lparr>world := w4, param_vals := p4\<rparr>) of
                      Inl x \<Rightarrow> Inl x
                    | Inr (e5, Some (delta_vals', er1')) \<Rightarrow> run1_accept e5 delta_vals' er1'
                    | Inr (e5, None) \<Rightarrow>
                        (case h_update_function h (world e5) (param_vals e5) of
                           Inl x \<Rightarrow> Inl x
                         | Inr (w6, p6, er0') \<Rightarrow>
                             if \<bar>er0' - error e5\<bar> > 1 / 10 ^ 7 then Inl RuntimeError
                             else Inr (e5\<lparr>world := w6, param_vals := p6\<rparr>)))) = Inr e'"
      by simp
    obtain w4 p4 er0 where u: "h_update_function h w3 (param_vals e2) = Inr (w4, p4, er0)"
      using rest' by (cases "h_update_function h w3 (param_vals e2)") auto
    have tol: "\<bar>er0 - error e2\<bar> \<le> 1 / 10 ^ 7"
      using rest' u by (auto split: if_splits)
    obtain e5 res where
      t: "run1_tries h (h_calc_grad h w4) (max_inner_loop e2)
            (e2\<lparr>world := w4, param_vals := p4\<rparr>) = Inr (e5, res)"
      using rest' u tol
      by (cases "run1_tries h (h_calc_grad h w4) (max_inner_loop e2)
                   (e2\<lparr>world := w4, param_vals := p4\<rparr>)") auto
    have fin: "(case res of
              Some (delta_vals', er1') \<Rightarrow> run1_accept e5 delta_vals' er1'
            | None \<Rightarrow>
                (case h_update_function h (world e5) (param_vals e5) of
                   Inl x \<Rightarrow> Inl x
                 | Inr (w6, p6, er0') \<Rightarrow>
                     if \<bar>er0' - error e5\<bar> > 1 / 10 ^ 7 then Inl RuntimeError
                     else Inr (e5\<lparr>world := w6, param_vals := p6\<rparr>))) = Inr e'"
      using rest' u tol t by (auto split: option.splits)
    have p4: "keeps_argument h \<longrightarrow> p4 = param_vals e"
      using keeps_argumentD [OF _ u] e2 by auto
    note fr = run1_tries_frame [OF t]
    have e5: "error e5 = error e" "keeps_argument h \<longrightarrow> param_vals e5 = param_vals e"
      using fr e2 p4 by simp_all
    show ?thesis
    proof (cases res)
      case None
      with fin obtain w6 p6 er0' where
        v: "h_update_function h (world e5) (param_vals e5) = Inr (w6, p6, er0')" and
        tol': "\<bar>er0' - error e5\<bar> \<le> 1 / 10 ^ 7" and
        e': "e' = e5\<lparr>world := w6, param_vals := p6\<rparr>"
        by (auto split: sum.splits prod.splits if_splits)
      have "keeps_argument h \<longrightarrow> p6 = param_vals e"
        using keeps_argumentD [OF _ v] e5 by auto
      moreover have "\<exists>w p er0. h_update_function h w p = Inr (world e', param_vals e', er0)
                \<and> \<bar>er0 - error e\<bar> \<le> 1 / 10 ^ 7"
        using v tol' e5 e' by auto
      ultimately show ?thesis
        using e' e5 by simp
    next
      case (Some a)
      then obtain dv er where a: "res = Some (dv, er)"
        by (cases a) simp
      with fin have "run1_accept e5 dv er = Inr e'"
        by simp
      from run1_accept_result [OF this] fr a e2 show ?thesis
        by simp
    qed
  qed
qed

lemma run1_raises:
  assumes "refresh_J h e = Inr e1"
    and "find_LM_updates h e1 (h_calc_grad h (world e1)) True None = Inr (e2, delta_vals)"
    and "np_combine (+) (param_vals e2) delta_vals = Inr p"
    and "h_update_function h (world e2) p = Inr (w3, p3, er1)"
    and "\<not> er1 < error e"
    and "h_update_function h w3 (param_vals e2) = Inr (w4, p4, er0)"
    and "\<bar>er0 - error e\<bar> > 1 / 10 ^ 7"
  shows "run1 h e = Inl RuntimeError"
proof -
  have e2: "error e2 = error e"
    using refresh_J_frame [OF assms(1)] find_LM_updates_frame [OF assms(2)] by simp
  show ?thesis
    unfolding run1_unfold using assms e2 by simp
qed

lemma run1_raises_stuck:
  assumes "refresh_J h e = Inr e1"
    and "find_LM_updates h e1 (h_calc_grad h (world e1)) True None = Inr (e2, delta_vals)"
    and "np_combine (+) (param_vals e2) delta_vals = Inr p"
    and "h_update_function h (world e2) p = Inr (w3, p3, er1)"
    and "\<not> er1 < error e"
    and "h_update_function h w3 (param_vals e2) = Inr (w4, p4, er0)"
    and "\<bar>er0 - error e\<bar> \<le> 1 / 10 ^ 7"
    and "run1_tries h (h_calc_grad h w4) (max_inner_loop e)
           (e2\<lparr>world := w4, param_vals := p4\<rparr>) = Inr (e5, None)"
    and "h_update_function h (world e5) (param_vals e5) = Inr (w6, p6, er0')"
    and "\<bar>er0' - error e\<bar> > 1 / 10 ^ 7"
  shows "run1 h e = Inl RuntimeError"
proof -
  have e2: "error e2 = error e" "max_inner_loop e2 = max_inner_loop e"
    using refresh_J_frame [OF assms(1)] find_LM_updates_frame [OF assms(2)] by simp_all
  have e5: "error e5 = error e"
    using run1_tries_frame [OF assms(8)] e2 by simp
  show ?thesis
    unfolding run1_unfold using assms e2 e5 by simp
qed

lemma internal_partial_J_frame:
  assumes "internal_partial_J h e = Inr e'"
  shows "error e' = error e \<and> damping e' = damping e \<and> use_accel e' = use_accel e
       \<and> (keeps_argument h \<longrightarrow> param_vals e' = param_vals e)"
  using assms
  by (auto simp: internal_partial_J_def update_Broyden_J_def update_eig_J_def Let_def
           dest: keeps_argumentD split: if_splits sum.splits prod.splits)

lemma internal_good_flag: "internal_good h ud lr e dv er0 er1 = Inr (e', lr', g) \<Longrightarrow> g"
  by (auto simp: internal_good_def Let_def split: sum.splits)

lemma internal_body_rejected:
  assumes "internal_body h sb ud lr e = Inr (e', lr', False)"
  shows "error e' = error e
       \<and> (\<exists>w p er0_0. h_update_function h w p = Inr (world e', param_vals e', er0_0)
             \<and> \<bar>error e - er0_0\<bar> \<le> 1 / 10 ^ 6)
       \<and> (keeps_argument h \<longrightarrow> param_vals e' = param_vals e)"
proof -
  from assms obtain e2 e3 delta_vals w er1 where
    e2: "internal_partial_J h e = Inr e2" and
    e3: "find_LM_updates h e2 (h_calc_grad h (world e2)) False sb = Inr (e3, delta_vals)" and
    fin: "(if er1 < error e2
           then internal_good h ud lr (e3\<lparr>world := w\<rparr>) delta_vals (error e2) er1
           else internal_bad h lr (e3\<lparr>world := w\<rparr>) (error e2)) = Inr (e', lr', False)"
    by (auto simp: internal_body_def Let_def split: sum.splits prod.splits)
  have fr: "keeps_argument h \<longrightarrow> param_vals e3 = param_vals e" "error e3 = error e"
    "error e2 = error e"
    using internal_partial_J_frame [OF e2] find_LM_updates_frame [OF e3] by simp_all
  have "\<not> er1 < error e2"
    using fin internal_good_flag by (auto split: if_splits)
  with fin have "internal_bad h lr (e3\<lparr>world := w\<rparr>) (error e2) = Inr (e', lr', False)"
    by simp
  then obtain w' p' er0_0 where
    u: "h_update_function h w (param_vals e3) = Inr (w', p', er0_0)" and
    tol: "\<bar>error e2 - er0_0\<bar> \<le> 1 / 10 ^ 6" and e': "e' = e3\<lparr>world := w', param_vals := p'\<rparr>"
    by (auto simp: internal_bad_def split: sum.splits prod.splits if_splits)
  have "keeps_argument h \<longrightarrow> p' = param_vals e"
    using keeps_argumentD [OF _ u] fr by auto
  moreover have "\<exists>w p er0_0. h_update_function h w p = Inr (world e', param_vals e', er0_0)
             \<and> \<bar>error e - er0_0\<bar> \<le> 1 / 10 ^ 6"
    using u tol e' fr by auto
  ultimately show ?thesis
    using e' fr by simp
qed

lemma internal_body_raises:
  assumes "internal_partial_J h e = Inr e2"
    and "find_LM_updates h e2 (h_calc_grad h (world e2)) False sb = Inr (e3, delta_vals)"
    and "np_combine (+) (param_vals e3) delta_vals = Inr p"
    and "h_update_function h (world e3) p = Inr (w, p', er1)"
    and "\<not> er1 < error e"
    and "h_update_function h w (param_vals e3) = Inr (w', p0, er0_0)"
    and "\<bar>error e - er0_0\<bar> > 1 / 10 ^ 6"
  shows "internal_body h sb ud lr e = Inl RuntimeError"
proof -
  have fr: "error e3 = error e" "error e2 = error e"
    using internal_partial_J_frame [OF assms(1)] find_LM_updates_frame [OF assms(2)] by simp_all
  show ?thesis
    using assms fr by (simp add: internal_body_def internal_bad_def)
qed

section \<open>Termination (C2)\<close>

text \<open>
  Without \<open>costol\<close> the rule holds as the specification words it, for an error
  other than zero.
\<close>

lemma check_terminate_no_costol:
  assumes "costol e = None" and "length (last_vals e) = length (param_vals e)" and "error e \<noteq> 0"
  shows "check_terminate h e = Inr (spec_terminate e None)"
  using assms
  by (auto simp: check_terminate_def check_completion_def get_termination_stats_def
        np_combine_def frac_err_lt_def spec_terminate_def Let_def)

text \<open>
  C2. With \<open>costol\<close> set and a step already run, \<open>check_terminate\<close> returns
  no value at all: \<open>check_completion\<close> reads the undefined name \<open>curcos\<close>
  and raises \<open>NameError\<close> (unless an earlier statement has raised already), where
  the specification wants the cosine criterion evaluated.
\<close>

theorem check_terminate_costol_raises:
  "isl (check_terminate h (e\<lparr>has_run := True, costol := Some c\<rparr>))
   \<and> check_terminate quad_hooks ((default_engine [1] 1 [1])\<lparr>has_run := True, costol := Some (9 / 10)\<rparr>)
       = Inl NameError"
proof
  show "isl (check_terminate h (e\<lparr>has_run := True, costol := Some c\<rparr>))"
    by (simp add: check_terminate_def check_completion_def Let_def split: sum.splits)
  show "check_terminate quad_hooks ((default_engine [1] 1 [1])\<lparr>has_run := True, costol := Some (9 / 10)\<rparr>)
       = Inl NameError"
    by (simp add: check_terminate_def check_completion_def get_termination_stats_def
          np_combine_def default_engine_def quad_hooks_def Let_def)
qed

section \<open>Damping (C4)\<close>



lemma run1_accept_eq:
  assumes "length delta = length (param_vals e)"
  shows "\<exists>e'. run1_accept e delta er1 = Inr e'
          \<and> damping e' = map (\<lambda>d. d / decrease_damp_factor e) (damping e)
          \<and> error e' = er1 \<and> param_vals e' = map2 (+) (param_vals e) delta"
  using assms
  by (simp add: run1_accept_def update_param_vals_def np_inplace_def decrease_damping_def Let_def)

lemma run1_good_step:
  assumes na: "\<not> use_accel e"
    and r: "refresh_J h e = Inr e1"
    and s: "h_calc_lm_step h (world e1) (damping e) (h_calc_grad h (world e1)) None = Inr delta"
    and l: "length delta = length (param_vals e1)"
    and u: "h_update_function h (world e1) (map2 (+) (param_vals e1) delta) = Inr (w, p', er1)"
    and g: "er1 < error e"
  shows "\<exists>e'. run1 h e = Inr e'
          \<and> damping e' = map (\<lambda>d. d / decrease_damp_factor e) (damping e)
          \<and> error e' = er1 \<and> param_vals e' = map2 (+) (param_vals e1) delta"
proof -
  note fr = refresh_J_frame [OF r]
  have f: "find_LM_updates h e1 (h_calc_grad h (world e1)) True None = Inr (e1, delta)"
    using na fr s by (simp add: find_LM_updates_plain)
  have c: "np_combine (+) (param_vals e1) delta = Inr (map2 (+) (param_vals e1) delta)"
    using l by (simp add: np_combine_def)
  have "run1 h e = run1_accept (e1\<lparr>world := w\<rparr>) delta er1"
    unfolding run1_unfold using r f c u g fr by simp
  moreover have "length delta = length (param_vals (e1\<lparr>world := w\<rparr>))"
    using l by simp
  ultimately show ?thesis
    using run1_accept_eq [of delta "e1\<lparr>world := w\<rparr>" er1] fr by simp
qed







lemma quad_internal_reject:
  "internal_body quad_hooks None True [] (default_engine [0] 0 [0])
   = Inr ((default_engine [0] 0 [0])\<lparr>world := [0]\<rparr>, [], False)"
  by (simp add: internal_body_def internal_partial_J_def check_Broyden_J_def
        check_update_eig_J_def find_LM_updates_def np_combine_def internal_bad_def
        default_engine_def quad_hooks_def Let_def)






section \<open>Reverting a rejected step (C5)\<close>

lemma drift_update: "h_update_function drift_hooks w p = Inr (Suc w, p, real (Suc w))"
  by (simp add: drift_hooks_def)

lemma drift_step: "h_calc_lm_step drift_hooks w d g sb = Inr [1]"
  by (simp add: drift_hooks_def)

lemma run2_tries_drift:
  assumes "\<not> use_accel e" and "error e \<le> 0" and "length (param_vals e) = 1"
  shows "\<exists>e'. run2_tries drift_hooks grad n e = Inr (e', False)
           \<and> param_vals e' = param_vals e \<and> error e' = real (world e + n + 1)"
  using assms
proof (induction n arbitrary: e)
  case 0
  then show ?case
    by (simp add: drift_update)
next
  case (Suc n)
  define e1 where "e1 = increase_damping e"
  have e1: "\<not> use_accel e1" "error e1 = error e" "param_vals e1 = param_vals e" "world e1 = world e"
    using Suc.prems by (simp_all add: e1_def increase_damping_def)
  have step: "run2_tries drift_hooks grad (Suc n) e
              = run2_tries drift_hooks grad n (e1\<lparr>world := Suc (world e)\<rparr>)"
    using e1 Suc.prems
    by (simp add: e1_def [symmetric] find_LM_updates_plain drift_step drift_update np_combine_def)
  have "\<exists>e'. run2_tries drift_hooks grad n (e1\<lparr>world := Suc (world e)\<rparr>) = Inr (e', False)
           \<and> param_vals e' = param_vals (e1\<lparr>world := Suc (world e)\<rparr>)
           \<and> error e' = real (world (e1\<lparr>world := Suc (world e)\<rparr>) + n + 1)"
    using e1 Suc.prems by (intro Suc.IH) simp_all
  then show ?case
    unfolding step using e1 by simp
qed

lemma late_update: "h_update_function late_hooks w p = Inr (Suc w, p, if w < 17 then 0 else 1)"
  by (simp add: late_hooks_def)

lemma late_step: "h_calc_lm_step late_hooks w d g sb = Inr [1]"
  by (simp add: late_hooks_def)

lemma run1_tries_late:
  assumes "\<not> use_accel e" and "error e = 0" and "length (param_vals e) = 1"
    and "world e + n \<le> 17"
  shows "\<exists>e'. run1_tries late_hooks grad n e = Inr (e', None)
           \<and> param_vals e' = param_vals e \<and> error e' = 0 \<and> world e' = world e + n"
  using assms
proof (induction n arbitrary: e)
  case 0
  then show ?case
    by simp
next
  case (Suc n)
  define e1 where "e1 = increase_damping e"
  have e1: "\<not> use_accel e1" "error e1 = 0" "param_vals e1 = param_vals e" "world e1 = world e"
    using Suc.prems by (simp_all add: e1_def increase_damping_def)
  have step: "run1_tries late_hooks grad (Suc n) e
              = run1_tries late_hooks grad n (e1\<lparr>world := Suc (world e)\<rparr>)"
    using e1 Suc.prems unfolding run1_tries_Suc
    by (simp add: e1_def [symmetric] find_LM_updates_plain late_step late_update np_combine_def)
  have "\<exists>e'. run1_tries late_hooks grad n (e1\<lparr>world := Suc (world e)\<rparr>) = Inr (e', None)
           \<and> param_vals e' = param_vals (e1\<lparr>world := Suc (world e)\<rparr>)
           \<and> error e' = 0
           \<and> world e' = world (e1\<lparr>world := Suc (world e)\<rparr>) + n"
    using e1 Suc.prems by (intro Suc.IH) simp_all
  then show ?case
    unfolding step using e1 by simp
qed

lemma quad_update: "h_update_function quad_hooks w p = Inr (p, p, sum_list (map (\<lambda>x. x * x) p))"
  by (simp add: quad_hooks_def)

lemma keeps_argument_quad: "keeps_argument quad_hooks"
  by (simp add: keeps_argument_def quad_hooks_def)

lemma run1_tries_quad_zero:
  assumes "\<not> use_accel e" and "error e = 0" and "param_vals e = [0]"
    and "length (damping e) = 1" and "world e = [0]"
  shows "\<exists>e'. run1_tries quad_hooks [0] n e = Inr (e', None)
           \<and> param_vals e' = [0] \<and> error e' = 0 \<and> world e' = [0]"
  using assms
proof (induction n arbitrary: e)
  case 0
  then show ?case
    by simp
next
  case (Suc n)
  define e1 where "e1 = increase_damping e"
  have e1: "\<not> use_accel e1" "error e1 = 0" "param_vals e1 = [0]" "world e1 = [0]"
    "length (damping e1) = 1"
    using Suc.prems by (simp_all add: e1_def increase_damping_def)
  obtain d where d: "damping e1 = [d]"
    using e1(5) by (cases "damping e1") simp_all
  have st: "h_calc_lm_step quad_hooks [0] (damping e1) [0] None = Inr [0]"
    by (simp add: quad_hooks_def d)
  have step: "run1_tries quad_hooks [0] (Suc n) e
              = run1_tries quad_hooks [0] n (e1\<lparr>world := [0]\<rparr>)"
    using e1 unfolding run1_tries_Suc
    by (simp add: e1_def [symmetric] find_LM_updates_plain st quad_update np_combine_def)
  have "\<exists>e'. run1_tries quad_hooks [0] n (e1\<lparr>world := [0]\<rparr>) = Inr (e', None)
           \<and> param_vals e' = [0] \<and> error e' = 0 \<and> world e' = [0]"
    using e1 by (intro Suc.IH) simp_all
  then show ?case
    unfolding step by simp
qed

lemma clip_update_one: "h_update_function clip_hooks w [1] = Inr ([1], [1], 4)"
  by (simp add: clip_hooks_def np_clip_def Let_def)

lemma clip_update_three: "h_update_function clip_hooks w [3] = Inr ([1], [1], 4)"
  by (simp add: clip_hooks_def np_clip_def Let_def)

lemma clip_step: "h_calc_lm_step clip_hooks w d g sb = Inr [2]"
  by (simp add: clip_hooks_def)

lemma run1_tries_clip:
  assumes "\<not> use_accel e" and "error e = 4" and "param_vals e = [1]"
  shows "\<exists>e'. run1_tries clip_hooks grad n e = Inr (e', None)
           \<and> param_vals e' = [1] \<and> error e' = 4"
  using assms
proof (induction n arbitrary: e)
  case 0
  then show ?case
    by simp
next
  case (Suc n)
  define e1 where "e1 = increase_damping e"
  have e1: "\<not> use_accel e1" "error e1 = 4" "param_vals e1 = [1]"
    using Suc.prems by (simp_all add: e1_def increase_damping_def)
  have step: "run1_tries clip_hooks grad (Suc n) e
              = run1_tries clip_hooks grad n (e1\<lparr>world := [1]\<rparr>)"
    using e1 unfolding run1_tries_Suc
    by (simp add: e1_def [symmetric] find_LM_updates_plain clip_step clip_update_three np_combine_def)
  have "\<exists>e'. run1_tries clip_hooks grad n (e1\<lparr>world := [1]\<rparr>) = Inr (e', None)
           \<and> param_vals e' = [1] \<and> error e' = 4"
    using e1 by (intro Suc.IH) simp_all
  then show ?case
    unfolding step by simp
qed

lemma clip_update_ge: "1 \<le> x \<Longrightarrow> h_update_function clip_hooks w [x] = Inr ([1], [1], 4)"
  by (simp add: clip_hooks_def np_clip_def Let_def)

lemma clip_run1_first:
  "run1 clip_hooks (default_engine [0] 9 [0])
   = Inr ((default_engine [0] 9 [0])\<lparr>param_vals := [2], last_vals := [0], error := 4,
            last_error := 9, damping := [1 / 8], J_update_counter := 0, fresh_JTJ := False,
            world := [1]\<rparr>)"
proof -
  define ex :: "real list engine" where "ex = default_engine [0] 9 [0]"
  define e1 where "e1 = ex\<lparr>J_update_counter := 0, fresh_JTJ := True\<rparr>"
  have r: "refresh_J clip_hooks ex = Inr e1"
    by (simp add: refresh_J_def check_update_J_def update_J_def ex_def e1_def default_engine_def
          clip_hooks_def Let_def)
  have f: "\<not> use_accel e1" "param_vals e1 = [0]" "error e1 = 9"
    by (simp_all add: e1_def ex_def default_engine_def)
  have "run1 clip_hooks ex = run1_accept (e1\<lparr>world := [1]\<rparr>) [2] 4"
    unfolding run1_unfold using r f
    by (simp add: find_LM_updates_plain clip_step np_combine_def clip_update_ge)
  then show ?thesis
    unfolding ex_def [symmetric]
    by (simp add: run1_accept_def update_param_vals_def np_inplace_def decrease_damping_def
          e1_def ex_def default_engine_def Let_def)
qed

lemma clip_run1_second:
  assumes "\<not> use_accel e" "param_vals e = [2]" "error e = 4" "update_J_frequency e = 1"
    "\<not> fresh_JTJ e" "0 \<le> J_update_counter e"
  shows "\<exists>e'. run1 clip_hooks e = Inr e' \<and> param_vals e' = [1] \<and> error e' = 4"
proof -
  define e1 where "e1 = e\<lparr>J_update_counter := 0, fresh_JTJ := True\<rparr>"
  have r: "refresh_J clip_hooks e = Inr e1"
    using assms
    by (simp add: refresh_J_def check_update_J_def update_J_def e1_def clip_hooks_def Let_def)
  have f: "\<not> use_accel e1" "param_vals e1 = [2]" "error e1 = 4"
    using assms by (simp_all add: e1_def)
  define e4 where "e4 = e1\<lparr>world := [1], param_vals := [1]\<rparr>"
  have e4: "\<not> use_accel e4" "error e4 = 4" "param_vals e4 = [1]"
    using f by (simp_all add: e4_def)
  obtain e5 where t: "run1_tries clip_hooks (h_calc_grad clip_hooks [1]) (max_inner_loop e1) e4
                      = Inr (e5, None)"
    and e5: "param_vals e5 = [1]" "error e5 = 4"
    using run1_tries_clip [OF e4, of "h_calc_grad clip_hooks [1]" "max_inner_loop e1"] by blast
  have "run1 clip_hooks e = Inr (e5\<lparr>world := [1], param_vals := [1]\<rparr>)"
    unfolding run1_unfold using r f t e5
    by (simp add: find_LM_updates_plain clip_step np_combine_def clip_update_ge e4_def)
  then show ?thesis
    using e5 by simp
qed

text \<open>
  \<open>_run2\<close> on the model whose updates are not exact: both first steps are
  bad, the parameters are put back by a call of \<open>update_function\<close> whose
  result (\<open>3\<close>, where \<open>0\<close> is recorded) is dropped, all fifteen further
  tries fail, and \<open>_run2\<close> returns with the parameters unchanged and the
  error overwritten by the last re-evaluation, \<open>19\<close>. Nothing is raised.

  \<open>_run1\<close> on the model that clips its argument in place: a first call
  accepts a step whose trial vector \<open>[2]\<close> was clipped to \<open>[1]\<close>, and leaves
  \<open>param_vals = [2]\<close> with the error \<open>4\<close> of the clipped vector. The next call
  rejects every step; its re-evaluations agree with the recorded error \<open>4\<close>,
  nothing is raised, and it returns with \<open>param_vals = [1]\<close>: the
  re-evaluation has clipped \<open>self.param_vals\<close> itself.
\<close>

theorem reverts_counterexample:
  "\<not> isl (run2 drift_hooks (default_engine [0] 0 0))
   \<and> param_vals (projr (run2 drift_hooks (default_engine [0] 0 0))) = [0]
   \<and> error (default_engine [0] 0 (0::nat)) = 0
   \<and> error (projr (run2 drift_hooks (default_engine [0] 0 0))) = 19
   \<and> \<not> isl (run1 clip_hooks (default_engine [0] 9 [0]))
   \<and> param_vals (projr (run1 clip_hooks (default_engine [0] 9 [0]))) = [2]
   \<and> error (projr (run1 clip_hooks (default_engine [0] 9 [0]))) = 4
   \<and> \<not> isl (run1 clip_hooks (projr (run1 clip_hooks (default_engine [0] 9 [0]))))
   \<and> param_vals (projr (run1 clip_hooks (projr (run1 clip_hooks (default_engine [0] 9 [0]))))) = [1]
   \<and> error (projr (run1 clip_hooks (projr (run1 clip_hooks (default_engine [0] 9 [0]))))) = 4"
proof -
  define ex :: "nat engine" where "ex = default_engine [0] 0 0"
  define e1 where "e1 = ex\<lparr>J_update_counter := 0, fresh_JTJ := True\<rparr>"
  define e7 where "e7 = e1\<lparr>world := Suc (Suc 0)\<rparr>"
  have r: "refresh_J drift_hooks ex = Inr e1"
    by (simp add: refresh_J_def check_update_J_def update_J_def ex_def e1_def default_engine_def
          drift_hooks_def Let_def)
  have f: "\<not> use_accel e1" "param_vals e1 = [0]" "error e1 = 0" "world e1 = 0"
    "max_inner_loop e1 = 15"
    by (simp_all add: e1_def ex_def default_engine_def)
  have d: "decrease_damping True (decrease_damping False e1) = e1"
    by (simp add: decrease_damping_def e1_def ex_def default_engine_def)
  obtain e9 where t: "run2_tries drift_hooks (h_calc_grad drift_hooks (Suc (Suc (Suc 0)))) 15
                        (e7\<lparr>world := Suc (Suc (Suc 0))\<rparr>)
                      = Inr (e9, False)"
    and e9: "param_vals e9 = [0]" "error e9 = 19"
    using run2_tries_drift [of "e7\<lparr>world := Suc (Suc (Suc 0))\<rparr>"
            "h_calc_grad drift_hooks (Suc (Suc (Suc 0)))" 15] f
    by (auto simp: e7_def)
  have c: "run2_choose drift_hooks e7 0 [1] [1] [1] 1 2 = Inr (e9, False)"
    using t f by (simp add: run2_choose_def drift_update e7_def)
  have "run2 drift_hooks ex = Inr e9"
    using r f d c
    by (simp add: run2_def find_LM_updates_plain drift_step drift_update np_combine_def
          decrease_damping_def find_best_step_def e7_def Let_def)
  then have a: "\<not> isl (run2 drift_hooks (default_engine [0] 0 0))
   \<and> param_vals (projr (run2 drift_hooks (default_engine [0] 0 0))) = [0]
   \<and> error (default_engine [0] 0 (0::nat)) = 0
   \<and> error (projr (run2 drift_hooks (default_engine [0] 0 0))) = 19"
    using e9 by (simp add: ex_def [symmetric]) (simp add: ex_def default_engine_def)
  define c1 :: "real list engine" where
    "c1 = (default_engine [0] 9 [0])\<lparr>param_vals := [2], last_vals := [0], error := 4,
            last_error := 9, damping := [1 / 8], J_update_counter := 0, fresh_JTJ := False,
            world := [1]\<rparr>"
  have c1: "run1 clip_hooks (default_engine [0] 9 [0]) = Inr c1"
    unfolding c1_def by (rule clip_run1_first)
  have "\<exists>e'. run1 clip_hooks c1 = Inr e' \<and> param_vals e' = [1] \<and> error e' = 4"
    by (rule clip_run1_second) (simp_all add: c1_def default_engine_def)
  then obtain c2 where c2: "run1 clip_hooks c1 = Inr c2" "param_vals c2 = [1]" "error c2 = 4"
    by blast
  have b: "\<not> isl (run1 clip_hooks (default_engine [0] 9 [0]))
   \<and> param_vals (projr (run1 clip_hooks (default_engine [0] 9 [0]))) = [2]
   \<and> error (projr (run1 clip_hooks (default_engine [0] 9 [0]))) = 4
   \<and> \<not> isl (run1 clip_hooks (projr (run1 clip_hooks (default_engine [0] 9 [0]))))
   \<and> param_vals (projr (run1 clip_hooks (projr (run1 clip_hooks (default_engine [0] 9 [0]))))) = [1]
   \<and> error (projr (run1 clip_hooks (projr (run1 clip_hooks (default_engine [0] 9 [0]))))) = 4"
    unfolding c1 using c2 by (simp add: c1_def)
  from a b show ?thesis
    by (iprover intro: conjI elim: conjE)
qed

text \<open>
  C5, amended. In \<open>_run1\<close> (the body of \<open>do_run_1\<close>) and in the loop of
  \<open>do_internal_run\<close>, putting the parameters back after a rejected step is a call
  of \<open>update_function\<close> on \<open>self.param_vals\<close>, whose result is compared with
  the recorded error. If \<open>_run1\<close> returns without having lowered the error, its
  last act was such a re-evaluation within \<open>1e-7\<close> of the recorded error, which
  left the state and the array now in \<open>param_vals\<close>, and \<open>error\<close> is as it was;
  \<open>_run1\<close> raises \<open>RuntimeError\<close> when the re-evaluation after the first rejected
  trial is further off than \<open>1e-7\<close>, and when the one after the last of the
  \<open>_max_inner_loop\<close> further trials is. A pass of \<open>do_internal_run\<close> that ends
  with a bad step has left \<open>error\<close> as it was, after a re-evaluation within
  \<open>1e-6\<close>; a re-evaluation further off makes it raise. With an
  \<open>update_function\<close> that does not write to its argument, \<open>param_vals\<close> is as
  it was before the step in both.
\<close>

theorem revert_checks:
  "(run1 h e = Inr e' \<longrightarrow>
      error e' < error e
      \<or> (error e' = error e
         \<and> (\<exists>w p er0. h_update_function h w p = Inr (world e', param_vals e', er0)
               \<and> \<bar>er0 - error e\<bar> \<le> 1 / 10 ^ 7)
         \<and> (keeps_argument h \<longrightarrow> param_vals e' = param_vals e)))
   \<and> (refresh_J h e = Inr e1
        \<and> find_LM_updates h e1 (h_calc_grad h (world e1)) True None = Inr (e2, delta_vals)
        \<and> np_combine (+) (param_vals e2) delta_vals = Inr p
        \<and> h_update_function h (world e2) p = Inr (w3, p3, er1)
        \<and> \<not> er1 < error e
        \<and> h_update_function h w3 (param_vals e2) = Inr (w4, p4, er0)
        \<and> \<bar>er0 - error e\<bar> > 1 / 10 ^ 7 \<longrightarrow>
        run1 h e = Inl RuntimeError)
   \<and> (refresh_J h e = Inr e1
        \<and> find_LM_updates h e1 (h_calc_grad h (world e1)) True None = Inr (e2, delta_vals)
        \<and> np_combine (+) (param_vals e2) delta_vals = Inr p
        \<and> h_update_function h (world e2) p = Inr (w3, p3, er1)
        \<and> \<not> er1 < error e
        \<and> h_update_function h w3 (param_vals e2) = Inr (w4, p4, er0)
        \<and> \<bar>er0 - error e\<bar> \<le> 1 / 10 ^ 7
        \<and> run1_tries h (h_calc_grad h w4) (max_inner_loop e)
             (e2\<lparr>world := w4, param_vals := p4\<rparr>) = Inr (e5, None)
        \<and> h_update_function h (world e5) (param_vals e5) = Inr (w6, p6, er0')
        \<and> \<bar>er0' - error e\<bar> > 1 / 10 ^ 7 \<longrightarrow>
        run1 h e = Inl RuntimeError)
   \<and> (internal_body h sb ud lr e = Inr (e'', lr', False) \<longrightarrow>
        error e'' = error e
        \<and> (\<exists>w p er0_0. h_update_function h w p = Inr (world e'', param_vals e'', er0_0)
              \<and> \<bar>error e - er0_0\<bar> \<le> 1 / 10 ^ 6)
        \<and> (keeps_argument h \<longrightarrow> param_vals e'' = param_vals e))
   \<and> (internal_partial_J h e = Inr i2
        \<and> find_LM_updates h i2 (h_calc_grad h (world i2)) False sb = Inr (i3, idelta)
        \<and> np_combine (+) (param_vals i3) idelta = Inr ip
        \<and> h_update_function h (world i3) ip = Inr (iw, ip', ier1)
        \<and> \<not> ier1 < error e
        \<and> h_update_function h iw (param_vals i3) = Inr (iw', ip0, ier0)
        \<and> \<bar>error e - ier0\<bar> > 1 / 10 ^ 6 \<longrightarrow>
        internal_body h sb ud lr e = Inl RuntimeError)"
proof (intro conjI impI)
  show "error e' < error e
      \<or> (error e' = error e
         \<and> (\<exists>w p er0. h_update_function h w p = Inr (world e', param_vals e', er0)
               \<and> \<bar>er0 - error e\<bar> \<le> 1 / 10 ^ 7)
         \<and> (keeps_argument h \<longrightarrow> param_vals e' = param_vals e))"
    if "run1 h e = Inr e'"
    using that by (rule run1_outcome)
  show "run1 h e = Inl RuntimeError"
    if "refresh_J h e = Inr e1
        \<and> find_LM_updates h e1 (h_calc_grad h (world e1)) True None = Inr (e2, delta_vals)
        \<and> np_combine (+) (param_vals e2) delta_vals = Inr p
        \<and> h_update_function h (world e2) p = Inr (w3, p3, er1)
        \<and> \<not> er1 < error e
        \<and> h_update_function h w3 (param_vals e2) = Inr (w4, p4, er0)
        \<and> \<bar>er0 - error e\<bar> > 1 / 10 ^ 7"
    using that run1_raises [of h e e1 e2 delta_vals p w3 p3 er1 w4 p4 er0] by blast
  show "run1 h e = Inl RuntimeError"
    if "refresh_J h e = Inr e1
        \<and> find_LM_updates h e1 (h_calc_grad h (world e1)) True None = Inr (e2, delta_vals)
        \<and> np_combine (+) (param_vals e2) delta_vals = Inr p
        \<and> h_update_function h (world e2) p = Inr (w3, p3, er1)
        \<and> \<not> er1 < error e
        \<and> h_update_function h w3 (param_vals e2) = Inr (w4, p4, er0)
        \<and> \<bar>er0 - error e\<bar> \<le> 1 / 10 ^ 7
        \<and> run1_tries h (h_calc_grad h w4) (max_inner_loop e)
             (e2\<lparr>world := w4, param_vals := p4\<rparr>) = Inr (e5, None)
        \<and> h_update_function h (world e5) (param_vals e5) = Inr (w6, p6, er0')
        \<and> \<bar>er0' - error e\<bar> > 1 / 10 ^ 7"
    using that run1_raises_stuck [of h e e1 e2 delta_vals p w3 p3 er1 w4 p4 er0 e5 w6 p6 er0']
    by blast
  show "error e'' = error e"
    "\<exists>w p er0_0. h_update_function h w p = Inr (world e'', param_vals e'', er0_0)
              \<and> \<bar>error e - er0_0\<bar> \<le> 1 / 10 ^ 6"
    if "internal_body h sb ud lr e = Inr (e'', lr', False)"
    using internal_body_rejected [OF that] by blast+
  show "param_vals e'' = param_vals e"
    if "internal_body h sb ud lr e = Inr (e'', lr', False)" and "keeps_argument h"
    using internal_body_rejected [OF that(1)] that(2) by blast
  show "internal_body h sb ud lr e = Inl RuntimeError"
    if "internal_partial_J h e = Inr i2
        \<and> find_LM_updates h i2 (h_calc_grad h (world i2)) False sb = Inr (i3, idelta)
        \<and> np_combine (+) (param_vals i3) idelta = Inr ip
        \<and> h_update_function h (world i3) ip = Inr (iw, ip', ier1)
        \<and> \<not> ier1 < error e
        \<and> h_update_function h iw (param_vals i3) = Inr (iw', ip0, ier0)
        \<and> \<bar>error e - ier0\<bar> > 1 / 10 ^ 6"
    using that internal_body_raises [of h e i2 sb i3 idelta ip iw ip' ier1 iw' ip0 ier0 ud lr]
    by blast
qed

lemma quad_run1_stuck:
  "\<exists>e'. run1 quad_hooks (default_engine [0] 0 [0]) = Inr e'
       \<and> error e' = 0 \<and> param_vals e' = [0]"
proof -
  define ex :: "real list engine" where "ex = default_engine [0] 0 [0]"
  define e1 where "e1 = ex\<lparr>J_update_counter := 0, fresh_JTJ := True\<rparr>"
  have r: "refresh_J quad_hooks ex = Inr e1"
    by (simp add: refresh_J_def check_update_J_def update_J_def ex_def e1_def default_engine_def
          quad_hooks_def Let_def)
  have f: "\<not> use_accel e1" "param_vals e1 = [0]" "error e1 = 0" "world e1 = [0]"
    "damping e1 = [1]"
    by (simp_all add: e1_def ex_def default_engine_def)
  have st: "h_calc_lm_step quad_hooks [0] [1] (h_calc_grad quad_hooks [0]) None = Inr [0]"
    "h_calc_grad quad_hooks [0] = [0]"
    by (simp_all add: quad_hooks_def)
  define e4 where "e4 = e1\<lparr>world := [0], param_vals := [0]\<rparr>"
  have e4: "\<not> use_accel e4" "error e4 = 0" "param_vals e4 = [0]" "length (damping e4) = 1"
    "world e4 = [0]"
    using f by (simp_all add: e4_def)
  obtain e5 where t: "run1_tries quad_hooks [0] (max_inner_loop e1) e4 = Inr (e5, None)"
    and e5: "param_vals e5 = [0]" "error e5 = 0" "world e5 = [0]"
    using run1_tries_quad_zero [OF e4, of "max_inner_loop e1"] by blast
  have "run1 quad_hooks ex = Inr (e5\<lparr>world := [0], param_vals := [0]\<rparr>)"
    unfolding run1_unfold using r f t e5 st
    by (simp add: find_LM_updates_plain np_combine_def quad_update e4_def)
  then show ?thesis
    using e5 by (simp add: ex_def)
qed

text \<open>
  On the quadratic model a first step is accepted, and at its minimum every
  step of \<open>_run1\<close> is rejected and parameters and error are left alone; on the
  model whose updates are not exact \<open>_run1\<close> and the pass of
  \<open>do_internal_run\<close> raise at their first re-evaluation; on the model whose
  eighteenth update is not exact \<open>_run1\<close> raises at its second
  re-evaluation; at the minimum of the quadratic model the pass of
  \<open>do_internal_run\<close> rejects its step and leaves parameters and error alone.
\<close>

theorem revert_checks_witness:
  "(\<exists>e'. run1 quad_hooks (default_engine [1] 1 [1]) = Inr e'
      \<and> error e' < error (default_engine [1] 1 [1::real]))
   \<and> (\<exists>e'. run1 quad_hooks (default_engine [0] 0 [0]) = Inr e'
      \<and> error e' = error (default_engine [0] 0 [0::real])
      \<and> (\<exists>w p er0. h_update_function quad_hooks w p = Inr (world e', param_vals e', er0)
            \<and> \<bar>er0 - error (default_engine [0] 0 [0::real])\<bar> \<le> 1 / 10 ^ 7)
      \<and> keeps_argument quad_hooks
      \<and> param_vals e' = param_vals (default_engine [0] 0 [0::real]))
   \<and> run1 drift_hooks (default_engine [0] 0 0) = Inl RuntimeError
   \<and> run1 late_hooks (default_engine [0] 0 0) = Inl RuntimeError
   \<and> internal_body quad_hooks None True [] (default_engine [0] 0 [0])
       = Inr ((default_engine [0] 0 [0])\<lparr>world := [0]\<rparr>, [], False)
   \<and> error ((default_engine [0] 0 [0::real])\<lparr>world := [0]\<rparr>) = error (default_engine [0] 0 [0::real])
   \<and> param_vals ((default_engine [0] 0 [0::real])\<lparr>world := [0]\<rparr>)
       = param_vals (default_engine [0] 0 [0::real])
   \<and> internal_body drift_hooks None True [] (default_engine [0] 0 0) = Inl RuntimeError"
proof -
  define qx :: "real list engine" where "qx = default_engine [1] 1 [1]"
  define q0 :: "real list engine" where "q0 = default_engine [0] 0 [0]"
  define dx :: "nat engine" where "dx = default_engine [0] 0 0"
  define q1 where "q1 = qx\<lparr>J_update_counter := 0, fresh_JTJ := True\<rparr>"
  define d1 where "d1 = dx\<lparr>J_update_counter := 0, fresh_JTJ := True\<rparr>"

  have rq: "refresh_J quad_hooks qx = Inr q1"
    by (simp add: refresh_J_def check_update_J_def update_J_def qx_def q1_def default_engine_def
          quad_hooks_def Let_def)
  have fq: "\<not> use_accel qx" "param_vals q1 = [1]" "error qx = 1" "world q1 = [1]" "damping qx = [1]"
    by (simp_all add: q1_def qx_def default_engine_def)
  have "\<exists>e'. run1 quad_hooks qx = Inr e'
          \<and> damping e' = map (\<lambda>d. d / decrease_damp_factor qx) (damping qx)
          \<and> error e' = 1 / 4 \<and> param_vals e' = map2 (+) (param_vals q1) [- 1 / 2]"
    using fq by (intro run1_good_step [OF _ rq]) (simp_all add: quad_hooks_def)
  then obtain e' where e': "run1 quad_hooks qx = Inr e'" "error e' = 1 / 4"
    by blast
  have a: "\<exists>e'. run1 quad_hooks qx = Inr e' \<and> error e' < error qx"
    using revert_checks [THEN conjunct1, rule_format, OF e'(1)] e' fq by auto

  obtain s' where s': "run1 quad_hooks q0 = Inr s'" "error s' = 0" "param_vals s' = [0]"
    using quad_run1_stuck unfolding q0_def by blast
  have q0: "error q0 = 0" "param_vals q0 = [0]"
    by (simp_all add: q0_def default_engine_def)
  have a2: "\<exists>e'. run1 quad_hooks q0 = Inr e'
      \<and> error e' = error q0
      \<and> (\<exists>w p er0. h_update_function quad_hooks w p = Inr (world e', param_vals e', er0)
            \<and> \<bar>er0 - error q0\<bar> \<le> 1 / 10 ^ 7)
      \<and> keeps_argument quad_hooks
      \<and> param_vals e' = param_vals q0"
    using revert_checks [THEN conjunct1, rule_format, OF s'(1)] s' q0 keeps_argument_quad
    by auto

  have rd: "refresh_J drift_hooks dx = Inr d1"
    by (simp add: refresh_J_def check_update_J_def update_J_def dx_def d1_def default_engine_def
          drift_hooks_def Let_def)
  have fd: "\<not> use_accel d1" "param_vals d1 = [0]" "world d1 = 0" "error dx = 0" "param_vals dx = [0]"
    "\<not> use_accel dx" "world dx = 0" "max_inner_loop dx = 15"
    by (simp_all add: d1_def dx_def default_engine_def)
  have b: "run1 drift_hooks dx = Inl RuntimeError"
  proof (rule revert_checks [THEN conjunct2, THEN conjunct1, rule_format], intro conjI)
    show "refresh_J drift_hooks dx = Inr d1"
      by (rule rd)
    show "find_LM_updates drift_hooks d1 (h_calc_grad drift_hooks (world d1)) True None = Inr (d1, [1])"
      using fd by (simp add: find_LM_updates_plain drift_hooks_def)
    show "np_combine (+) (param_vals d1) [1] = Inr [1]"
      using fd by (simp add: np_combine_def)
    show "h_update_function drift_hooks (world d1) [1] = Inr (Suc 0, [1], 1)"
      using fd by (simp add: drift_hooks_def)
    show "\<not> 1 < error dx"
      using fd by simp
    show "h_update_function drift_hooks (Suc 0) (param_vals d1) = Inr (Suc (Suc 0), [0], 2)"
      using fd by (simp add: drift_hooks_def)
    show "1 / 10 ^ 7 < \<bar>2 - error dx\<bar>"
      using fd by simp
  qed

  have rl: "refresh_J late_hooks dx = Inr d1"
    by (simp add: refresh_J_def check_update_J_def update_J_def dx_def d1_def default_engine_def
          late_hooks_def Let_def)
  define d4 where "d4 = d1\<lparr>world := Suc (Suc 0), param_vals := [0]\<rparr>"
  have d4: "\<not> use_accel d4" "error d4 = 0" "length (param_vals d4) = 1" "world d4 + 15 \<le> 17"
    by (simp_all add: d4_def d1_def dx_def default_engine_def)
  obtain d5 where t: "run1_tries late_hooks (h_calc_grad late_hooks (Suc (Suc 0))) 15 d4
                      = Inr (d5, None)"
    and d5: "param_vals d5 = param_vals d4" "world d5 = world d4 + 15"
    using run1_tries_late [OF d4, of "h_calc_grad late_hooks (Suc (Suc 0))"] by blast
  have d5': "param_vals d5 = [0]" "world d5 = 17"
    using d5 by (simp_all add: d4_def)
  have b2: "run1 late_hooks dx = Inl RuntimeError"
  proof (rule revert_checks [THEN conjunct2, THEN conjunct2, THEN conjunct1, rule_format],
         intro conjI)
    show "refresh_J late_hooks dx = Inr d1"
      by (rule rl)
    show "find_LM_updates late_hooks d1 (h_calc_grad late_hooks (world d1)) True None = Inr (d1, [1])"
      using fd by (simp add: find_LM_updates_plain late_hooks_def)
    show "np_combine (+) (param_vals d1) [1] = Inr [1]"
      using fd by (simp add: np_combine_def)
    show "h_update_function late_hooks (world d1) [1] = Inr (Suc 0, [1], 0)"
      using fd by (simp add: late_hooks_def)
    show "\<not> 0 < error dx"
      using fd by simp
    show "h_update_function late_hooks (Suc 0) (param_vals d1) = Inr (Suc (Suc 0), [0], 0)"
      using fd by (simp add: late_hooks_def)
    show "\<bar>0 - error dx\<bar> \<le> 1 / 10 ^ 7"
      using fd by simp
    show "run1_tries late_hooks (h_calc_grad late_hooks (Suc (Suc 0))) (max_inner_loop dx)
            (d1\<lparr>world := Suc (Suc 0), param_vals := [0]\<rparr>) = Inr (d5, None)"
      using t fd by (simp add: d4_def)
    show "h_update_function late_hooks (world d5) (param_vals d5) = Inr (18, [0], 1)"
      using d5' by (simp add: late_hooks_def)
    show "1 / 10 ^ 7 < \<bar>1 - error dx\<bar>"
      using fd by simp
  qed

  have c: "internal_body quad_hooks None True [] q0 = Inr (q0\<lparr>world := [0]\<rparr>, [], False)"
    unfolding q0_def by (rule quad_internal_reject)
  note c' = revert_checks [THEN conjunct2, THEN conjunct2, THEN conjunct2, THEN conjunct1,
              rule_format, OF c]
  have c2: "error (q0\<lparr>world := [0]\<rparr>) = error q0"
    "param_vals (q0\<lparr>world := [0]\<rparr>) = param_vals q0"
    using c' keeps_argument_quad by blast+

  have pd: "internal_partial_J drift_hooks dx = Inr dx"
    by (simp add: internal_partial_J_def check_Broyden_J_def check_update_eig_J_def
          dx_def default_engine_def Let_def)
  have d: "internal_body drift_hooks None True [] dx = Inl RuntimeError"
  proof (rule revert_checks [THEN conjunct2, THEN conjunct2, THEN conjunct2, THEN conjunct2,
           rule_format], intro conjI)
    show "internal_partial_J drift_hooks dx = Inr dx"
      by (rule pd)
    show "find_LM_updates drift_hooks dx (h_calc_grad drift_hooks (world dx)) False None = Inr (dx, [1])"
      using fd by (simp add: find_LM_updates_plain drift_hooks_def)
    show "np_combine (+) (param_vals dx) [1] = Inr [1]"
      using fd by (simp add: np_combine_def)
    show "h_update_function drift_hooks (world dx) [1] = Inr (Suc 0, [1], 1)"
      using fd by (simp add: drift_hooks_def)
    show "\<not> 1 < error dx"
      using fd by simp
    show "h_update_function drift_hooks (Suc 0) (param_vals dx) = Inr (Suc (Suc 0), [0], 2)"
      using fd by (simp add: drift_hooks_def)
    show "1 / 10 ^ 6 < \<bar>error dx - 2\<bar>"
      using fd by simp
  qed
  show ?thesis
    using a a2 b b2 c c2 d unfolding qx_def q0_def dx_def by (iprover intro: conjI)
qed

section \<open>\<open>PSF2D.execute\<close> (C8)\<close>

lemma conv_loop_all:
  assumes "length cs = length fs" and "a + length fs \<le> length ks"
    and "\<forall>i<length fs. conv_2d H (fs ! i) (ks ! (a + i)) = Inr (cs ! i)"
  shows "conv_loop H ks a fs = Inr cs"
  using assms
proof (induction fs arbitrary: a cs)
  case Nil
  then show ?case by simp
next
  case (Cons f fs)
  then obtain c cs' where cs: "cs = c # cs'"
    by (cases cs) auto
  have c: "conv_2d H f (ks ! a) = Inr c"
    using Cons.prems(3) cs by force
  have "conv_loop H ks (Suc a) fs = Inr cs'"
  proof (rule Cons.IH)
    show "length cs' = length fs"
      using Cons.prems(1) cs by simp
    show "Suc a + length fs \<le> length ks"
      using Cons.prems(2) by simp
    show "\<forall>i<length fs. conv_2d H (fs ! i) (ks ! (Suc a + i)) = Inr (cs' ! i)"
    proof (intro allI impI)
      fix i assume "i < length fs"
      then have "conv_2d H ((f # fs) ! Suc i) (ks ! (a + Suc i)) = Inr (cs ! Suc i)"
        using Cons.prems(3) by (metis Suc_less_eq length_Cons)
      then show "conv_2d H (fs ! i) (ks ! (Suc a + i)) = Inr (cs' ! i)"
        by (simp add: cs)
    qed
  qed
  with c Cons.prems(2) show ?case
    by (simp add: cs)
qed

lemma fill_loop_eq:
  assumes "a + n \<le> length bigger"
  shows "fill_loop ans n a bigger = Inr (take a bigger @ replicate n ans @ drop (a + n) bigger)"
  using assms
proof (induction n arbitrary: a bigger)
  case 0
  then show ?case by simp
next
  case (Suc n)
  have a: "a < length bigger"
    using Suc.prems by simp
  have "fill_loop ans (Suc n) a bigger = fill_loop ans n (Suc a) (bigger[a := ans])"
    using a by simp
  also have "\<dots> = Inr (take (Suc a) (bigger[a := ans]) @ replicate n ans
                     @ drop (Suc a + n) (bigger[a := ans]))"
    using Suc.prems by (intro Suc.IH) simp
  also have "take (Suc a) (bigger[a := ans]) = take a bigger @ [ans]"
    using a by (simp add: take_Suc_conv_app_nth)
  also have "drop (Suc a + n) (bigger[a := ans]) = drop (a + Suc n) bigger"
    by simp
  finally show ?case
    by (simp add: replicate_app_Cons_same)
qed

lemma fill_loop_short:
  assumes "a \<le> length bigger" and "length bigger < a + n"
  shows "fill_loop ans n a bigger = Inl IndexError"
  using assms
proof (induction n arbitrary: a bigger)
  case 0
  then show ?case by simp
next
  case (Suc n)
  show ?case
  proof (cases "length bigger \<le> a")
    case True
    then show ?thesis by simp
  next
    case False
    then have "fill_loop ans (Suc n) a bigger = fill_loop ans n (Suc a) (bigger[a := ans])"
      by simp
    also have "\<dots> = Inl IndexError"
      using False Suc.prems by (intro Suc.IH) simp_all
    finally show ?thesis .
  qed
qed

text \<open>
  C8, amended. For a field with as many z-slices as \<open>self.shape[0]\<close> (and as
  the kernel \<open>self._kpsf\<close>), whose slices \<open>a\<close> all convolve, to \<open>cs[a]\<close>,
  \<open>execute\<close> returns as many slices as the field has, each of them the sum of
  all the \<open>cs[a]\<close>.
\<close>

theorem execute_broadcasts_sum:
  assumes "length field = shape0 P" and "length (kpsf P) = shape0 P"
    and "length cs = length field"
    and "\<forall>a<length field. conv_2d H (field ! a) (kpsf P ! a) = Inr (cs ! a)"
  shows "execute H P field = Inr (replicate (length field) (sum_list cs))"
proof -
  have "conv_loop H (kpsf P) 0 field = Inr cs"
    using assms by (intro conv_loop_all) simp_all
  moreover have "fill_loop (sum_list cs) (shape0 P) 0 (replicate (length field) 0)
                 = Inr (replicate (length field) (sum_list cs))"
    using assms(1) fill_loop_eq [of 0 "shape0 P" "replicate (length field) 0" "sum_list cs"]
    by simp
  ultimately show ?thesis
    by (simp add: execute_def)
qed

text \<open>
  A field of one slice given to a PSF of depth two: the second loop runs over
  \<open>self.shape[0]\<close> and writes past the end of the answer.
\<close>

theorem execute_depth_counterexample:
  "execute pixel_hooks \<lparr>shape0 = 2, kpsf = [1, 1]\<rparr> [5] = Inl IndexError"
  by (simp add: execute_def conv_2d_def pixel_hooks_def numeral_2_eq_2)

text \<open>Two slices \<open>2\<close> and \<open>3\<close> against the kernels \<open>1\<close> and \<open>2\<close>.\<close>

theorem execute_broadcasts_sum_witness:
  "execute pixel_hooks \<lparr>shape0 = 2, kpsf = [1, 2]\<rparr> [2, 3] = Inr [8, 8]"
proof -
  have "\<forall>a<length [2, 3 :: real].
          conv_2d pixel_hooks ([2, 3] ! a) (kpsf \<lparr>shape0 = 2, kpsf = [1, 2 :: complex]\<rparr> ! a)
          = Inr ([2, 6] ! a)"
    by (simp add: conv_2d_def pixel_hooks_def less_Suc_eq)
  then show ?thesis
    using execute_broadcasts_sum [of "[2, 3]" "\<lparr>shape0 = 2, kpsf = [1, 2]\<rparr>" "[2, 6]" pixel_hooks]
    by (simp add: numeral_2_eq_2)
qed

end
